theory Spec2Isabelle
  imports Complex_Main "HOL-Library.Multiset" "HOL-Library.Sublist"
begin

section \<open>Conventions of the embedding\<close>

text \<open>
  The Python sources (\<^verbatim>\<open>bin_service.py\<close>, \<^verbatim>\<open>outlier_service.py\<close>, \<^verbatim>\<open>parser.py\<close>,
  \<^verbatim>\<open>recommender_service.py\<close>, \<^verbatim>\<open>app.py\<close>) are embedded function by function.

  \<^item> A Python \<^verbatim>\<open>float\<close> is a \<^typ>\<open>real\<close>: a finite value with exact arithmetic. Rounding,
    overflow and the special values NaN and infinity are not part of the model.
  \<^item> A Python \<^verbatim>\<open>int\<close> is an \<^typ>\<open>int\<close>; a count that only ever grows from zero is a \<^typ>\<open>nat\<close>.
  \<^item> A dictionary whose keys are fixed by the code that builds it is a record; a key that
    the code reads with \<^verbatim>\<open>.get\<close> and tests against \<^verbatim>\<open>None\<close> is an option field.
  \<^item> A raised exception is the \<open>Inl\<close> branch of a sum.
\<close>

section \<open>Exceptions\<close>

text \<open>
  The exception classes the sources raise or catch, each with its message, and
  \<^verbatim>\<open>str(e)\<close>.
\<close>

datatype exn =
    ValueError string
  | TypeError string
  | KeyError string
  | IndexError string
  | ZeroDivisionError string
  | OverflowError string

fun str_exn :: "exn \<Rightarrow> string" where
  "str_exn (ValueError m) = m"
| "str_exn (TypeError m) = m"
| "str_exn (KeyError m) = m"
| "str_exn (IndexError m) = m"
| "str_exn (ZeroDivisionError m) = m"
| "str_exn (OverflowError m) = m"

text \<open>Sequencing of two steps of which the first may raise.\<close>

definition bind_exn :: "exn + 'a \<Rightarrow> ('a \<Rightarrow> exn + 'b) \<Rightarrow> exn + 'b" where
  "bind_exn m f = (case m of Inl e \<Rightarrow> Inl e | Inr x \<Rightarrow> f x)"

text \<open>\<^verbatim>\<open>xs[i]\<close> for a non-negative index.\<close>

definition py_index :: "'a list \<Rightarrow> nat \<Rightarrow> exn + 'a" where
  "py_index xs i = (if i < length xs then Inr (xs ! i) else Inl (IndexError ''list index out of range''))"

section \<open>Bins (\<^verbatim>\<open>bin_service.py\<close>)\<close>

text \<open>The bin dictionary built by \<^verbatim>\<open>create_bins\<close>.\<close>

record bin =
  bin_index :: nat
  priceLower :: real
  priceUpper :: real
  amount_weth :: real
  amount_usdt :: real
  count_nfts :: nat

text \<open>
  The summary position dictionary built by \<^verbatim>\<open>create_final_summary\<close> and read by the
  validators and by the binning engine. The identifier and the two amounts carry the prefix \<open>pos_\<close>: the bin has keys
  named like the amounts, and \<open>nft_id\<close> is a local variable of the parser.
\<close>

record position =
  pos_nft_id :: int
  create_time :: string
  number_of_positions :: int
  price_lower_afterdecimals :: "real option"
  price_upper_afterdecimals :: "real option"
  pos_amount_weth :: "real option"
  pos_amount_usdt :: "real option"

definition calculate_overlap :: "real \<Rightarrow> real \<Rightarrow> real \<Rightarrow> real \<Rightarrow> real" where
  "calculate_overlap position_lower position_upper bin_lower bin_upper =
     (let overlap_lower = max position_lower bin_lower;
          overlap_upper = min position_upper bin_upper
      in if overlap_lower \<ge> overlap_upper then 0 else overlap_upper - overlap_lower)"

text \<open>
  First loop of \<^verbatim>\<open>distribute_position_to_bins\<close>: the bins with a positive overlap, each
  with its overlap. The source keeps a reference to the bin object; the model keeps the
  bin's place in the list (\<open>i\<close> is the place of the head of the list still to scan).
\<close>

fun overlapping_bins :: "real \<Rightarrow> real \<Rightarrow> nat \<Rightarrow> bin list \<Rightarrow> (nat \<times> real) list" where
  "overlapping_bins position_lower position_upper i [] = []"
| "overlapping_bins position_lower position_upper i (b # bs) =
     (let overlap = calculate_overlap position_lower position_upper (priceLower b) (priceUpper b)
      in if overlap > 0
         then (i, overlap) # overlapping_bins position_lower position_upper (Suc i) bs
         else overlapping_bins position_lower position_upper (Suc i) bs)"

text \<open>The body of the second loop: what one overlapping bin receives.\<close>

definition add_to_bin :: "real \<Rightarrow> real \<Rightarrow> real \<Rightarrow> real \<Rightarrow> bin \<Rightarrow> bin" where
  "add_to_bin a_weth a_usdt position_range overlap b =
     (let overlap_proportion = overlap / position_range;
          bin_weth = a_weth * overlap_proportion;
          bin_usdt = a_usdt * overlap_proportion
      in b\<lparr>amount_weth := amount_weth b + bin_weth,
           amount_usdt := amount_usdt b + bin_usdt,
           count_nfts := count_nfts b + 1\<rparr>)"

fun distribute_loop :: "real \<Rightarrow> real \<Rightarrow> real \<Rightarrow> (nat \<times> real) list \<Rightarrow> bin list \<Rightarrow> bin list" where
  "distribute_loop a_weth a_usdt position_range [] bins = bins"
| "distribute_loop a_weth a_usdt position_range ((i, overlap) # rest) bins =
     distribute_loop a_weth a_usdt position_range rest
       (bins[i := add_to_bin a_weth a_usdt position_range overlap (bins ! i)])"

text \<open>\<^verbatim>\<open>x or 0.0\<close> on an optional float: \<^verbatim>\<open>None\<close> and \<^verbatim>\<open>0.0\<close> are both falsy.\<close>

definition or_zero :: "real option \<Rightarrow> real" where
  "or_zero v = (case v of None \<Rightarrow> 0 | Some x \<Rightarrow> x)"

definition distribute_position_to_bins :: "position \<Rightarrow> bin list \<Rightarrow> bin list" where
  "distribute_position_to_bins p bins =
     (let a_weth = or_zero (pos_amount_weth p);
          a_usdt = or_zero (pos_amount_usdt p)
      in case (price_lower_afterdecimals p, price_upper_afterdecimals p) of
           (Some position_lower, Some position_upper) \<Rightarrow>
             (let found = overlapping_bins position_lower position_upper 0 bins;
                  total_overlap = sum_list (map snd found)
              in if total_overlap = 0 \<or> length found = 0 then bins
                 else let position_range = position_upper - position_lower
                      in if position_range = 0 then bins
                         else distribute_loop a_weth a_usdt position_range found bins)
         | _ \<Rightarrow> bins)"


section \<open>Outlier filter (\<^verbatim>\<open>outlier_service.py\<close>)\<close>

definition MIN_REASONABLE_PRICE :: real where "MIN_REASONABLE_PRICE = 100"
definition MAX_REASONABLE_PRICE :: real where "MAX_REASONABLE_PRICE = 100000"
definition MAX_WETH :: real where "MAX_WETH = 10 ^ 6"
definition MAX_USDT :: real where "MAX_USDT = 10 ^ 12"
definition MIN_PRICE_THRESHOLD :: real where "MIN_PRICE_THRESHOLD = 1 / 10 ^ 10"
definition MAX_PRICE_THRESHOLD :: real where "MAX_PRICE_THRESHOLD = 10 ^ 10"

text \<open>
  \<^verbatim>\<open>math.isnan\<close> and \<^verbatim>\<open>math.isinf\<close>: no value of the model is NaN or infinite (see the
  conventions), so both tests are false on every \<^typ>\<open>real\<close>.
\<close>

definition isnan :: "real \<Rightarrow> bool" where "isnan x = False"
definition isinf :: "real \<Rightarrow> bool" where "isinf x = False"

text \<open>
  \<^verbatim>\<open>validate_amounts\<close>; the \<^verbatim>\<open>nft_id\<close> argument only selects whether a warning is
  printed.
\<close>

definition validate_amounts :: "real option \<Rightarrow> real option \<Rightarrow> bool" where
  "validate_amounts a_weth a_usdt =
     (case a_weth of
        Some w \<Rightarrow> if isnan w \<or> isinf w \<or> w < 0 \<or> w > MAX_WETH then False
                  else (case a_usdt of
                          Some u \<Rightarrow> if isnan u \<or> isinf u \<or> u < 0 \<or> u > MAX_USDT then False else True
                        | None \<Rightarrow> True)
      | None \<Rightarrow> (case a_usdt of
                   Some u \<Rightarrow> if isnan u \<or> isinf u \<or> u < 0 \<or> u > MAX_USDT then False else True
                 | None \<Rightarrow> True))"

definition validate_position_prices :: "position \<Rightarrow> real \<Rightarrow> real \<Rightarrow> bool" where
  "validate_position_prices p min_reasonable max_reasonable =
     (case (price_lower_afterdecimals p, price_upper_afterdecimals p) of
        (Some price_lower, Some price_upper) \<Rightarrow>
          if price_lower < min_reasonable \<or> price_upper > max_reasonable then False
          else if price_lower \<ge> price_upper then False
          else if price_lower < MIN_PRICE_THRESHOLD \<or> price_upper > MAX_PRICE_THRESHOLD then False
          else if \<not> validate_amounts (pos_amount_weth p) (pos_amount_usdt p) then False
          else True
      | _ \<Rightarrow> False)"

text \<open>\<^verbatim>\<open>filter_valid_positions\<close>: the loop appends to one of two lists; the warnings are output only.\<close>

fun filter_valid_positions :: "position list \<Rightarrow> real \<Rightarrow> real \<Rightarrow> position list \<times> position list" where
  "filter_valid_positions [] min_reasonable max_reasonable = ([], [])"
| "filter_valid_positions (p # ps) min_reasonable max_reasonable =
     (let (valid_positions, invalid_positions) = filter_valid_positions ps min_reasonable max_reasonable
      in if validate_position_prices p min_reasonable max_reasonable
         then (p # valid_positions, invalid_positions)
         else (valid_positions, p # invalid_positions))"

text \<open>
  The collecting loop of \<^verbatim>\<open>find_price_range\<close>: the lower bounds that are present and
  positive, and the upper bounds that are present and positive, each in input order.
\<close>

fun collect_lowers :: "position list \<Rightarrow> real list" where
  "collect_lowers [] = []"
| "collect_lowers (p # ps) =
     (case price_lower_afterdecimals p of
        Some price_lower \<Rightarrow> if price_lower > 0 then price_lower # collect_lowers ps else collect_lowers ps
      | None \<Rightarrow> collect_lowers ps)"

fun collect_uppers :: "position list \<Rightarrow> real list" where
  "collect_uppers [] = []"
| "collect_uppers (p # ps) =
     (case price_upper_afterdecimals p of
        Some price_upper \<Rightarrow> if price_upper > 0 then price_upper # collect_uppers ps else collect_uppers ps
      | None \<Rightarrow> collect_uppers ps)"

text \<open>\<^verbatim>\<open>min(xs)\<close> and \<^verbatim>\<open>max(xs)\<close> of a list; both raise on the empty list.\<close>

definition py_min :: "real list \<Rightarrow> exn + real" where
  "py_min xs = (case xs of [] \<Rightarrow> Inl (ValueError ''min() arg is an empty sequence'')
                | x # rest \<Rightarrow> Inr (fold min rest x))"

definition py_max :: "real list \<Rightarrow> exn + real" where
  "py_max xs = (case xs of [] \<Rightarrow> Inl (ValueError ''max() arg is an empty sequence'')
                | x # rest \<Rightarrow> Inr (fold max rest x))"

definition in_thresholds :: "real \<Rightarrow> bool" where
  "in_thresholds p \<longleftrightarrow> MIN_PRICE_THRESHOLD \<le> p \<and> p \<le> MAX_PRICE_THRESHOLD"

text \<open>
  \<^verbatim>\<open>find_price_range\<close>. \<^verbatim>\<open>int(len(xs) * 0.05)\<close> truncates a non-negative product, which
  is its floor. The last-resort branch is \<open>last_resort\<close>.
\<close>

definition last_resort :: "real list \<Rightarrow> real list \<Rightarrow> exn + (real \<times> real)" where
  "last_resort all_lowers all_uppers =
     (let reasonable_lowers = filter in_thresholds all_lowers;
          reasonable_uppers = filter in_thresholds all_uppers
      in if reasonable_lowers \<noteq> [] \<and> reasonable_uppers \<noteq> []
         then bind_exn (py_min reasonable_lowers) (\<lambda>min_price.
              bind_exn (py_max reasonable_uppers) (\<lambda>max_price.
              Inr (min_price, max_price)))
         else Inl (ValueError ''No reasonable price range found in positions''))"

definition find_price_range :: "position list \<Rightarrow> exn + (real \<times> real)" where
  "find_price_range positions =
     (let all_lowers = collect_lowers positions;
          all_uppers = collect_uppers positions
      in if all_lowers = [] \<or> all_uppers = []
         then Inl (ValueError ''No valid price data found in positions'')
         else
           let all_lowers = sort all_lowers;
               all_uppers = sort all_uppers;
               lower_percentile_idx = nat (max 0 \<lfloor>real (length all_lowers) * 0.05\<rfloor>);
               upper_percentile_idx = nat (min (int (length all_uppers) - 1)
                                               \<lfloor>real (length all_uppers) * 0.95\<rfloor>)
           in bind_exn (py_index all_lowers lower_percentile_idx) (\<lambda>min_price.
              bind_exn (py_index all_uppers upper_percentile_idx) (\<lambda>max_price.
              if min_price < MIN_PRICE_THRESHOLD \<or> max_price > MAX_PRICE_THRESHOLD
              then bind_exn (py_index all_lowers (length all_lowers div 2)) (\<lambda>median_lower.
                   bind_exn (py_index all_uppers (length all_uppers div 2)) (\<lambda>median_upper.
                   if median_lower \<ge> MIN_PRICE_THRESHOLD \<and> median_upper \<le> MAX_PRICE_THRESHOLD
                   then Inr (median_lower, median_upper)
                   else last_resort all_lowers all_uppers))
              else Inr (min_price, max_price))))"

section \<open>Building the bins (\<^verbatim>\<open>bin_service.py\<close>)\<close>

definition NUM_BINS :: nat where "NUM_BINS = 50"

text \<open>
  \<^verbatim>\<open>create_bins\<close>. The number of bins is a count; the division raises when it is zero.
\<close>

definition create_bins :: "real \<Rightarrow> real \<Rightarrow> nat \<Rightarrow> exn + bin list" where
  "create_bins min_price max_price num_bins =
     (if min_price \<ge> max_price then Inl (ValueError ''min_price must be less than max_price'')
      else if num_bins = 0 then Inl (ZeroDivisionError ''float division by zero'')
      else let bin_size = (max_price - min_price) / real num_bins
           in Inr (map (\<lambda>i. \<lparr>bin_index = i,
                               priceLower = min_price + real i * bin_size,
                               priceUpper = min_price + (real i + 1) * bin_size,
                               amount_weth = 0, amount_usdt = 0, count_nfts = 0\<rparr>)
                       [0..<num_bins]))"

text \<open>
  \<^verbatim>\<open>create_bins_from_data\<close>. The comparison of the range with \<^verbatim>\<open>float('inf')\<close> is false on
  every value of the model. The last loop distributes the valid positions in order.
\<close>

definition create_bins_from_data :: "position list \<Rightarrow> nat \<Rightarrow> real option \<Rightarrow> real option \<Rightarrow> exn + bin list" where
  "create_bins_from_data positions num_bins min_reasonable max_reasonable =
     (if positions = [] then Inl (ValueError ''No positions provided'')
      else
        let min_reasonable = (case min_reasonable of None \<Rightarrow> MIN_REASONABLE_PRICE | Some v \<Rightarrow> v);
            max_reasonable = (case max_reasonable of None \<Rightarrow> MAX_REASONABLE_PRICE | Some v \<Rightarrow> v);
            (valid_positions, invalid_positions) =
               filter_valid_positions positions min_reasonable max_reasonable
        in if valid_positions = [] then Inl (ValueError ''No valid positions after filtering'')
           else bind_exn (find_price_range valid_positions) (\<lambda>(min_price, max_price).
                bind_exn (create_bins min_price max_price num_bins) (\<lambda>bins.
                Inr (fold distribute_position_to_bins valid_positions bins))))"


section \<open>Recommender (\<^verbatim>\<open>recommender_service.py\<close>)\<close>

text \<open>
  A band is the copy of a bin that \<^verbatim>\<open>get_top_liquidity_bands\<close> makes, with the key
  \<^verbatim>\<open>total_liquidity\<close> and, once a volume was asked for, \<^verbatim>\<open>trading_volume_24h\<close>.
\<close>

record band = bin +
  total_liquidity :: real
  trading_volume_24h :: "real option"

text \<open>\<^verbatim>\<open>x or 0.0\<close> on a float.\<close>

definition calculate_total_liquidity :: "'a bin_scheme \<Rightarrow> real" where
  "calculate_total_liquidity b =
     (let price_lower = priceLower b;
          price_upper = priceUpper b;
          mid_price = (if price_lower > 0 \<and> price_upper > 0 then (price_lower + price_upper) / 2 else 0)
      in amount_usdt b + amount_weth b * mid_price)"

definition bin_copy_with_liquidity :: "bin \<Rightarrow> band" where
  "bin_copy_with_liquidity b =
     bin.extend b (band.fields (calculate_total_liquidity b) None)"

text \<open>
  \<^verbatim>\<open>sorted(xs, key=f, reverse=True)\<close>: CPython reverses the list, sorts it stably in
  ascending order of the key, and reverses the result.
\<close>

definition sorted_reverse :: "('a \<Rightarrow> real) \<Rightarrow> 'a list \<Rightarrow> 'a list" where
  "sorted_reverse f xs = rev (sort_key f (rev xs))"

text \<open>\<^verbatim>\<open>get_top_liquidity_bands\<close>; \<^verbatim>\<open>top_n\<close> is a count.\<close>

definition get_top_liquidity_bands :: "bin list \<Rightarrow> nat \<Rightarrow> band list" where
  "get_top_liquidity_bands bins top_n =
     (let bins_with_liquidity = map bin_copy_with_liquidity bins;
          sorted_bins = sorted_reverse total_liquidity bins_with_liquidity
      in take top_n sorted_bins)"


section \<open>Parser (\<^verbatim>\<open>parser.py\<close>)\<close>

subsection \<open>Raw call records\<close>

text \<open>
  A record of the upstream service, typed at the boundary. A \<^verbatim>\<open>Value\<close> dictionary may have
  the key \<^verbatim>\<open>address\<close> and the key \<^verbatim>\<open>bigInteger\<close>. What is stored under \<^verbatim>\<open>bigInteger\<close> is
  kept as the outcome of \<^verbatim>\<open>int(...)\<close> on it: the integer, or the exception raised.
\<close>

datatype bigint = Parsed int | Unparsable exn

record abi_value =
  address :: "string option"
  bigInteger :: "bigint option"

text \<open>
  An entry of \<^verbatim>\<open>Arguments\<close> or of \<^verbatim>\<open>Returns\<close>: \<^verbatim>\<open>.get("Index")\<close>, \<^verbatim>\<open>.get("Name", "")\<close> and
  \<^verbatim>\<open>.get("Value", {})\<close>.
\<close>

record abi_item =
  Index :: "int option"
  Name :: string
  Value :: abi_value

text \<open>
  A call (or event) record. \<open>Signature_Name\<close> is
  \<^verbatim>\<open>call.get("Call", {}).get("Signature", {}).get("Name", "")\<close>. \<open>Block_Time\<close> is \<open>None\<close> when
  \<^verbatim>\<open>Block\<close> is missing, empty or has no \<^verbatim>\<open>Time\<close>, and otherwise holds the stored value, which
  may be null; likewise \<open>Transaction_Time\<close>.
\<close>

record call_record =
  Arguments :: "abi_item list"
  Returns :: "abi_item list"
  Signature_Name :: string
  Block_Time :: "string option option"
  Transaction_Time :: "string option option"

text \<open>The part of a response under \<^verbatim>\<open>data.EVM\<close>.\<close>

record evm_response =
  Events :: "call_record list"
  Calls :: "call_record list"

definition py_int :: "bigint \<Rightarrow> exn + int" where
  "py_int v = (case v of Parsed n \<Rightarrow> Inr n | Unparsable e \<Rightarrow> Inl e)"

subsection \<open>Constants and tick math\<close>

definition WETH_ADDRESS :: string where
  "WETH_ADDRESS = ''0xc02aaa39b223fe8d0a0e5c4f27ead9083c756cc2''"

definition USDT_ADDRESS :: string where
  "USDT_ADDRESS = ''0xdac17f958d2ee523a2206206994597c13d831ec7''"

definition WETH_DECIMALS :: int where "WETH_DECIMALS = 18"
definition USDT_DECIMALS :: int where "USDT_DECIMALS = 6"

text \<open>\<^verbatim>\<open>str.lower\<close> on the ASCII letters.\<close>

definition lower_char :: "char \<Rightarrow> char" where
  "lower_char c = (let n = (of_char c :: int) in if 65 \<le> n \<and> n \<le> 90 then char_of (n + 32) else c)"

definition lower :: "string \<Rightarrow> string" where
  "lower s = map lower_char s"

definition normalize_address :: "string \<Rightarrow> string" where
  "normalize_address a = (if a \<noteq> [] then lower a else [])"

definition calculate_price_from_tick :: "int \<Rightarrow> real" where
  "calculate_price_from_tick tick = 1.0001 powi tick"

definition calculate_price_with_decimals :: "int \<Rightarrow> int \<Rightarrow> int \<Rightarrow> real" where
  "calculate_price_with_decimals tick decimal0 decimal1 =
     (let price_base = 1.0001 powi tick;
          decimal_diff = decimal1 - decimal0
      in price_base / (10 powi decimal_diff))"

subsection \<open>\<^verbatim>\<open>extract_position_data\<close>\<close>

text \<open>
  The dictionary that \<^verbatim>\<open>extract_position_data\<close> returns; every key carries the prefix
  \<open>mint_\<close>, which keeps the names of the local variables free.
\<close>

record mint_position =
  mint_nft_id :: int
  mint_tick_lower :: int
  mint_tick_upper :: int
  mint_timestamp :: string
  mint_token0 :: "string option"
  mint_token1 :: "string option"
  mint_price_lower :: real
  mint_price_upper :: real
  mint_price_lower_afterdecimals :: real
  mint_price_upper_afterdecimals :: real
  mint_amount0 :: "int option"
  mint_amount1 :: "int option"
  mint_amount0_afterdecimals :: "real option"
  mint_amount1_afterdecimals :: "real option"
  mint_amount_weth :: "real option"
  mint_amount_usdt :: "real option"

text \<open>The loop over \<^verbatim>\<open>arguments[:2]\<close>; the state is \<open>(token0_address, token1_address)\<close>.\<close>

fun token_addresses :: "abi_item list \<Rightarrow> string option \<times> string option \<Rightarrow> string option \<times> string option" where
  "token_addresses [] acc = acc"
| "token_addresses (arg # rest) (token0_address, token1_address) =
     (if Index arg = Some 0 then
        (case address (Value arg) of
           Some a \<Rightarrow> token_addresses rest (Some (normalize_address a), token1_address)
         | None \<Rightarrow> token_addresses rest (token0_address, token1_address))
      else if Index arg = Some 1 then
        (case address (Value arg) of
           Some a \<Rightarrow> token_addresses rest (token0_address, Some (normalize_address a))
         | None \<Rightarrow> token_addresses rest (token0_address, token1_address))
      else token_addresses rest (token0_address, token1_address))"

text \<open>The loop over all arguments for the ticks; the state is \<open>(tick_lower, tick_upper)\<close>.\<close>

fun read_ticks :: "abi_item list \<Rightarrow> int option \<times> int option \<Rightarrow> exn + (int option \<times> int option)" where
  "read_ticks [] acc = Inr acc"
| "read_ticks (arg # rest) (tick_lower, tick_upper) =
     (if Index arg = Some 3 then
        (case bigInteger (Value arg) of
           Some v \<Rightarrow> bind_exn (py_int v) (\<lambda>n. read_ticks rest (Some n, tick_upper))
         | None \<Rightarrow> read_ticks rest (tick_lower, tick_upper))
      else if Index arg = Some 4 then
        (case bigInteger (Value arg) of
           Some v \<Rightarrow> bind_exn (py_int v) (\<lambda>n. read_ticks rest (tick_lower, Some n))
         | None \<Rightarrow> read_ticks rest (tick_lower, tick_upper))
      else read_ticks rest (tick_lower, tick_upper))"

text \<open>The loop over the return values by name; the state is \<open>(nft_id, amount0, amount1)\<close>.\<close>

fun read_mint_returns ::
  "abi_item list \<Rightarrow> int option \<times> int option \<times> int option \<Rightarrow> exn + (int option \<times> int option \<times> int option)" where
  "read_mint_returns [] acc = Inr acc"
| "read_mint_returns (ret # rest) (nft_id, a0, a1) =
     (if Name ret = ''tokenId'' then
        (case bigInteger (Value ret) of
           Some v \<Rightarrow> bind_exn (py_int v) (\<lambda>n. read_mint_returns rest (Some n, a0, a1))
         | None \<Rightarrow> read_mint_returns rest (nft_id, a0, a1))
      else if Name ret = ''amount0'' then
        (case bigInteger (Value ret) of
           Some v \<Rightarrow> bind_exn (py_int v) (\<lambda>n. read_mint_returns rest (nft_id, Some n, a1))
         | None \<Rightarrow> read_mint_returns rest (nft_id, a0, a1))
      else if Name ret = ''amount1'' then
        (case bigInteger (Value ret) of
           Some v \<Rightarrow> bind_exn (py_int v) (\<lambda>n. read_mint_returns rest (nft_id, a0, Some n))
         | None \<Rightarrow> read_mint_returns rest (nft_id, a0, a1))
      else read_mint_returns rest (nft_id, a0, a1))"

text \<open>
  The fallback loop \<^verbatim>\<open>for i, ret in enumerate(returns)\<close>: the entry at place \<open>i0\<close> gives
  \<open>amount0\<close> and the entry at place \<open>i1\<close> gives \<open>amount1\<close>, when they hold a \<^verbatim>\<open>bigInteger\<close>.
  The mint parser uses the places 2 and 3, the liquidity parser the places 1 and 2.
\<close>

fun read_amounts_by_index ::
  "nat \<Rightarrow> nat \<Rightarrow> nat \<Rightarrow> abi_item list \<Rightarrow> int option \<times> int option \<Rightarrow> exn + (int option \<times> int option)" where
  "read_amounts_by_index i0 i1 i [] acc = Inr acc"
| "read_amounts_by_index i0 i1 i (ret # rest) (a0, a1) =
     (case bigInteger (Value ret) of
        Some v \<Rightarrow>
          if i = i0 then bind_exn (py_int v) (\<lambda>n. read_amounts_by_index i0 i1 (Suc i) rest (Some n, a1))
          else if i = i1 then bind_exn (py_int v) (\<lambda>n. read_amounts_by_index i0 i1 (Suc i) rest (a0, Some n))
          else read_amounts_by_index i0 i1 (Suc i) rest (a0, a1)
      | None \<Rightarrow> read_amounts_by_index i0 i1 (Suc i) rest (a0, a1))"

text \<open>
  The block ``extract NFT ID and amounts from Returns'': the loop by name, then, if an amount
  is still missing, the loop by index over the same list.
\<close>

definition read_mint_return_values :: "abi_item list \<Rightarrow> exn + (int option \<times> int option \<times> int option)" where
  "read_mint_return_values returns =
     bind_exn (read_mint_returns returns (None, None, None)) (\<lambda>(nft_id, a0, a1).
     bind_exn (if a0 = None \<or> a1 = None
               then read_amounts_by_index 2 3 0 returns (a0, a1)
               else Inr (a0, a1)) (\<lambda>(a0, a1).
     Inr (nft_id, a0, a1)))"

text \<open>The timestamp: block time first, transaction time otherwise.\<close>

definition read_timestamp :: "call_record \<Rightarrow> string option" where
  "read_timestamp c =
     (case Block_Time c of
        Some t \<Rightarrow> t
      | None \<Rightarrow> (case Transaction_Time c of Some t \<Rightarrow> t | None \<Rightarrow> None))"

text \<open>
  The last part of the \<^verbatim>\<open>try\<close> block, once the required fields are known to be present:
  decimals by token order, the two prices of each bound, the decimals-adjusted amounts and
  the returned dictionary.
\<close>

definition build_position ::
  "string option \<Rightarrow> string option \<Rightarrow> int \<Rightarrow> int \<Rightarrow> int \<Rightarrow> int option \<Rightarrow> int option \<Rightarrow> string
     \<Rightarrow> mint_position" where
  "build_position token0_address token1_address tick_lower tick_upper nft_id a0 a1 timestamp =
     (let weth_normalized = normalize_address WETH_ADDRESS;
          usdt_normalized = normalize_address USDT_ADDRESS;
          is_weth_token0 = (token0_address = Some weth_normalized);
          is_usdt_token0 = (token0_address = Some usdt_normalized);
          (decimal0, decimal1) =
             (if is_weth_token0 then (WETH_DECIMALS, USDT_DECIMALS)
              else if is_usdt_token0 then (USDT_DECIMALS, WETH_DECIMALS)
              else (18, 6));
          a0_afterdecimals = map_option (\<lambda>a. real_of_int a / (10 powi decimal0)) a0;
          a1_afterdecimals = map_option (\<lambda>a. real_of_int a / (10 powi decimal1)) a1
      in \<lparr>mint_nft_id = nft_id,
          mint_tick_lower = tick_lower,
          mint_tick_upper = tick_upper,
          mint_timestamp = timestamp,
          mint_token0 = token0_address,
          mint_token1 = token1_address,
          mint_price_lower = calculate_price_from_tick tick_lower,
          mint_price_upper = calculate_price_from_tick tick_upper,
          mint_price_lower_afterdecimals = calculate_price_with_decimals tick_lower decimal0 decimal1,
          mint_price_upper_afterdecimals = calculate_price_with_decimals tick_upper decimal0 decimal1,
          mint_amount0 = a0,
          mint_amount1 = a1,
          mint_amount0_afterdecimals = a0_afterdecimals,
          mint_amount1_afterdecimals = a1_afterdecimals,
          mint_amount_weth =
            (if is_weth_token0 then a0_afterdecimals
             else if is_usdt_token0 then a1_afterdecimals else None),
          mint_amount_usdt =
            (if is_weth_token0 then a1_afterdecimals
             else if is_usdt_token0 then a0_afterdecimals else None)\<rparr>)"

text \<open>The body of the \<^verbatim>\<open>try\<close> block.\<close>

definition extract_position_body :: "call_record \<Rightarrow> exn + mint_position option" where
  "extract_position_body position =
     (let arguments = Arguments position
      in if length arguments < 2 then Inr None
         else
           let (token0_address, token1_address) = token_addresses (take 2 arguments) (None, None);
               weth_normalized = normalize_address WETH_ADDRESS;
               usdt_normalized = normalize_address USDT_ADDRESS;
               has_weth = (token0_address = Some weth_normalized \<or> token1_address = Some weth_normalized);
               has_usdt = (token0_address = Some usdt_normalized \<or> token1_address = Some usdt_normalized)
           in if \<not> (has_weth \<and> has_usdt) then Inr None
              else
                bind_exn (read_ticks arguments (None, None)) (\<lambda>(tick_lower, tick_upper).
                let returns = Returns position
                in bind_exn (read_mint_return_values returns) (\<lambda>(nft_id, a0, a1).
                   let timestamp = read_timestamp position
                   in case (tick_lower, tick_upper, nft_id, timestamp) of
                        (Some tick_lower, Some tick_upper, Some nft_id, Some timestamp) \<Rightarrow>
                          Inr (Some (build_position token0_address token1_address
                                       tick_lower tick_upper nft_id a0 a1 timestamp))
                      | _ \<Rightarrow> Inr None)))"

text \<open>\<^verbatim>\<open>except (KeyError, ValueError, TypeError)\<close>: these give \<^verbatim>\<open>None\<close>, any other exception propagates.\<close>

fun caught_by_extract :: "exn \<Rightarrow> bool" where
  "caught_by_extract (KeyError m) = True"
| "caught_by_extract (ValueError m) = True"
| "caught_by_extract (TypeError m) = True"
| "caught_by_extract e = False"

definition extract_position_data :: "call_record \<Rightarrow> exn + mint_position option" where
  "extract_position_data position =
     (case extract_position_body position of
        Inl e \<Rightarrow> if caught_by_extract e then Inr None else Inl e
      | Inr r \<Rightarrow> Inr r)"

text \<open>
  \<^verbatim>\<open>parse_positions\<close>. A response that is not a dictionary (here: no response) has no calls.
\<close>

fun parse_calls :: "call_record list \<Rightarrow> exn + mint_position list" where
  "parse_calls [] = Inr []"
| "parse_calls (position # rest) =
     bind_exn (extract_position_data position) (\<lambda>parsed.
     bind_exn (parse_calls rest) (\<lambda>positions.
     Inr (case parsed of Some p \<Rightarrow> p # positions | None \<Rightarrow> positions)))"

definition parse_positions :: "evm_response option \<Rightarrow> exn + mint_position list" where
  "parse_positions response_data =
     (case response_data of None \<Rightarrow> Inr [] | Some r \<Rightarrow> parse_calls (Calls r))"

subsection \<open>\<^verbatim>\<open>parse_liquidity_events\<close>\<close>

text \<open>
  The per-identifier dictionary \<^verbatim>\<open>{"count", "total_amount0", "total_amount1"}\<close>; its first
  key is \<open>event_count\<close> here.
\<close>

record liquidity_delta =
  event_count :: nat
  total_amount0 :: int
  total_amount1 :: int

definition zero_delta :: liquidity_delta where
  "zero_delta = \<lparr>event_count = 0, total_amount0 = 0, total_amount1 = 0\<rparr>"

text \<open>Sequential loop over a list with a state, stopping at the first exception.\<close>

fun fold_exn :: "('a \<Rightarrow> 's \<Rightarrow> exn + 's) \<Rightarrow> 'a list \<Rightarrow> 's \<Rightarrow> exn + 's" where
  "fold_exn f [] s = Inr s"
| "fold_exn f (x # xs) s = bind_exn (f x s) (fold_exn f xs)"

text \<open>
  Events: the first argument with \<^verbatim>\<open>Index\<close> 0 ends the search, with or without a
  \<^verbatim>\<open>bigInteger\<close>.
\<close>

fun event_nft_id :: "abi_item list \<Rightarrow> exn + int option" where
  "event_nft_id [] = Inr None"
| "event_nft_id (arg # rest) =
     (if Index arg = Some 0 then
        (case bigInteger (Value arg) of
           Some v \<Rightarrow> bind_exn (py_int v) (\<lambda>n. Inr (Some n))
         | None \<Rightarrow> Inr None)
      else event_nft_id rest)"

definition process_event :: "call_record \<Rightarrow> (int \<rightharpoonup> liquidity_delta) \<Rightarrow> exn + (int \<rightharpoonup> liquidity_delta)" where
  "process_event event nft_data =
     bind_exn (event_nft_id (Arguments event)) (\<lambda>found.
       case found of
         None \<Rightarrow> Inr nft_data
       | Some nft_id \<Rightarrow>
           (let d = (case nft_data nft_id of None \<Rightarrow> zero_delta | Some d \<Rightarrow> d)
            in Inr (nft_data(nft_id \<mapsto> d\<lparr>event_count := event_count d + 1\<rparr>))))"

text \<open>Calls: the first argument with \<^verbatim>\<open>Index\<close> 0 that holds a \<^verbatim>\<open>bigInteger\<close> ends the search.\<close>

fun call_nft_id :: "abi_item list \<Rightarrow> exn + int option" where
  "call_nft_id [] = Inr None"
| "call_nft_id (arg # rest) =
     (if Index arg = Some 0 then
        (case bigInteger (Value arg) of
           Some v \<Rightarrow> bind_exn (py_int v) (\<lambda>n. Inr (Some n))
         | None \<Rightarrow> call_nft_id rest)
      else call_nft_id rest)"

fun read_liquidity_returns ::
  "abi_item list \<Rightarrow> int option \<times> int option \<Rightarrow> exn + (int option \<times> int option)" where
  "read_liquidity_returns [] acc = Inr acc"
| "read_liquidity_returns (ret # rest) (a0, a1) =
     (case bigInteger (Value ret) of
        Some v \<Rightarrow>
          if Name ret = ''amount0'' then bind_exn (py_int v) (\<lambda>n. read_liquidity_returns rest (Some n, a1))
          else if Name ret = ''amount1'' then bind_exn (py_int v) (\<lambda>n. read_liquidity_returns rest (a0, Some n))
          else read_liquidity_returns rest (a0, a1)
      | None \<Rightarrow> read_liquidity_returns rest (a0, a1))"

text \<open>\<^verbatim>\<open>x\<close> if it is not \<^verbatim>\<open>None\<close>, for an amount that is added only when present.\<close>

definition present_or_0 :: "int option \<Rightarrow> int" where
  "present_or_0 a = (case a of None \<Rightarrow> 0 | Some n \<Rightarrow> n)"

definition process_call :: "call_record \<Rightarrow> (int \<rightharpoonup> liquidity_delta) \<Rightarrow> exn + (int \<rightharpoonup> liquidity_delta)" where
  "process_call call nft_data =
     (let signature_name = Signature_Name call
      in if signature_name \<notin> set [''increaseLiquidity'', ''decreaseLiquidity''] then Inr nft_data
         else
           let is_decrease = (signature_name = ''decreaseLiquidity'');
               arguments = Arguments call;
               returns = Returns call
           in bind_exn (call_nft_id arguments) (\<lambda>found.
              case found of
                None \<Rightarrow> Inr nft_data
              | Some nft_id \<Rightarrow>
                  bind_exn (read_liquidity_returns returns (None, None)) (\<lambda>(a0, a1).
                  bind_exn (if a0 = None \<or> a1 = None
                            then read_amounts_by_index 1 2 0 returns (a0, a1)
                            else Inr (a0, a1)) (\<lambda>(a0, a1).
                  let d = (case nft_data nft_id of None \<Rightarrow> zero_delta | Some d \<Rightarrow> d)
                  in if is_decrease
                     then Inr (nft_data(nft_id \<mapsto>
                                 d\<lparr>total_amount0 := total_amount0 d - present_or_0 a0,
                                   total_amount1 := total_amount1 d - present_or_0 a1,
                                   event_count := event_count d + 1\<rparr>))
                     else Inr (nft_data(nft_id \<mapsto>
                                 d\<lparr>event_count := event_count d + 1,
                                   total_amount0 := total_amount0 d + present_or_0 a0,
                                   total_amount1 := total_amount1 d + present_or_0 a1\<rparr>))))))"

text \<open>
  \<^verbatim>\<open>parse_liquidity_events\<close>: the events first, then the calls. A response that is not a
  dictionary (here: no response) has neither.
\<close>

definition parse_liquidity_events :: "evm_response option \<Rightarrow> exn + (int \<rightharpoonup> liquidity_delta)" where
  "parse_liquidity_events response_data =
     (case response_data of
        None \<Rightarrow> Inr Map.empty
      | Some r \<Rightarrow>
          bind_exn (fold_exn process_event (Events r) Map.empty) (\<lambda>nft_data.
          fold_exn process_call (Calls r) nft_data))"

subsection \<open>\<^verbatim>\<open>create_final_summary\<close>\<close>

text \<open>\<^verbatim>\<open>x or 0\<close> on an optional integer.\<close>

definition or_0 :: "int option \<Rightarrow> int" where
  "or_0 a = (case a of None \<Rightarrow> 0 | Some n \<Rightarrow> n)"

text \<open>One pass of the loop body: the summary item, or nothing when a validation fails.\<close>

definition summary_item :: "mint_position \<Rightarrow> (int \<rightharpoonup> liquidity_delta) \<Rightarrow> position option" where
  "summary_item position liquidity_data =
     (let nft_id = mint_nft_id position;
          liquidity_info = (case liquidity_data nft_id of None \<Rightarrow> zero_delta | Some d \<Rightarrow> d);
          increase_count = event_count liquidity_info;
          total_positions = 1 + int increase_count;
          token0_address = (case mint_token0 position of None \<Rightarrow> [] | Some a \<Rightarrow> a);
          is_weth_token0 = (normalize_address token0_address = normalize_address WETH_ADDRESS);
          (decimal0, decimal1) =
             (if is_weth_token0 then (WETH_DECIMALS, USDT_DECIMALS) else (USDT_DECIMALS, WETH_DECIMALS));
          mint_amount0 = or_0 (mint_amount0 position);
          mint_amount1 = or_0 (mint_amount1 position);
          net_liquidity_amount0 = total_amount0 liquidity_info;
          net_liquidity_amount1 = total_amount1 liquidity_info;
          total0 = mint_amount0 + net_liquidity_amount0;
          total1 = mint_amount1 + net_liquidity_amount1;
          total0_afterdecimals = real_of_int total0 / (10 powi decimal0);
          total1_afterdecimals = real_of_int total1 / (10 powi decimal1);
          (total_amount_weth, total_amount_usdt) =
             (if is_weth_token0 then (total0_afterdecimals, total1_afterdecimals)
              else (total1_afterdecimals, total0_afterdecimals))
      in if \<not> validate_amounts (Some total_amount_weth) (Some total_amount_usdt) then None
         else
           let item = \<lparr>pos_nft_id = nft_id,
                       create_time = mint_timestamp position,
                       number_of_positions = total_positions,
                       price_lower_afterdecimals = Some (mint_price_lower_afterdecimals position),
                       price_upper_afterdecimals = Some (mint_price_upper_afterdecimals position),
                       pos_amount_weth = Some total_amount_weth,
                       pos_amount_usdt = Some total_amount_usdt\<rparr>
           in if \<not> validate_position_prices item MIN_REASONABLE_PRICE MAX_REASONABLE_PRICE then None
              else Some item)"

definition create_final_summary :: "mint_position list \<Rightarrow> (int \<rightharpoonup> liquidity_delta) \<Rightarrow> position list" where
  "create_final_summary mint_positions liquidity_data =
     List.map_filter (\<lambda>position. summary_item position liquidity_data) mint_positions"


section \<open>Upstream service (\<^verbatim>\<open>bitquery_service.py\<close>)\<close>

text \<open>
  The three fetch functions post a query and look at the status code of the answer. The
  answers are a parameter of the model: the environment of one request holds the answer to
  the mint query, the answer to the liquidity query for each identifier list, and the answer
  to the volume query for each price interval. Every query is answered (a transport failure
  inside the HTTP library is not modelled). The environment also holds the wall clock of
  the request, in seconds; all readings of the clock during one request are one instant.
\<close>

record 'a http_response =
  status_code :: int
  json :: 'a

text \<open>
  The body of a volume answer: the \<^verbatim>\<open>volume\<close> of each entry of \<^verbatim>\<open>DEXTradeByTokens\<close>, \<open>None\<close>
  when it is null or does not convert to a float.
\<close>

type_synonym volume_json = "real option list"

record env =
  now :: real
  utcnow :: real
  mint_http :: "evm_response http_response"
  liquidity_http :: "int list \<Rightarrow> evm_response http_response"
  volume_http :: "real \<Rightarrow> real \<Rightarrow> volume_json http_response"

text \<open>The log of the queries sent upstream during a request, in order.\<close>

datatype upstream_call =
    FetchMintPositions
  | FetchLiquidityEvents "int list"
  | FetchTradingVolume real real

definition fetch_mint_positions :: "env \<Rightarrow> evm_response option \<times> int" where
  "fetch_mint_positions e =
     (let response = mint_http e
      in if status_code response = 200 then (Some (json response), status_code response)
         else (None, status_code response))"

definition fetch_liquidity_events :: "env \<Rightarrow> int list \<Rightarrow> evm_response option \<times> int" where
  "fetch_liquidity_events e nft_ids =
     (let liquidity_response = liquidity_http e nft_ids
      in if status_code liquidity_response = 200
         then (Some (json liquidity_response), status_code liquidity_response)
         else (None, status_code liquidity_response))"

definition fetch_trading_volume :: "env \<Rightarrow> real \<Rightarrow> real \<Rightarrow> volume_json option" where
  "fetch_trading_volume e price_low price_high =
     (let response = volume_http e price_low price_high
      in if status_code response = 200 then Some (json response) else None)"

text \<open>\<^verbatim>\<open>parse_trading_volume\<close> (\<^verbatim>\<open>parser.py\<close>): the first entry's volume, 0 when there is none.\<close>

definition parse_trading_volume :: "volume_json \<Rightarrow> real" where
  "parse_trading_volume response_data =
     (case response_data of
        [] \<Rightarrow> 0
      | volume # _ \<Rightarrow> (case volume of None \<Rightarrow> 0 | Some v \<Rightarrow> v))"

section \<open>Recommendations (\<^verbatim>\<open>recommender_service.py\<close>, continued)\<close>

record metadata =
  total_positions :: nat
  total_bins :: nat
  bins_with_positions :: nat
  analysis_date :: real
  time_range_hours :: nat
  cache_timestamp :: real
  price_filter_lower :: "real option"
  price_filter_upper :: "real option"

text \<open>
  The dictionary returned by \<^verbatim>\<open>recommend_top_bands\<close>; the caller adds the key \<^verbatim>\<open>metadata\<close>.
\<close>

record recommendations =
  top_liquidity_bands :: "band list"
  metadata :: "metadata option"

text \<open>
  The loop over the selected bands: each band gets its \<^verbatim>\<open>trading_volume_24h\<close>; a query is
  sent only for a band with two positive bounds. An answer that is \<^verbatim>\<open>None\<close> or empty counts
  as volume 0.
\<close>

fun attach_volumes ::
  "(real \<Rightarrow> real \<Rightarrow> volume_json option) \<Rightarrow> band list \<Rightarrow> band list \<times> upstream_call list" where
  "attach_volumes fetch_volume_func [] = ([], [])"
| "attach_volumes fetch_volume_func (band # rest) =
     (let price_low = priceLower band;
          price_high = priceUpper band;
          (band', calls) =
             (if price_low > 0 \<and> price_high > 0
              then (case fetch_volume_func price_low price_high of
                      Some volume_response \<Rightarrow>
                        if volume_response \<noteq> []
                        then band\<lparr>trading_volume_24h := Some (parse_trading_volume volume_response)\<rparr>
                        else band\<lparr>trading_volume_24h := Some 0\<rparr>
                    | None \<Rightarrow> band\<lparr>trading_volume_24h := Some 0\<rparr>,
                    [FetchTradingVolume price_low price_high])
              else (band\<lparr>trading_volume_24h := Some 0\<rparr>, []));
          (rest', calls') = attach_volumes fetch_volume_func rest
      in (band' # rest', calls @ calls'))"

definition recommend_top_bands ::
  "bin list \<Rightarrow> nat \<Rightarrow> (real \<Rightarrow> real \<Rightarrow> volume_json option) option
     \<Rightarrow> recommendations \<times> upstream_call list" where
  "recommend_top_bands bins top_n fetch_volume_func =
     (let top_liquidity = get_top_liquidity_bands bins top_n;
          (top_liquidity, calls) =
             (case fetch_volume_func of
                Some f \<Rightarrow> attach_volumes f top_liquidity
              | None \<Rightarrow> (top_liquidity, []))
      in (\<lparr>top_liquidity_bands = top_liquidity, metadata = None\<rparr>, calls))"

section \<open>Cache and query layer (\<^verbatim>\<open>app.py\<close>)\<close>

definition CACHE_EXPIRATION_MINUTES :: real where "CACHE_EXPIRATION_MINUTES = 10"

text \<open>
  The global \<^verbatim>\<open>cache\<close> dictionary. The key \<^verbatim>\<open>total_positions\<close> is absent until the first
  refresh.
\<close>

record cache =
  c_bins :: "bin list option"
  c_data :: "recommendations option"
  c_timestamp :: "real option"
  c_total_positions :: "nat option"

definition empty_cache :: cache where
  "empty_cache = \<lparr>c_bins = None, c_data = None, c_timestamp = None, c_total_positions = None\<rparr>"

text \<open>What \<^verbatim>\<open>get_recommendations_data\<close> returns: \<^verbatim>\<open>{'error': msg}\<close> or the recommendations.\<close>

datatype result = Error string | Data recommendations

definition bin_overlaps_range :: "real option \<Rightarrow> real option \<Rightarrow> bin \<Rightarrow> bool" where
  "bin_overlaps_range price_lower price_upper b =
     (let bin_lower = priceLower b;
          bin_upper = priceUpper b
      in case (price_lower, price_upper) of
           (Some lo, Some up) \<Rightarrow> bin_lower \<le> up \<and> bin_upper \<ge> lo
         | (Some lo, None) \<Rightarrow> bin_upper \<ge> lo
         | (None, Some up) \<Rightarrow> bin_lower \<le> up
         | (None, None) \<Rightarrow> False)"

definition filter_bins_by_price_range :: "bin list \<Rightarrow> real option \<Rightarrow> real option \<Rightarrow> bin list" where
  "filter_bins_by_price_range bins price_lower price_upper =
     (if price_lower = None \<and> price_upper = None then bins
      else filter (bin_overlaps_range price_lower price_upper) bins)"

text \<open>\<^verbatim>\<open>len([b for b in bins if b['count_nfts'] > 0])\<close>.\<close>

definition count_bins_with_positions :: "bin list \<Rightarrow> nat" where
  "count_bins_with_positions bins = length (filter (\<lambda>b. count_nfts b > 0) bins)"

text \<open>
  The branch that serves a filtered request from the cached bins (the inner block of the
  first \<^verbatim>\<open>if\<close>), given the cached bins and the cached timestamp.
\<close>

definition serve_from_cached_bins ::
  "env \<Rightarrow> cache \<Rightarrow> bin list \<Rightarrow> real \<Rightarrow> real option \<Rightarrow> real option
     \<Rightarrow> recommendations \<times> upstream_call list" where
  "serve_from_cached_bins e c cached_bins cached_timestamp price_lower price_upper =
     (let bins = cached_bins;
          bins = filter_bins_by_price_range bins price_lower price_upper;
          top_n = 3;
          (recommendations, calls) = recommend_top_bands bins top_n (Some (fetch_trading_volume e))
      in (recommendations\<lparr>metadata := Some
            \<lparr>total_positions = (case c_total_positions c of None \<Rightarrow> 0 | Some n \<Rightarrow> n),
             total_bins = length bins,
             bins_with_positions = count_bins_with_positions bins,
             analysis_date = utcnow e,
             time_range_hours = 240,
             cache_timestamp = cached_timestamp,
             price_filter_lower = price_lower,
             price_filter_upper = price_upper\<rparr>\<rparr>,
          calls))"

text \<open>\<^verbatim>\<open>str\<close> of an integer, for the status code in an error message.\<close>

fun str_nat :: "nat \<Rightarrow> string" where
  "str_nat n =
     (if n < 10 then [char_of (48 + int n)]
      else str_nat (n div 10) @ [char_of (48 + int (n mod 10))])"

definition str_int :: "int \<Rightarrow> string" where
  "str_int i = (if i < 0 then CHR ''-'' # str_nat (nat (- i)) else str_nat (nat i))"

text \<open>
  The first part of the \<^verbatim>\<open>try\<close> block of the refresh: fetch the mint positions, parse them,
  fetch and parse the liquidity events, build the summary and the bins. The result is the
  error message of an early return or of a caught exception, or the parsed mint positions
  with the bins.
\<close>

definition fetch_and_bin :: "env \<Rightarrow> (string + mint_position list \<times> bin list) \<times> upstream_call list" where
  "fetch_and_bin e =
     (let (response_data, status_code) = fetch_mint_positions e
      in if status_code \<noteq> 200
         then (Inl (if response_data = None then ''Failed to fetch mint positions''
                    else ''Error fetching mint positions: '' @ str_int status_code),
               [FetchMintPositions])
         else
           (case parse_positions response_data of
              Inl ex \<Rightarrow> (Inl (str_exn ex), [FetchMintPositions])
            | Inr mint_positions \<Rightarrow>
                if mint_positions = [] then (Inl ''No mint positions found'', [FetchMintPositions])
                else
                  (let nft_ids = map mint_nft_id mint_positions;
                       (liquidity_data, liquidity_status_code) = fetch_liquidity_events e nft_ids;
                       calls = [FetchMintPositions, FetchLiquidityEvents nft_ids]
                   in (case (if liquidity_status_code = 200 then parse_liquidity_events liquidity_data
                             else Inr Map.empty) of
                         Inl ex \<Rightarrow> (Inl (str_exn ex), calls)
                       | Inr liquidity_event_counts \<Rightarrow>
                           (let final_summary = create_final_summary mint_positions liquidity_event_counts
                            in (case create_bins_from_data final_summary NUM_BINS None None of
                                  Inl ex \<Rightarrow> (Inl (str_exn ex), calls)
                                | Inr bins \<Rightarrow> (Inr (mint_positions, bins), calls)))))))"

text \<open>
  The second part of the \<^verbatim>\<open>try\<close> block: filter the fresh bins when a filter is given, choose
  \<open>top_n\<close>, recommend, attach the metadata.
\<close>

definition build_recommendations ::
  "env \<Rightarrow> nat \<Rightarrow> bin list \<Rightarrow> real option \<Rightarrow> real option \<Rightarrow> recommendations \<times> upstream_call list" where
  "build_recommendations e n_mint_positions bins price_lower price_upper =
     (let filtered_bins =
            (if price_lower \<noteq> None \<or> price_upper \<noteq> None
             then filter_bins_by_price_range bins price_lower price_upper else bins);
          top_n = (if price_lower \<noteq> None \<or> price_upper \<noteq> None then 3 else 5);
          (recommendations, calls) =
             recommend_top_bands filtered_bins top_n (Some (fetch_trading_volume e))
      in (recommendations\<lparr>metadata := Some
            \<lparr>total_positions = n_mint_positions,
             total_bins = length filtered_bins,
             bins_with_positions = count_bins_with_positions filtered_bins,
             analysis_date = utcnow e,
             time_range_hours = 240,
             cache_timestamp = now e,
             price_filter_lower = price_lower,
             price_filter_upper = price_upper\<rparr>\<rparr>,
          calls))"

text \<open>
  The refresh (``cache miss or expired''): the whole \<^verbatim>\<open>try\<close> block with its cache writes. No
  step after the first cache write can raise in the model, so an error leaves the cache as
  it was.
\<close>

definition refresh :: "env \<Rightarrow> cache \<Rightarrow> real option \<Rightarrow> real option \<Rightarrow> result \<times> cache \<times> upstream_call list" where
  "refresh e c price_lower price_upper =
     (let has_price_filters = (price_lower \<noteq> None \<or> price_upper \<noteq> None)
      in (case fetch_and_bin e of
            (Inl error_msg, calls) \<Rightarrow> (Error error_msg, c, calls)
          | (Inr (mint_positions, bins), calls) \<Rightarrow>
              (let c = c\<lparr>c_bins := Some bins, c_total_positions := Some (length mint_positions)\<rparr>;
                   (recommendations, volume_calls) =
                      build_recommendations e (length mint_positions) bins price_lower price_upper;
                   c = c\<lparr>c_timestamp := Some (now e)\<rparr>;
                   c = (if \<not> has_price_filters then c\<lparr>c_data := Some recommendations\<rparr> else c)
               in (Data recommendations, c, calls @ volume_calls))))"

definition cache_age :: "env \<Rightarrow> real \<Rightarrow> real" where
  "cache_age e cached_timestamp = (now e - cached_timestamp) / 60"

text \<open>\<^verbatim>\<open>get_recommendations_data\<close>: the result, the cache afterwards and the upstream log.\<close>

definition get_recommendations_data ::
  "env \<Rightarrow> cache \<Rightarrow> bool \<Rightarrow> real option \<Rightarrow> real option \<Rightarrow> result \<times> cache \<times> upstream_call list" where
  "get_recommendations_data e c use_cache price_lower price_upper =
     (let has_price_filters = (price_lower \<noteq> None \<or> price_upper \<noteq> None)
      in if has_price_filters \<and>
            (case (c_bins c, c_timestamp c) of
               (Some bins, Some ts) \<Rightarrow> cache_age e ts < CACHE_EXPIRATION_MINUTES
             | _ \<Rightarrow> False)
         then (case (c_bins c, c_timestamp c) of
                 (Some bins, Some ts) \<Rightarrow>
                   (let (recommendations, calls) =
                          serve_from_cached_bins e c bins ts price_lower price_upper
                    in (Data recommendations, c, calls))
               | _ \<Rightarrow> refresh e c price_lower price_upper)
         else if \<not> has_price_filters \<and> use_cache \<and>
                 (case (c_data c, c_timestamp c) of
                    (Some d, Some ts) \<Rightarrow> cache_age e ts < CACHE_EXPIRATION_MINUTES
                  | _ \<Rightarrow> False)
         then (case c_data c of
                 Some d \<Rightarrow> (Data d, c, [])
               | None \<Rightarrow> refresh e c price_lower price_upper)
         else refresh e c price_lower price_upper)"

text \<open>\<^verbatim>\<open>sub in s\<close> on strings.\<close>

fun py_in :: "string \<Rightarrow> string \<Rightarrow> bool" where
  "py_in sub [] = (sub = [])"
| "py_in sub (ch # s) = (prefix sub (ch # s) \<or> py_in sub s)"

text \<open>
  \<^verbatim>\<open>api_recommendations\<close>, from the parsed query parameters: the two optional price bounds
  (absent, empty or unparsable is \<open>None\<close>) and whether \<^verbatim>\<open>refresh=true\<close> was given. The result is
  the body with the HTTP status, the cache afterwards and the upstream log.
\<close>

definition api_recommendations ::
  "env \<Rightarrow> cache \<Rightarrow> real option \<Rightarrow> real option \<Rightarrow> bool \<Rightarrow> (result \<times> int) \<times> cache \<times> upstream_call list" where
  "api_recommendations e c price_lower price_upper refresh_requested =
     (if (case (price_lower, price_upper) of (Some lo, Some up) \<Rightarrow> lo > up | _ \<Rightarrow> False)
      then ((Error ''Invalid price range: lower price must be less than or equal to upper price'', 400),
            c, [])
      else
        let use_cache = \<not> refresh_requested;
            (result, c', calls) = get_recommendations_data e c use_cache price_lower price_upper
        in (case result of
              Error msg \<Rightarrow>
                (let error_code = (if py_in ''fetching'' (lower msg) then 500 else 404)
                 in ((Error msg, error_code), c', calls))
            | Data d \<Rightarrow> ((Data d, 200), c', calls)))"

text \<open>
  The caches a server can be in: it starts with the empty cache, and every call of
  \<^verbatim>\<open>get_recommendations_data\<close>, in any environment and with any parameters, leaves the next one.
\<close>

inductive reachable :: "cache \<Rightarrow> bool" where
  start: "reachable empty_cache"
| step: "reachable c \<Longrightarrow>
         get_recommendations_data e c use_cache price_lower price_upper = (r, c', calls) \<Longrightarrow>
         reachable c'"


section \<open>The recommender on shared dictionaries\<close>

text \<open>
  The bins in the cache are dictionary objects, and the recommender writes into
  dictionaries. To say which objects it writes into, this second model of
  \<^verbatim>\<open>recommender_service.py\<close> and of the cached branch of \<^verbatim>\<open>get_recommendations_data\<close> keeps
  the objects in a store: an object is a dictionary from keys to numbers (every value of a
  bin dictionary is a number), a reference is a place in the store, and \<^verbatim>\<open>dict.copy()\<close> puts
  a new object at the end of the store. A list of bins is a list of references.
\<close>

type_synonym pydict = "string \<rightharpoonup> real"
type_synonym store = "pydict list"

text \<open>\<^verbatim>\<open>d.get(key, default)\<close>.\<close>

definition dict_get :: "pydict \<Rightarrow> string \<Rightarrow> real \<Rightarrow> real" where
  "dict_get d key default_value = (case d key of Some v \<Rightarrow> v | None \<Rightarrow> default_value)"

text \<open>\<^verbatim>\<open>d[key]\<close>, which raises when the key is missing.\<close>

definition dict_item :: "pydict \<Rightarrow> string \<Rightarrow> exn + real" where
  "dict_item d key = (case d key of Some v \<Rightarrow> Inr v | None \<Rightarrow> Inl (KeyError key))"

text \<open>\<^verbatim>\<open>d.copy()\<close>: the reference of the new object and the store with it.\<close>

definition dict_copy :: "store \<Rightarrow> nat \<Rightarrow> nat \<times> store" where
  "dict_copy s a = (length s, s @ [s ! a])"

text \<open>\<^verbatim>\<open>d[key] = v\<close> on the object at a reference.\<close>

definition dict_set :: "store \<Rightarrow> nat \<Rightarrow> string \<Rightarrow> real \<Rightarrow> store" where
  "dict_set s a key v = s[a := (s ! a)(key \<mapsto> v)]"

definition calculate_total_liquidity_dict :: "pydict \<Rightarrow> real" where
  "calculate_total_liquidity_dict d =
     (let a_weth = dict_get d ''amount_weth'' 0;
          a_usdt = dict_get d ''amount_usdt'' 0;
          price_lower = dict_get d ''priceLower'' 0;
          price_upper = dict_get d ''priceUpper'' 0;
          mid_price = (if price_lower > 0 \<and> price_upper > 0 then (price_lower + price_upper) / 2 else 0)
      in a_usdt + a_weth * mid_price)"

text \<open>The first loop of \<^verbatim>\<open>get_top_liquidity_bands\<close>: copy each bin, write the liquidity into the copy.\<close>

fun copy_bins_with_liquidity :: "nat list \<Rightarrow> store \<Rightarrow> nat list \<times> store" where
  "copy_bins_with_liquidity [] s = ([], s)"
| "copy_bins_with_liquidity (b # rest) s =
     (let total = calculate_total_liquidity_dict (s ! b);
          (bin_copy, s) = dict_copy s b;
          s = dict_set s bin_copy ''total_liquidity'' total;
          (copies, s) = copy_bins_with_liquidity rest s
      in (bin_copy # copies, s))"

text \<open>The sort key \<^verbatim>\<open>x["total_liquidity"]\<close> of every element, in order.\<close>

fun sort_keys :: "store \<Rightarrow> nat list \<Rightarrow> exn + (nat \<times> real) list" where
  "sort_keys s [] = Inr []"
| "sort_keys s (x # xs) =
     bind_exn (dict_item (s ! x) ''total_liquidity'') (\<lambda>k.
     bind_exn (sort_keys s xs) (\<lambda>rest. Inr ((x, k) # rest)))"

definition get_top_liquidity_bands_refs :: "store \<Rightarrow> nat list \<Rightarrow> nat \<Rightarrow> exn + (nat list \<times> store)" where
  "get_top_liquidity_bands_refs s bins top_n =
     (let (bins_with_liquidity, s) = copy_bins_with_liquidity bins s
      in bind_exn (sort_keys s bins_with_liquidity) (\<lambda>keyed.
         let sorted_bins = map fst (sorted_reverse snd keyed)
         in Inr (take top_n sorted_bins, s)))"

text \<open>The volume loop of \<^verbatim>\<open>recommend_top_bands\<close>: it writes into each selected band.\<close>

fun attach_volumes_refs ::
  "(real \<Rightarrow> real \<Rightarrow> volume_json option) \<Rightarrow> nat list \<Rightarrow> store \<Rightarrow> store \<times> upstream_call list" where
  "attach_volumes_refs fetch_volume_func [] s = (s, [])"
| "attach_volumes_refs fetch_volume_func (band # rest) s =
     (let price_low = dict_get (s ! band) ''priceLower'' 0;
          price_high = dict_get (s ! band) ''priceUpper'' 0;
          (s, calls) =
             (if price_low > 0 \<and> price_high > 0
              then (case fetch_volume_func price_low price_high of
                      Some volume_response \<Rightarrow>
                        if volume_response \<noteq> []
                        then dict_set s band ''trading_volume_24h'' (parse_trading_volume volume_response)
                        else dict_set s band ''trading_volume_24h'' 0
                    | None \<Rightarrow> dict_set s band ''trading_volume_24h'' 0,
                    [FetchTradingVolume price_low price_high])
              else (dict_set s band ''trading_volume_24h'' 0, []));
          (s, calls') = attach_volumes_refs fetch_volume_func rest s
      in (s, calls @ calls'))"

definition recommend_top_bands_refs ::
  "store \<Rightarrow> nat list \<Rightarrow> nat \<Rightarrow> (real \<Rightarrow> real \<Rightarrow> volume_json option) option
     \<Rightarrow> exn + (nat list \<times> store \<times> upstream_call list)" where
  "recommend_top_bands_refs s bins top_n fetch_volume_func =
     bind_exn (get_top_liquidity_bands_refs s bins top_n) (\<lambda>(top_liquidity, s).
       case fetch_volume_func of
         Some f \<Rightarrow> (let (s, calls) = attach_volumes_refs f top_liquidity s
                    in Inr (top_liquidity, s, calls))
       | None \<Rightarrow> Inr (top_liquidity, s, []))"

text \<open>\<^verbatim>\<open>filter_bins_by_price_range\<close> on references: it reads the bounds and builds a new list.\<close>

definition filter_bins_by_price_range_refs ::
  "store \<Rightarrow> nat list \<Rightarrow> real option \<Rightarrow> real option \<Rightarrow> nat list" where
  "filter_bins_by_price_range_refs s bins price_lower price_upper =
     (if price_lower = None \<and> price_upper = None then bins
      else filter (\<lambda>b. let bin_lower = dict_get (s ! b) ''priceLower'' 0;
                           bin_upper = dict_get (s ! b) ''priceUpper'' 0
                       in case (price_lower, price_upper) of
                            (Some lo, Some up) \<Rightarrow> bin_lower \<le> up \<and> bin_upper \<ge> lo
                          | (Some lo, None) \<Rightarrow> bin_upper \<ge> lo
                          | (None, Some up) \<Rightarrow> bin_lower \<le> up
                          | (None, None) \<Rightarrow> False) bins)"

text \<open>
  The cached branch of \<^verbatim>\<open>get_recommendations_data\<close> up to the recommendation: copy the cached
  list, filter it, recommend the top 3 with the volume function.
\<close>

definition serve_from_cached_bins_refs ::
  "env \<Rightarrow> store \<Rightarrow> nat list \<Rightarrow> real option \<Rightarrow> real option
     \<Rightarrow> exn + (nat list \<times> store \<times> upstream_call list)" where
  "serve_from_cached_bins_refs e s cached_bins price_lower price_upper =
     (let bins = cached_bins;
          bins = filter_bins_by_price_range_refs s bins price_lower price_upper
      in recommend_top_bands_refs s bins 3 (Some (fetch_trading_volume e)))"


section \<open>Auxiliary notions used in the proofs\<close>

text \<open>
  Pointwise sum of two delta records, and the merge of a map of deltas into the accumulated
  map: the way one call's contribution enters the state of \<^verbatim>\<open>parse_liquidity_events\<close>.
\<close>

definition plus_delta :: "liquidity_delta \<Rightarrow> liquidity_delta \<Rightarrow> liquidity_delta" where
  "plus_delta a b =
     \<lparr>event_count = event_count a + event_count b,
      total_amount0 = total_amount0 a + total_amount0 b,
      total_amount1 = total_amount1 a + total_amount1 b\<rparr>"

definition merge_deltas ::
  "(int \<rightharpoonup> liquidity_delta) \<Rightarrow> (int \<rightharpoonup> liquidity_delta) \<Rightarrow> (int \<rightharpoonup> liquidity_delta)" where
  "merge_deltas contribution nft_data =
     (\<lambda>k. case contribution k of
             None \<Rightarrow> nft_data k
           | Some d \<Rightarrow> Some (plus_delta d (case nft_data k of None \<Rightarrow> zero_delta | Some d' \<Rightarrow> d')))"

text \<open>
  What it means that a return value is recoverable: some entry with the given name holds the
  integer \<open>v\<close> (\<open>named\<close>), some entry with the given name holds a \<^verbatim>\<open>bigInteger\<close> at all
  (\<open>has_named\<close>), the entry at place \<open>i\<close> holds the integer \<open>v\<close> (\<open>at_index\<close>), the entry at place
  \<open>i\<close> holds a \<^verbatim>\<open>bigInteger\<close> at all (\<open>has_at_index\<close>).
\<close>

definition named :: "string \<Rightarrow> abi_item list \<Rightarrow> int \<Rightarrow> bool" where
  "named n rets v \<longleftrightarrow> list_ex (\<lambda>ret. Name ret = n \<and> bigInteger (Value ret) = Some (Parsed v)) rets"

definition has_named :: "string \<Rightarrow> abi_item list \<Rightarrow> bool" where
  "has_named n rets \<longleftrightarrow> list_ex (\<lambda>ret. Name ret = n \<and> bigInteger (Value ret) \<noteq> None) rets"

definition at_index :: "nat \<Rightarrow> abi_item list \<Rightarrow> int \<Rightarrow> bool" where
  "at_index i rets v \<longleftrightarrow> i < length rets \<and> bigInteger (Value (rets ! i)) = Some (Parsed v)"

definition has_at_index :: "nat \<Rightarrow> abi_item list \<Rightarrow> bool" where
  "has_at_index i rets \<longleftrightarrow> i < length rets \<and> bigInteger (Value (rets ! i)) \<noteq> None"

text \<open>
  What a lookup loop leaves in one of its variables: the value of a matching entry when there
  is one, the previous content of the variable otherwise.
\<close>

definition by_name_result :: "string \<Rightarrow> abi_item list \<Rightarrow> int option \<Rightarrow> int option \<Rightarrow> bool" where
  "by_name_result n rets before after \<longleftrightarrow>
     (if has_named n rets then \<exists>v. after = Some v \<and> named n rets v else after = before)"

definition by_index_result :: "nat \<Rightarrow> abi_item list \<Rightarrow> int option \<Rightarrow> int option \<Rightarrow> bool" where
  "by_index_result j rets before after \<longleftrightarrow>
     (if has_at_index j rets then \<exists>v. after = Some v \<and> at_index j rets v else after = before)"

text \<open>
  The same lookups as functions of the list of return values: the integer of the last entry
  of a name that holds one (a later entry overwrites an earlier one), and the integer held
  at a place.
\<close>

fun last_named :: "string \<Rightarrow> abi_item list \<Rightarrow> int option" where
  "last_named n [] = None"
| "last_named n (ret # rets) =
     (case last_named n rets of
        Some v \<Rightarrow> Some v
      | None \<Rightarrow>
          (if Name ret = n
           then (case bigInteger (Value ret) of Some (Parsed v) \<Rightarrow> Some v | _ \<Rightarrow> None)
           else None))"

definition at_place :: "nat \<Rightarrow> abi_item list \<Rightarrow> int option" where
  "at_place i rets =
     (if i < length rets
      then (case bigInteger (Value (rets ! i)) of Some (Parsed v) \<Rightarrow> Some v | _ \<Rightarrow> None)
      else None)"

text \<open>
  The amount that a mint record yields, in the words of the amended claim: when both
  amounts are found by name, the one found by name; when at least one is not, the integer
  at the fixed place if there is one (also over a value found by name), and the value found
  by name otherwise.
\<close>

definition recovered_amount :: "string \<Rightarrow> nat \<Rightarrow> abi_item list \<Rightarrow> int option" where
  "recovered_amount n i rets =
     (if last_named ''amount0'' rets \<noteq> None \<and> last_named ''amount1'' rets \<noteq> None
      then last_named n rets
      else (case at_place i rets of Some v \<Rightarrow> Some v | None \<Rightarrow> last_named n rets))"

text \<open>
  Every integer of the list converts: no \<^verbatim>\<open>int(...)\<close> on one of its entries raises.
\<close>

definition convertible :: "abi_item list \<Rightarrow> bool" where
  "convertible items \<longleftrightarrow>
     list_all (\<lambda>item. case bigInteger (Value item) of Some (Unparsable e) \<Rightarrow> False | _ \<Rightarrow> True) items"

text \<open>
  The two token addresses read from the first two arguments are the tracked pair, in one
  order or the other.
\<close>

definition tracked_pair :: "call_record \<Rightarrow> bool" where
  "tracked_pair c \<longleftrightarrow>
     (let (token0_address, token1_address) = token_addresses (take 2 (Arguments c)) (None, None)
      in (token0_address = Some WETH_ADDRESS \<or> token1_address = Some WETH_ADDRESS) \<and>
         (token0_address = Some USDT_ADDRESS \<or> token1_address = Some USDT_ADDRESS))"

text \<open>
  How the two models of the recommender are compared. A bin of the first model is held by
  the object at a reference when that object is the dictionary with the bin's six keys; a
  band is held when the object has in addition \<^verbatim>\<open>total_liquidity\<close> and, once it was set,
  \<^verbatim>\<open>trading_volume_24h\<close>.
\<close>

definition dict_of_bin :: "'a bin_scheme \<Rightarrow> pydict" where
  "dict_of_bin b =
     [''bin_index'' \<mapsto> real (bin_index b), ''priceLower'' \<mapsto> priceLower b,
      ''priceUpper'' \<mapsto> priceUpper b, ''amount_weth'' \<mapsto> amount_weth b,
      ''amount_usdt'' \<mapsto> amount_usdt b, ''count_nfts'' \<mapsto> real (count_nfts b)]"

definition dict_of_band :: "band \<Rightarrow> pydict" where
  "dict_of_band b =
     (let d = (dict_of_bin b)(''total_liquidity'' \<mapsto> total_liquidity b)
      in case trading_volume_24h b of None \<Rightarrow> d | Some v \<Rightarrow> d(''trading_volume_24h'' \<mapsto> v))"

definition holds_bin :: "store \<Rightarrow> nat \<Rightarrow> bin \<Rightarrow> bool" where
  "holds_bin s a b \<longleftrightarrow> a < length s \<and> s ! a = dict_of_bin b"

definition holds_band :: "store \<Rightarrow> nat \<Rightarrow> band \<Rightarrow> bool" where
  "holds_band s a b \<longleftrightarrow> a < length s \<and> s ! a = dict_of_band b"

text \<open>
  What one pass of the volume loop writes into a band with the given bounds, and the query
  it sends.
\<close>

definition band_volume :: "(real \<Rightarrow> real \<Rightarrow> volume_json option) \<Rightarrow> real \<Rightarrow> real \<Rightarrow> real" where
  "band_volume f price_low price_high =
     (if price_low > 0 \<and> price_high > 0
      then (case f price_low price_high of
              Some volume_response \<Rightarrow>
                if volume_response \<noteq> [] then parse_trading_volume volume_response else 0
            | None \<Rightarrow> 0)
      else 0)"

definition band_volume_calls :: "real \<Rightarrow> real \<Rightarrow> upstream_call list" where
  "band_volume_calls price_low price_high =
     (if price_low > 0 \<and> price_high > 0 then [FetchTradingVolume price_low price_high] else [])"


section \<open>Example inputs\<close>

text \<open>Concrete inputs at which the theorems below are instantiated.\<close>

definition ex_position :: position where
  "ex_position = \<lparr>pos_nft_id = 7, create_time = ''2025-01-01T00:00:00Z'', number_of_positions = 1,
     price_lower_afterdecimals = Some 1000, price_upper_afterdecimals = Some 3000,
     pos_amount_weth = Some 4, pos_amount_usdt = Some 8\<rparr>"

definition ex_point_position :: position where
  "ex_point_position = ex_position\<lparr>price_upper_afterdecimals := Some 1000\<rparr>"

definition ex_far_position :: position where
  "ex_far_position = ex_position\<lparr>price_lower_afterdecimals := Some (2 * 10 ^ 10),
                                  price_upper_afterdecimals := Some (3 * 10 ^ 10)\<rparr>"

definition ex_bins :: "bin list" where
  "ex_bins =
     [\<lparr>bin_index = 0, priceLower = 0, priceUpper = 2000, amount_weth = 0, amount_usdt = 0, count_nfts = 0\<rparr>,
      \<lparr>bin_index = 1, priceLower = 2000, priceUpper = 4000, amount_weth = 0, amount_usdt = 0, count_nfts = 0\<rparr>,
      \<lparr>bin_index = 2, priceLower = 4000, priceUpper = 6000, amount_weth = 0, amount_usdt = 0, count_nfts = 0\<rparr>]"

definition ex_inverted_position :: position where
  "ex_inverted_position = ex_position\<lparr>price_lower_afterdecimals := Some (10 ^ 11),
                                       price_upper_afterdecimals := Some 5\<rparr>"

definition ex_tied_bins :: "bin list" where
  "ex_tied_bins =
     [\<lparr>bin_index = 0, priceLower = 1000, priceUpper = 2000, amount_weth = 1, amount_usdt = 1500, count_nfts = 1\<rparr>,
      \<lparr>bin_index = 1, priceLower = 2000, priceUpper = 3000, amount_weth = 2, amount_usdt = 0, count_nfts = 2\<rparr>,
      \<lparr>bin_index = 2, priceLower = 3000, priceUpper = 4000, amount_weth = 0, amount_usdt = 3000, count_nfts = 1\<rparr>]"

definition ex_liquidity_call :: "string \<Rightarrow> int \<Rightarrow> int \<Rightarrow> int \<Rightarrow> call_record" where
  "ex_liquidity_call signature_name token_id a0 a1 =
     \<lparr>Arguments = [\<lparr>Index = Some 0, Name = ''tokenId'',
                     Value = \<lparr>address = None, bigInteger = Some (Parsed token_id)\<rparr>\<rparr>],
      Returns = [\<lparr>Index = None, Name = ''amount0'', Value = \<lparr>address = None, bigInteger = Some (Parsed a0)\<rparr>\<rparr>,
                 \<lparr>Index = None, Name = ''amount1'', Value = \<lparr>address = None, bigInteger = Some (Parsed a1)\<rparr>\<rparr>],
      Signature_Name = signature_name,
      Block_Time = Some (Some ''2025-01-02T00:00:00Z''),
      Transaction_Time = None\<rparr>"

definition ex_increase_call :: call_record where
  "ex_increase_call = ex_liquidity_call ''increaseLiquidity'' 5 10 20"

definition ex_decrease_call :: call_record where
  "ex_decrease_call = ex_liquidity_call ''decreaseLiquidity'' 5 3 4"

definition ex_mint_arguments :: "abi_item list" where
  "ex_mint_arguments =
     [\<lparr>Index = Some 0, Name = ''token0'', Value = \<lparr>address = Some WETH_ADDRESS, bigInteger = None\<rparr>\<rparr>,
      \<lparr>Index = Some 1, Name = ''token1'', Value = \<lparr>address = Some USDT_ADDRESS, bigInteger = None\<rparr>\<rparr>,
      \<lparr>Index = Some 2, Name = ''fee'', Value = \<lparr>address = None, bigInteger = Some (Parsed 3000)\<rparr>\<rparr>,
      \<lparr>Index = Some 3, Name = ''tickLower'', Value = \<lparr>address = None, bigInteger = Some (Parsed 0)\<rparr>\<rparr>,
      \<lparr>Index = Some 4, Name = ''tickUpper'', Value = \<lparr>address = None, bigInteger = Some (Parsed 1)\<rparr>\<rparr>]"

definition ex_mint_call_no_amounts :: call_record where
  "ex_mint_call_no_amounts =
     \<lparr>Arguments = ex_mint_arguments,
      Returns = [\<lparr>Index = None, Name = ''tokenId'', Value = \<lparr>address = None, bigInteger = Some (Parsed 42)\<rparr>\<rparr>],
      Signature_Name = ''mint'',
      Block_Time = Some (Some ''2025-01-01T00:00:00Z''),
      Transaction_Time = None\<rparr>"

text \<open>
  A mint call whose first amount is found by name and whose second amount is not found at
  all: the positional lookup runs and the integer at place 2 replaces the first amount.
\<close>

definition ex_mint_call_override :: call_record where
  "ex_mint_call_override =
     \<lparr>Arguments = ex_mint_arguments,
      Returns = [\<lparr>Index = None, Name = ''tokenId'', Value = \<lparr>address = None, bigInteger = Some (Parsed 42)\<rparr>\<rparr>,
                 \<lparr>Index = None, Name = ''amount0'', Value = \<lparr>address = None, bigInteger = Some (Parsed 7)\<rparr>\<rparr>,
                 \<lparr>Index = None, Name = ''liquidity'', Value = \<lparr>address = None, bigInteger = Some (Parsed 99)\<rparr>\<rparr>],
      Signature_Name = ''mint'',
      Block_Time = Some (Some ''2025-01-01T00:00:00Z''),
      Transaction_Time = None\<rparr>"

definition ex_mint_position :: mint_position where
  "ex_mint_position =
     \<lparr>mint_nft_id = 42, mint_tick_lower = 0, mint_tick_upper = 1,
      mint_timestamp = ''2025-01-01T00:00:00Z'',
      mint_token0 = Some WETH_ADDRESS, mint_token1 = Some USDT_ADDRESS,
      mint_price_lower = 1, mint_price_upper = 10001 / 10000,
      mint_price_lower_afterdecimals = 1000000000000,
      mint_price_upper_afterdecimals = 1000100000000,
      mint_amount0 = Some (2 * 10 ^ 18), mint_amount1 = Some (5 * 10 ^ 6),
      mint_amount0_afterdecimals = Some 2, mint_amount1_afterdecimals = Some 5,
      mint_amount_weth = Some 2, mint_amount_usdt = Some 5\<rparr>"

definition ex_volume_env :: env where
  "ex_volume_env =
     \<lparr>now = 60, utcnow = 60,
      mint_http = \<lparr>status_code = 503, json = \<lparr>Events = [], Calls = []\<rparr>\<rparr>,
      liquidity_http = (\<lambda>nft_ids. \<lparr>status_code = 503, json = \<lparr>Events = [], Calls = []\<rparr>\<rparr>),
      volume_http = (\<lambda>price_low price_high. \<lparr>status_code = 200, json = [Some 12345]\<rparr>)\<rparr>"

definition ex_warm_cache :: cache where
  "ex_warm_cache =
     \<lparr>c_bins = Some ex_tied_bins, c_data = None, c_timestamp = Some 0, c_total_positions = Some 3\<rparr>"

text \<open>
  An environment in which a refresh succeeds: one mint call for the tracked pair with the
  ticks \<open>-220000\<close> and \<open>-180000\<close>, that is, a price range of about 279 to 15240 USDT per WETH,
  no liquidity events, and a volume of 12345 for every interval.
\<close>

definition ex_live_mint_call :: call_record where
  "ex_live_mint_call =
     \<lparr>Arguments =
        [\<lparr>Index = Some 0, Name = ''token0'', Value = \<lparr>address = Some WETH_ADDRESS, bigInteger = None\<rparr>\<rparr>,
         \<lparr>Index = Some 1, Name = ''token1'', Value = \<lparr>address = Some USDT_ADDRESS, bigInteger = None\<rparr>\<rparr>,
         \<lparr>Index = Some 2, Name = ''fee'', Value = \<lparr>address = None, bigInteger = Some (Parsed 3000)\<rparr>\<rparr>,
         \<lparr>Index = Some 3, Name = ''tickLower'', Value = \<lparr>address = None, bigInteger = Some (Parsed (- 220000))\<rparr>\<rparr>,
         \<lparr>Index = Some 4, Name = ''tickUpper'', Value = \<lparr>address = None, bigInteger = Some (Parsed (- 180000))\<rparr>\<rparr>],
      Returns =
        [\<lparr>Index = None, Name = ''tokenId'', Value = \<lparr>address = None, bigInteger = Some (Parsed 42)\<rparr>\<rparr>,
         \<lparr>Index = None, Name = ''liquidity'', Value = \<lparr>address = None, bigInteger = Some (Parsed 1000)\<rparr>\<rparr>,
         \<lparr>Index = None, Name = ''amount0'', Value = \<lparr>address = None, bigInteger = Some (Parsed (2 * 10 ^ 18))\<rparr>\<rparr>,
         \<lparr>Index = None, Name = ''amount1'', Value = \<lparr>address = None, bigInteger = Some (Parsed (5 * 10 ^ 6))\<rparr>\<rparr>],
      Signature_Name = ''mint'',
      Block_Time = Some (Some ''2025-01-01T00:00:00Z''),
      Transaction_Time = None\<rparr>"

definition ex_live_position :: mint_position where
  "ex_live_position =
     build_position (Some WETH_ADDRESS) (Some USDT_ADDRESS) (- 220000) (- 180000) 42
       (Some (2 * 10 ^ 18)) (Some (5 * 10 ^ 6)) ''2025-01-01T00:00:00Z''"

definition ex_live_summary :: position where
  "ex_live_summary =
     \<lparr>pos_nft_id = 42, create_time = ''2025-01-01T00:00:00Z'', number_of_positions = 1,
      price_lower_afterdecimals = Some (calculate_price_with_decimals (- 220000) 18 6),
      price_upper_afterdecimals = Some (calculate_price_with_decimals (- 180000) 18 6),
      pos_amount_weth = Some 2, pos_amount_usdt = Some 5\<rparr>"

definition ex_live_env :: env where
  "ex_live_env =
     \<lparr>now = 60, utcnow = 60,
      mint_http = \<lparr>status_code = 200, json = \<lparr>Events = [], Calls = [ex_live_mint_call]\<rparr>\<rparr>,
      liquidity_http = (\<lambda>nft_ids. \<lparr>status_code = 200, json = \<lparr>Events = [], Calls = []\<rparr>\<rparr>),
      volume_http = (\<lambda>price_low price_high. \<lparr>status_code = 200, json = [Some 12345]\<rparr>)\<rparr>"

definition ex_bin_dict :: "real \<Rightarrow> real \<Rightarrow> real \<Rightarrow> real \<Rightarrow> real \<Rightarrow> real \<Rightarrow> pydict" where
  "ex_bin_dict i lo up w u n =
     [''bin_index'' \<mapsto> i, ''priceLower'' \<mapsto> lo, ''priceUpper'' \<mapsto> up,
      ''amount_weth'' \<mapsto> w, ''amount_usdt'' \<mapsto> u, ''count_nfts'' \<mapsto> n]"

definition ex_store :: store where
  "ex_store = [ex_bin_dict 0 1000 2000 1 1500 1, ex_bin_dict 1 2000 3000 2 0 2]"


section \<open>Shared lemmas\<close>

lemma bind_exn_simps [simp]:
  "bind_exn (Inl e) f = Inl e"
  "bind_exn (Inr x) f = f x"
  by (simp_all add: bind_exn_def)

lemma py_int_Inr: "py_int v = Inr n \<longleftrightarrow> v = Parsed n"
  by (cases v) (simp_all add: py_int_def)

lemma bind_exn_Inr_iff: "bind_exn m f = Inr y \<longleftrightarrow> (\<exists>x. m = Inr x \<and> f x = Inr y)"
  by (cases m) simp_all

text \<open>
  Sorting two lists that are related element by element, by keys that agree on related
  elements, gives related lists.
\<close>

lemma insort_key_rel:
  "list_all2 Q xs ys \<Longrightarrow> Q x y \<Longrightarrow> (\<And>a b. Q a b \<Longrightarrow> f a = g b) \<Longrightarrow>
   list_all2 Q (insort_key f x xs) (insort_key g y ys)"
  by (induction rule: list_all2_induct) auto

lemma sort_key_rel:
  "list_all2 Q xs ys \<Longrightarrow> (\<And>a b. Q a b \<Longrightarrow> f a = (g b :: real)) \<Longrightarrow>
   list_all2 Q (sort_key f xs) (sort_key g ys)"
  by (induction rule: list_all2_induct) (auto intro: insort_key_rel)

lemma sorted_reverse_rel:
  "list_all2 Q xs ys \<Longrightarrow> (\<And>a b. Q a b \<Longrightarrow> f a = g b) \<Longrightarrow>
   list_all2 Q (sorted_reverse f xs) (sorted_reverse g ys)"
  unfolding sorted_reverse_def by (intro iffD2 [OF list_all2_rev] sort_key_rel) simp_all

section \<open>A refresh that succeeds\<close>

text \<open>
  The prices of the example ticks are bounded without computing \<open>1.0001 ^ 220000\<close>: the
  power \<open>1.0001 ^ 10000\<close> lies between 2.5 and 2.77, by four steps of tenth powers each.
\<close>

lemma tick_base_lower: "(25/10 :: real) \<le> ((((10001/10000) ^ 10) ^ 10) ^ 10) ^ 10"
proof -
  have 1: "(1001/1000 :: real) \<le> (10001/10000) ^ 10" by (simp add: power_divide)
  have 2: "(101/100 :: real) \<le> (1001/1000) ^ 10" by (simp add: power_divide)
  have 3: "(11/10 :: real) \<le> (101/100) ^ 10" by (simp add: power_divide)
  have 4: "(25/10 :: real) \<le> (11/10) ^ 10" by (simp add: power_divide)
  have "(1001/1000 :: real) ^ 10 \<le> ((10001/10000) ^ 10) ^ 10"
    by (rule power_mono [OF 1]) simp
  with 2 have 5: "(101/100 :: real) \<le> ((10001/10000) ^ 10) ^ 10" by (rule order_trans)
  have "(101/100 :: real) ^ 10 \<le> (((10001/10000) ^ 10) ^ 10) ^ 10"
    by (rule power_mono [OF 5]) simp
  with 3 have 6: "(11/10 :: real) \<le> (((10001/10000) ^ 10) ^ 10) ^ 10" by (rule order_trans)
  have "(11/10 :: real) ^ 10 \<le> ((((10001/10000) ^ 10) ^ 10) ^ 10) ^ 10"
    by (rule power_mono [OF 6]) simp
  with 4 show ?thesis by (rule order_trans)
qed

lemma tick_base_upper: "(((((10001/10000) ^ 10) ^ 10) ^ 10) ^ 10 :: real) \<le> 277/100"
proof -
  have 1: "((10001/10000) ^ 10 :: real) \<le> 100101/100000" by (simp add: power_divide)
  have 2: "((100101/100000) ^ 10 :: real) \<le> 10102/10000" by (simp add: power_divide)
  have 3: "((10102/10000) ^ 10 :: real) \<le> 11069/10000" by (simp add: power_divide)
  have 4: "((11069/10000) ^ 10 :: real) \<le> 277/100" by (simp add: power_divide)
  have "(((10001/10000) ^ 10) ^ 10 :: real) \<le> (100101/100000) ^ 10"
    by (rule power_mono [OF 1]) (rule zero_le_power, simp)
  then have 5: "(((10001/10000) ^ 10) ^ 10 :: real) \<le> 10102/10000" using 2 by (rule order_trans)
  have "((((10001/10000) ^ 10) ^ 10) ^ 10 :: real) \<le> (10102/10000) ^ 10"
    by (rule power_mono [OF 5]) (intro zero_le_power, simp)
  then have 6: "((((10001/10000) ^ 10) ^ 10) ^ 10 :: real) \<le> 11069/10000" using 3 by (rule order_trans)
  have "(((((10001/10000) ^ 10) ^ 10) ^ 10) ^ 10 :: real) \<le> (11069/10000) ^ 10"
    by (rule power_mono [OF 6]) (intro zero_le_power, simp)
  then show ?thesis using 4 by (rule order_trans)
qed

lemma tick_power_180000: "(10 ^ 7 :: real) \<le> (10001/10000) ^ 180000"
proof -
  have "(25/10 :: real) ^ 18 \<le> (((((10001/10000) ^ 10) ^ 10) ^ 10) ^ 10) ^ 18"
    by (rule power_mono [OF tick_base_lower]) simp
  moreover have "(10 ^ 7 :: real) \<le> (25/10) ^ 18" by (simp add: power_divide)
  moreover have "(((((10001/10000 :: real) ^ 10) ^ 10) ^ 10) ^ 10) ^ 18 = (10001/10000) ^ 180000"
    by (simp only: power_mult [symmetric]) simp
  ultimately show ?thesis by (simp only: order_trans)
qed

lemma tick_power_220000: "((10001/10000) ^ 220000 :: real) \<le> 10 ^ 10"
proof -
  have "(((((10001/10000) ^ 10) ^ 10) ^ 10) ^ 10) ^ 22 \<le> (277/100 :: real) ^ 22"
    by (rule power_mono [OF tick_base_upper]) (intro zero_le_power, simp)
  moreover have "(277/100 :: real) ^ 22 \<le> 10 ^ 10" by (simp add: power_divide)
  moreover have "(((((10001/10000 :: real) ^ 10) ^ 10) ^ 10) ^ 10) ^ 22 = (10001/10000) ^ 220000"
    by (simp only: power_mult [symmetric]) simp
  ultimately show ?thesis by (simp only: order_trans)
qed

lemma price_of_negative_tick:
  "calculate_price_with_decimals (- int k) 18 6 = 10 ^ 12 / (10001/10000) ^ k"
proof -
  have "(10001/10000 :: real) powi (- int k) = inverse ((10001/10000) ^ k)"
    by (simp only: power_int_minus power_int_of_nat)
  moreover have "(10 :: real) powi (6 - 18) = inverse (10 ^ 12)"
  proof -
    have "(6 :: int) - 18 = - int 12" by simp
    then show ?thesis by (simp only: power_int_minus power_int_of_nat)
  qed
  moreover have "(1.0001 :: real) = 10001/10000" by simp
  ultimately have "calculate_price_with_decimals (- int k) 18 6
                     = inverse ((10001/10000) ^ k) / inverse (10 ^ 12)"
    by (simp only: calculate_price_with_decimals_def Let_def)
  also have "\<dots> = 10 ^ 12 / (10001/10000) ^ k"
    by (simp only: divide_inverse inverse_inverse_eq mult.commute)
  finally show ?thesis .
qed

lemma price_bounds_from_power:
  fixes x y :: real
  assumes "0 < x" "x < y" "10 ^ 7 \<le> x" "y \<le> 10 ^ 10"
  shows "100 \<le> 10 ^ 12 / y" and "10 ^ 12 / x \<le> 100000" and "10 ^ 12 / y < 10 ^ 12 / x"
proof -
  from assms have y: "0 < y" by simp
  show "100 \<le> 10 ^ 12 / y" using assms y by (simp add: pos_le_divide_eq)
  show "10 ^ 12 / x \<le> 100000" using assms by (simp add: pos_divide_le_eq)
  show "10 ^ 12 / y < 10 ^ 12 / x" using assms y by (simp add: frac_less2)
qed

lemma ex_live_prices:
  "100 \<le> calculate_price_with_decimals (- 220000) 18 6"
  "calculate_price_with_decimals (- 180000) 18 6 \<le> 100000"
  "calculate_price_with_decimals (- 220000) 18 6 < calculate_price_with_decimals (- 180000) 18 6"
proof -
  have lt: "((10001/10000) ^ 180000 :: real) < (10001/10000) ^ 220000"
    by (rule power_strict_increasing) simp_all
  have pos: "(0 :: real) < (10001/10000) ^ 180000"
    by (rule zero_less_power) simp
  note b = price_bounds_from_power [OF pos lt tick_power_180000 tick_power_220000]
  have lo: "calculate_price_with_decimals (- 220000) 18 6 = 10 ^ 12 / (10001/10000) ^ 220000"
  proof -
    have "(- 220000 :: int) = - int 220000" by simp
    then show ?thesis by (simp only: price_of_negative_tick)
  qed
  have up: "calculate_price_with_decimals (- 180000) 18 6 = 10 ^ 12 / (10001/10000) ^ 180000"
  proof -
    have "(- 180000 :: int) = - int 180000" by simp
    then show ?thesis by (simp only: price_of_negative_tick)
  qed
  show "100 \<le> calculate_price_with_decimals (- 220000) 18 6" by (simp only: lo b)
  show "calculate_price_with_decimals (- 180000) 18 6 \<le> 100000" by (simp only: up b)
  show "calculate_price_with_decimals (- 220000) 18 6 < calculate_price_with_decimals (- 180000) 18 6"
    by (simp only: lo up b)
qed


lemma normalize_tracked_addresses:
  "normalize_address WETH_ADDRESS = WETH_ADDRESS"
  "normalize_address USDT_ADDRESS = USDT_ADDRESS"
  by (simp_all add: normalize_address_def WETH_ADDRESS_def USDT_ADDRESS_def lower_def
        lower_char_def char_of_def)

lemma build_position_weth_first:
  "mint_nft_id (build_position (Some WETH_ADDRESS) t1 lo hi nid a0 a1 ts) = nid"
  "mint_timestamp (build_position (Some WETH_ADDRESS) t1 lo hi nid a0 a1 ts) = ts"
  "mint_token0 (build_position (Some WETH_ADDRESS) t1 lo hi nid a0 a1 ts) = Some WETH_ADDRESS"
  "mint_amount0 (build_position (Some WETH_ADDRESS) t1 lo hi nid a0 a1 ts) = a0"
  "mint_amount1 (build_position (Some WETH_ADDRESS) t1 lo hi nid a0 a1 ts) = a1"
  "mint_price_lower_afterdecimals (build_position (Some WETH_ADDRESS) t1 lo hi nid a0 a1 ts)
     = calculate_price_with_decimals lo 18 6"
  "mint_price_upper_afterdecimals (build_position (Some WETH_ADDRESS) t1 lo hi nid a0 a1 ts)
     = calculate_price_with_decimals hi 18 6"
  by (simp_all add: build_position_def Let_def normalize_tracked_addresses
        WETH_DECIMALS_def USDT_DECIMALS_def)

lemma extract_ex_live_mint_call:
  "extract_position_data ex_live_mint_call = Inr (Some ex_live_position)"
  by (simp add: extract_position_data_def extract_position_body_def ex_live_mint_call_def
        ex_live_position_def read_mint_return_values_def py_int_def read_timestamp_def
        normalize_tracked_addresses Let_def)

lemma summary_item_valid:
  assumes "mint_nft_id p = nid" "mint_timestamp p = ts" "mint_token0 p = Some WETH_ADDRESS"
    and "mint_amount0 p = Some (2 * 10 ^ 18)" "mint_amount1 p = Some (5 * 10 ^ 6)"
    and "mint_price_lower_afterdecimals p = pl" "mint_price_upper_afterdecimals p = pu"
    and "100 \<le> pl" "pl < pu" "pu \<le> 100000"
  shows "summary_item p Map.empty =
           Some \<lparr>pos_nft_id = nid, create_time = ts, number_of_positions = 1,
                 price_lower_afterdecimals = Some pl, price_upper_afterdecimals = Some pu,
                 pos_amount_weth = Some 2, pos_amount_usdt = Some 5\<rparr>"
  using assms
  by (simp add: summary_item_def Let_def zero_delta_def or_0_def normalize_tracked_addresses
        WETH_DECIMALS_def USDT_DECIMALS_def validate_amounts_def isnan_def isinf_def
        MAX_WETH_def MAX_USDT_def validate_position_prices_def MIN_REASONABLE_PRICE_def
        MAX_REASONABLE_PRICE_def MIN_PRICE_THRESHOLD_def MAX_PRICE_THRESHOLD_def)

lemma create_bins_from_single_position:
  assumes "price_lower_afterdecimals s = Some pl" "price_upper_afterdecimals s = Some pu"
    and "pos_amount_weth s = Some 2" "pos_amount_usdt s = Some 5"
    and "100 \<le> pl" "pl < pu" "pu \<le> 100000"
  shows "\<exists>bins. create_bins_from_data [s] NUM_BINS None None = Inr bins"
proof -
  have valid: "validate_position_prices s MIN_REASONABLE_PRICE MAX_REASONABLE_PRICE"
    using assms
    by (simp add: validate_position_prices_def validate_amounts_def isnan_def isinf_def
          MAX_WETH_def MAX_USDT_def MIN_REASONABLE_PRICE_def MAX_REASONABLE_PRICE_def
          MIN_PRICE_THRESHOLD_def MAX_PRICE_THRESHOLD_def)
  have range: "find_price_range [s] = Inr (pl, pu)"
    using assms
    by (simp add: find_price_range_def Let_def py_index_def
          MIN_PRICE_THRESHOLD_def MAX_PRICE_THRESHOLD_def)
  have "\<exists>bins. create_bins pl pu NUM_BINS = Inr bins"
    using assms by (simp add: create_bins_def NUM_BINS_def Let_def)
  then obtain bins where "create_bins pl pu NUM_BINS = Inr bins" ..
  with valid range show ?thesis
    by (simp add: create_bins_from_data_def Let_def)
qed

lemma fetch_and_bin_ex_live_env:
  "\<exists>bins. fetch_and_bin ex_live_env =
            (Inr ([ex_live_position], bins), [FetchMintPositions, FetchLiquidityEvents [42]])"
proof -
  have parsed: "parse_positions (Some \<lparr>Events = [], Calls = [ex_live_mint_call]\<rparr>) = Inr [ex_live_position]"
    by (simp add: parse_positions_def extract_ex_live_mint_call)
  have summary: "summary_item ex_live_position Map.empty = Some ex_live_summary"
    unfolding ex_live_summary_def
    by (rule summary_item_valid)
       (simp_all only: ex_live_position_def build_position_weth_first ex_live_prices)
  obtain bins where bins: "create_bins_from_data [ex_live_summary] NUM_BINS None None = Inr bins"
    using create_bins_from_single_position
            [of ex_live_summary "calculate_price_with_decimals (- 220000) 18 6"
                "calculate_price_with_decimals (- 180000) 18 6"]
          ex_live_prices
    by (auto simp: ex_live_summary_def)
  have id: "mint_nft_id ex_live_position = 42"
    by (simp only: ex_live_position_def build_position_weth_first)
  have "fetch_and_bin ex_live_env =
          (Inr ([ex_live_position], bins), [FetchMintPositions, FetchLiquidityEvents [42]])"
    by (simp add: fetch_and_bin_def fetch_mint_positions_def fetch_liquidity_events_def
          ex_live_env_def parsed parse_liquidity_events_def create_final_summary_def
          summary bins id Let_def)
  then show ?thesis ..
qed

section \<open>C1: proportional distribution of a position over the bins\<close>

lemma calculate_overlap_pos:
  "calculate_overlap pl pu bl bu > 0 \<longleftrightarrow> max pl bl < min pu bu"
  by (auto simp: calculate_overlap_def Let_def)

lemma calculate_overlap_val:
  "max pl bl < min pu bu \<Longrightarrow> calculate_overlap pl pu bl bu = min pu bu - max pl bl"
  by (auto simp: calculate_overlap_def Let_def)

lemma overlapping_bins_fst_ge:
  "(j, ov) \<in> set (overlapping_bins pl pu i bs) \<Longrightarrow> i \<le> j \<and> j < i + length bs"
  by (induction bs arbitrary: i) (fastforce simp: Let_def split: if_splits)+

lemma overlapping_bins_snd_pos:
  "(j, ov) \<in> set (overlapping_bins pl pu i bs) \<Longrightarrow> ov > 0"
  by (induction bs arbitrary: i) (auto simp: Let_def split: if_splits)

lemma overlapping_bins_distinct:
  "distinct (map fst (overlapping_bins pl pu i bs))"
proof (induction bs arbitrary: i)
  case Nil
  show ?case by simp
next
  case (Cons b bs)
  have "i \<notin> fst ` set (overlapping_bins pl pu (Suc i) bs)"
    using overlapping_bins_fst_ge [of _ _ pl pu "Suc i" bs] by fastforce
  with Cons.IH [of "Suc i"] show ?case by (simp add: Let_def)
qed

lemma overlapping_bins_lookup:
  "k < length bs \<Longrightarrow>
   map_of (overlapping_bins pl pu i bs) (i + k) =
     (let ov = calculate_overlap pl pu (priceLower (bs ! k)) (priceUpper (bs ! k))
      in if ov > 0 then Some ov else None)"
proof (induction bs arbitrary: i k)
  case Nil
  then show ?case by simp
next
  case (Cons b bs)
  show ?case
  proof (cases k)
    case 0
    have "map_of (overlapping_bins pl pu (Suc i) bs) i = None"
      using overlapping_bins_fst_ge [of i _ pl pu "Suc i" bs]
      by (cases "map_of (overlapping_bins pl pu (Suc i) bs) i") (auto dest: map_of_SomeD)
    with 0 show ?thesis by (simp add: Let_def)
  next
    case (Suc k')
    with Cons.prems have "k' < length bs" by simp
    from Cons.IH [OF this, of "Suc i"] Suc show ?thesis by (simp add: Let_def)
  qed
qed

lemma distribute_loop_length:
  "length (distribute_loop aw au r found bins) = length bins"
  by (induction aw au r found bins rule: distribute_loop.induct) simp_all

lemma distribute_loop_nth:
  "distinct (map fst found) \<Longrightarrow> k < length bins \<Longrightarrow>
   distribute_loop aw au r found bins ! k =
     (case map_of found k of None \<Rightarrow> bins ! k | Some ov \<Rightarrow> add_to_bin aw au r ov (bins ! k))"
proof (induction aw au r found bins rule: distribute_loop.induct)
  case (1 aw au r bins)
  show ?case by simp
next
  case (2 aw au r i overlap rest bins)
  from "2.prems" have d: "distinct (map fst rest)" and ni: "i \<notin> fst ` set rest" by auto
  from "2.prems" have k: "k < length (bins[i := add_to_bin aw au r overlap (bins ! i)])" by simp
  note IH = "2.IH" [OF d k]
  show ?case
  proof (cases "k = i")
    case True
    with ni have "map_of rest k = None" by (simp add: map_of_eq_None_iff)
    with IH True "2.prems" show ?thesis by simp
  next
    case False
    then have "bins[i := add_to_bin aw au r overlap (bins ! i)] ! k = bins ! k" by simp
    with IH False show ?thesis by (simp split: option.split)
  qed
qed

lemma overlapping_bins_empty_iff:
  "overlapping_bins pl pu i bs = [] \<longleftrightarrow>
   (\<forall>b \<in> set bs. \<not> calculate_overlap pl pu (priceLower b) (priceUpper b) > 0)"
  by (induction bs arbitrary: i) (auto simp: Let_def)

lemma sum_list_pos_zero:
  "(\<And>x. x \<in> set xs \<Longrightarrow> (0::real) < x) \<Longrightarrow> sum_list xs = 0 \<longleftrightarrow> xs = []"
proof (induction xs)
  case Nil
  show ?case by simp
next
  case (Cons x xs)
  have "0 \<le> sum_list xs" by (rule sum_list_nonneg) (use Cons.prems in \<open>auto intro: less_imp_le\<close>)
  moreover have "0 < x" using Cons.prems by simp
  ultimately show ?case by simp
qed

lemma total_overlap_zero_iff:
  "sum_list (map snd (overlapping_bins pl pu i bs)) = 0 \<longleftrightarrow> overlapping_bins pl pu i bs = []"
proof -
  have "sum_list (map snd (overlapping_bins pl pu i bs)) = 0
          \<longleftrightarrow> map snd (overlapping_bins pl pu i bs) = []"
    by (rule sum_list_pos_zero) (use overlapping_bins_snd_pos in fastforce)
  then show ?thesis by simp
qed

text \<open>
  Claim C1. Let the position have both decimals-adjusted bounds, \<open>pl\<close> and \<open>pu\<close>. If
  \<open>pl < pu\<close>, \<^verbatim>\<open>distribute_position_to_bins\<close> keeps the number of bins and, for the bin at
  each place \<open>k\<close>: when the bin's interval meets the position's interval in positive length
  (\<open>max pl bin_lower < min pu bin_upper\<close>) the bin receives that length divided by
  \<open>pu - pl\<close>, times the position's WETH amount and times its USDT amount, and its
  \<open>count_nfts\<close> grows by exactly one; otherwise the bin is unchanged. If \<open>pl = pu\<close>, no bin
  changes.
\<close>

theorem distribute_position_to_bins_proportional:
  assumes lo: "price_lower_afterdecimals p = Some pl"
      and up: "price_upper_afterdecimals p = Some pu"
  shows "(pl < pu \<longrightarrow>
            length (distribute_position_to_bins p bins) = length bins \<and>
            (\<forall>k < length bins.
               distribute_position_to_bins p bins ! k =
                 (let b = bins ! k;
                      overlap_lower = max pl (priceLower b);
                      overlap_upper = min pu (priceUpper b)
                  in if overlap_lower < overlap_upper
                     then b\<lparr>amount_weth := amount_weth b
                                + or_zero (pos_amount_weth p) * ((overlap_upper - overlap_lower) / (pu - pl)),
                            amount_usdt := amount_usdt b
                                + or_zero (pos_amount_usdt p) * ((overlap_upper - overlap_lower) / (pu - pl)),
                            count_nfts := count_nfts b + 1\<rparr>
                     else b)))
       \<and> (pl = pu \<longrightarrow> distribute_position_to_bins p bins = bins)"
proof (intro conjI impI allI)
  assume "pl = pu"
  then have "\<forall>b \<in> set bins. \<not> calculate_overlap pl pu (priceLower b) (priceUpper b) > 0"
    by (auto simp: calculate_overlap_pos)
  then have "overlapping_bins pl pu 0 bins = []"
    by (simp only: overlapping_bins_empty_iff)
  then show "distribute_position_to_bins p bins = bins"
    by (simp add: distribute_position_to_bins_def lo up)
next
  assume lt: "pl < pu"
  show "length (distribute_position_to_bins p bins) = length bins"
    by (simp add: distribute_position_to_bins_def lo up Let_def distribute_loop_length)
next
  fix k
  assume lt: "pl < pu" and k: "k < length bins"
  let ?found = "overlapping_bins pl pu 0 bins"
  let ?b = "bins ! k"
  have look: "map_of ?found k =
      (if max pl (priceLower ?b) < min pu (priceUpper ?b)
       then Some (min pu (priceUpper ?b) - max pl (priceLower ?b)) else None)"
    using overlapping_bins_lookup [OF k, of pl pu 0]
    by (auto simp: Let_def calculate_overlap_pos calculate_overlap_val)
  show "distribute_position_to_bins p bins ! k =
         (let b = bins ! k;
              overlap_lower = max pl (priceLower b);
              overlap_upper = min pu (priceUpper b)
          in if overlap_lower < overlap_upper
             then b\<lparr>amount_weth := amount_weth b
                        + or_zero (pos_amount_weth p) * ((overlap_upper - overlap_lower) / (pu - pl)),
                    amount_usdt := amount_usdt b
                        + or_zero (pos_amount_usdt p) * ((overlap_upper - overlap_lower) / (pu - pl)),
                    count_nfts := count_nfts b + 1\<rparr>
             else b)"
  proof (cases "?found = []")
    case True
    then have "map_of ?found k = None" by simp
    with look have neg: "\<not> max pl (priceLower ?b) < min pu (priceUpper ?b)"
      by (simp split: if_splits)
    from True have res: "distribute_position_to_bins p bins = bins"
      by (simp add: distribute_position_to_bins_def lo up Let_def)
    from neg show ?thesis
      by (simp only: Let_def res if_False simp_thms)
  next
    case False
    then have nz: "sum_list (map snd ?found) \<noteq> 0"
      by (simp only: total_overlap_zero_iff not_False_eq_True)
    from lt have r: "pu - pl \<noteq> 0" by simp
    have "distribute_position_to_bins p bins =
            distribute_loop (or_zero (pos_amount_weth p)) (or_zero (pos_amount_usdt p)) (pu - pl) ?found bins"
      using False nz r by (simp add: distribute_position_to_bins_def lo up Let_def)
    moreover have "distribute_loop (or_zero (pos_amount_weth p)) (or_zero (pos_amount_usdt p))
                     (pu - pl) ?found bins ! k =
                   (case map_of ?found k of None \<Rightarrow> ?b
                    | Some ov \<Rightarrow> add_to_bin (or_zero (pos_amount_weth p))
                                  (or_zero (pos_amount_usdt p)) (pu - pl) ov ?b)"
      by (rule distribute_loop_nth [OF overlapping_bins_distinct k])
    ultimately show ?thesis
      by (cases "max pl (priceLower ?b) < min pu (priceUpper ?b)")
         (simp_all only: look Let_def add_to_bin_def if_True if_False option.case)
  qed
qed

theorem distribute_position_to_bins_proportional_witness:
  "distribute_position_to_bins ex_position ex_bins =
     [\<lparr>bin_index = 0, priceLower = 0, priceUpper = 2000, amount_weth = 2, amount_usdt = 4, count_nfts = 1\<rparr>,
      \<lparr>bin_index = 1, priceLower = 2000, priceUpper = 4000, amount_weth = 2, amount_usdt = 4, count_nfts = 1\<rparr>,
      \<lparr>bin_index = 2, priceLower = 4000, priceUpper = 6000, amount_weth = 0, amount_usdt = 0, count_nfts = 0\<rparr>]
   \<and> distribute_position_to_bins ex_point_position ex_bins = ex_bins"
proof -
  have lo: "price_lower_afterdecimals ex_position = Some 1000"
    and up: "price_upper_afterdecimals ex_position = Some 3000"
    and lo': "price_lower_afterdecimals ex_point_position = Some 1000"
    and up': "price_upper_afterdecimals ex_point_position = Some 1000"
    by (simp_all add: ex_position_def ex_point_position_def)
  let ?r = "distribute_position_to_bins ex_position ex_bins"
  from distribute_position_to_bins_proportional [OF lo up, of ex_bins]
  have len: "length ?r = 3"
    and nth: "\<And>k. k < 3 \<Longrightarrow> ?r ! k =
           (let b = ex_bins ! k;
                overlap_lower = max 1000 (priceLower b);
                overlap_upper = min 3000 (priceUpper b)
            in if overlap_lower < overlap_upper
               then b\<lparr>amount_weth := amount_weth b
                          + or_zero (pos_amount_weth ex_position) * ((overlap_upper - overlap_lower) / (3000 - 1000)),
                      amount_usdt := amount_usdt b
                          + or_zero (pos_amount_usdt ex_position) * ((overlap_upper - overlap_lower) / (3000 - 1000)),
                      count_nfts := count_nfts b + 1\<rparr>
               else b)"
    by (simp_all add: ex_bins_def)
  have n0: "?r ! 0 = \<lparr>bin_index = 0, priceLower = 0, priceUpper = 2000, amount_weth = 2, amount_usdt = 4, count_nfts = 1\<rparr>"
    using nth [of 0] by (simp add: ex_bins_def ex_position_def or_zero_def Let_def)
  have n1: "?r ! 1 = \<lparr>bin_index = 1, priceLower = 2000, priceUpper = 4000, amount_weth = 2, amount_usdt = 4, count_nfts = 1\<rparr>"
    using nth [of 1] by (simp add: ex_bins_def ex_position_def or_zero_def Let_def)
  have n2: "?r ! 2 = \<lparr>bin_index = 2, priceLower = 4000, priceUpper = 6000, amount_weth = 0, amount_usdt = 0, count_nfts = 0\<rparr>"
    using nth [of 2] by (simp add: ex_bins_def ex_position_def or_zero_def Let_def)
  have "?r = [?r ! 0, ?r ! 1, ?r ! 2]"
    using len by (auto simp: list_eq_iff_nth_eq less_Suc_eq nth_Cons' numeral_3_eq_3 numeral_2_eq_2)
  then have a: "?r = [\<lparr>bin_index = 0, priceLower = 0, priceUpper = 2000, amount_weth = 2, amount_usdt = 4, count_nfts = 1\<rparr>,
      \<lparr>bin_index = 1, priceLower = 2000, priceUpper = 4000, amount_weth = 2, amount_usdt = 4, count_nfts = 1\<rparr>,
      \<lparr>bin_index = 2, priceLower = 4000, priceUpper = 6000, amount_weth = 0, amount_usdt = 0, count_nfts = 0\<rparr>]"
    by (simp only: n0 n1 n2)
  from distribute_position_to_bins_proportional [OF lo' up', of ex_bins]
  have b: "distribute_position_to_bins ex_point_position ex_bins = ex_bins" by simp
  from a b show ?thesis by simp
qed

section \<open>C2: the robust price range\<close>

lemma collect_lowers_eq:
  "collect_lowers ps = filter (\<lambda>x. 0 < x) (List.map_filter price_lower_afterdecimals ps)"
  by (induction ps) (auto split: option.splits)

lemma collect_uppers_eq:
  "collect_uppers ps = filter (\<lambda>x. 0 < x) (List.map_filter price_upper_afterdecimals ps)"
  by (induction ps) (auto split: option.splits)

lemma py_min_Min: "xs \<noteq> [] \<Longrightarrow> py_min xs = Inr (Min (set xs))"
  by (cases xs) (simp_all only: py_min_def list.case Min.set_eq_fold simp_thms)

lemma py_max_Max: "xs \<noteq> [] \<Longrightarrow> py_max xs = Inr (Max (set xs))"
  by (cases xs) (simp_all only: py_max_def list.case Max.set_eq_fold simp_thms)

lemma lower_floor: "\<lfloor>real n * 0.05\<rfloor> = int (n div 20)"
  using floor_divide_of_nat_eq [of n 20, where ?'a = real] by simp

lemma upper_floor: "\<lfloor>real n * 0.95\<rfloor> = int (19 * n div 20)"
  using floor_divide_of_nat_eq [of "19 * n" 20, where ?'a = real] by (simp add: mult.commute)

lemma lower_idx: "nat (max 0 \<lfloor>real n * 0.05\<rfloor>) = nat \<lfloor>real n * 0.05\<rfloor>"
  unfolding lower_floor by simp

lemma lower_idx_lt: "0 < n \<Longrightarrow> nat \<lfloor>real n * 0.05\<rfloor> < n"
  unfolding lower_floor by simp

lemma upper_idx:
  "0 < n \<Longrightarrow> nat (min (int n - 1) \<lfloor>real n * 0.95\<rfloor>) = min (n - 1) (nat \<lfloor>real n * 0.95\<rfloor>)"
  unfolding upper_floor by simp

lemma upper_idx_lt: "0 < n \<Longrightarrow> min (n - 1) (nat \<lfloor>real n * 0.95\<rfloor>) < n"
  by simp

lemma last_resort_eq:
  "last_resort ls us =
     (if filter in_thresholds ls \<noteq> [] \<and> filter in_thresholds us \<noteq> []
      then Inr (Min (set (filter in_thresholds ls)), Max (set (filter in_thresholds us)))
      else Inl (ValueError ''No reasonable price range found in positions''))"
  by (simp add: last_resort_def Let_def bind_exn_def py_min_Min py_max_Max)

text \<open>
  Claim C2, amended. Let at least one lower bound and at least one upper bound be present and
  positive. \<^verbatim>\<open>find_price_range\<close> sorts the present positive lower bounds and the present
  positive upper bounds independently (\<open>n\<close> and \<open>m\<close> of them) and chooses the lower value at
  index \<open>floor (0.05 * n)\<close> and the upper value at index \<open>min (m - 1) (floor (0.95 * m))\<close>; all
  four indices read are in range. It returns the chosen pair unless the chosen lower value is
  below \<open>MIN_PRICE_THRESHOLD\<close> or the chosen upper value is above \<open>MAX_PRICE_THRESHOLD\<close>; then
  it returns the two medians if the median lower is not below the lower threshold and the
  median upper is not above the upper one; otherwise the minimum of the lower bounds inside
  both thresholds and the maximum of the upper bounds inside both thresholds; and it raises
  only when one of these two last collections is empty.
\<close>

theorem find_price_range_fallbacks:
  assumes lo: "\<exists>p \<in> set positions. \<exists>x. price_lower_afterdecimals p = Some x \<and> 0 < x"
      and up: "\<exists>p \<in> set positions. \<exists>x. price_upper_afterdecimals p = Some x \<and> 0 < x"
  shows "let lowers = sort (filter (\<lambda>x. 0 < x) (List.map_filter price_lower_afterdecimals positions));
             uppers = sort (filter (\<lambda>x. 0 < x) (List.map_filter price_upper_afterdecimals positions));
             n = length lowers;
             m = length uppers;
             i = nat \<lfloor>real n * 0.05\<rfloor>;
             j = min (m - 1) (nat \<lfloor>real m * 0.95\<rfloor>)
         in i < n \<and> j < m \<and> n div 2 < n \<and> m div 2 < m \<and>
            find_price_range positions =
              (if MIN_PRICE_THRESHOLD \<le> lowers ! i \<and> uppers ! j \<le> MAX_PRICE_THRESHOLD
               then Inr (lowers ! i, uppers ! j)
               else if MIN_PRICE_THRESHOLD \<le> lowers ! (n div 2) \<and> uppers ! (m div 2) \<le> MAX_PRICE_THRESHOLD
               then Inr (lowers ! (n div 2), uppers ! (m div 2))
               else if filter in_thresholds lowers \<noteq> [] \<and> filter in_thresholds uppers \<noteq> []
               then Inr (Min (set (filter in_thresholds lowers)), Max (set (filter in_thresholds uppers)))
               else Inl (ValueError ''No reasonable price range found in positions''))"
proof -
  let ?ls = "sort (collect_lowers positions)"
  let ?us = "sort (collect_uppers positions)"
  from lo have "collect_lowers positions \<noteq> []"
    by (induction positions) (auto split: option.splits)
  then have n: "0 < length ?ls" and ne1: "collect_lowers positions \<noteq> []" by simp_all
  from up have "collect_uppers positions \<noteq> []"
    by (induction positions) (auto split: option.splits)
  then have m: "0 < length ?us" and ne2: "collect_uppers positions \<noteq> []" by simp_all
  note i = lower_idx_lt [OF n] and j = upper_idx_lt [OF m]
  have h1: "length ?ls div 2 < length ?ls" and h2: "length ?us div 2 < length ?us"
    using n m by simp_all
  have "find_price_range positions =
          (if MIN_PRICE_THRESHOLD \<le> ?ls ! nat \<lfloor>real (length ?ls) * 0.05\<rfloor>
                \<and> ?us ! min (length ?us - 1) (nat \<lfloor>real (length ?us) * 0.95\<rfloor>) \<le> MAX_PRICE_THRESHOLD
           then Inr (?ls ! nat \<lfloor>real (length ?ls) * 0.05\<rfloor>,
                     ?us ! min (length ?us - 1) (nat \<lfloor>real (length ?us) * 0.95\<rfloor>))
           else if MIN_PRICE_THRESHOLD \<le> ?ls ! (length ?ls div 2) \<and> ?us ! (length ?us div 2) \<le> MAX_PRICE_THRESHOLD
           then Inr (?ls ! (length ?ls div 2), ?us ! (length ?us div 2))
           else last_resort ?ls ?us)"
    unfolding find_price_range_def Let_def lower_idx upper_idx [OF m]
    using ne1 ne2 i j h1 h2
    by (simp only: py_index_def bind_exn_def if_True if_False sum.case simp_thms not_le not_less)
       (auto simp: not_le not_less)
  then show ?thesis
    unfolding Let_def collect_lowers_eq [symmetric] collect_uppers_eq [symmetric] last_resort_eq
    using i j h1 h2 by simp
qed

theorem find_price_range_fallbacks_witness:
  "find_price_range [ex_position] = Inr (1000, 3000)"
proof -
  have lo: "\<exists>p \<in> set [ex_position]. \<exists>x. price_lower_afterdecimals p = Some x \<and> 0 < x"
    and up: "\<exists>p \<in> set [ex_position]. \<exists>x. price_upper_afterdecimals p = Some x \<and> 0 < x"
    by (simp_all add: ex_position_def)
  from find_price_range_fallbacks [OF lo up] show ?thesis
    by (simp add: ex_position_def Let_def
          MIN_PRICE_THRESHOLD_def MAX_PRICE_THRESHOLD_def)
qed

text \<open>
  Claim C2 as stated fails: a chosen value outside the guard band does not always trigger the
  fallback, because the lower value is only compared with the lower threshold and the upper
  value with the upper threshold. For the single position with lower bound \<open>10 ^ 11\<close> and
  upper bound \<open>5\<close>, the chosen lower value \<open>10 ^ 11\<close> is outside the band, the median is the
  same value, and no lower bound lies inside the band, so the claim's fallback chain ends in
  a failure; the code returns the pair \<open>(10 ^ 11, 5)\<close>.
\<close>

theorem find_price_range_band_counterexample:
  "find_price_range [ex_inverted_position] = Inr (10 ^ 11, 5)
   \<and> \<not> in_thresholds (10 ^ 11)
   \<and> sort (collect_lowers [ex_inverted_position]) ! (length (collect_lowers [ex_inverted_position]) div 2) = 10 ^ 11
   \<and> filter in_thresholds (sort (collect_lowers [ex_inverted_position])) = []"
  by (simp add: find_price_range_def ex_inverted_position_def ex_position_def Let_def
        py_index_def bind_exn_def in_thresholds_def MIN_PRICE_THRESHOLD_def MAX_PRICE_THRESHOLD_def)

section \<open>C3: what a returned mint position needs\<close>

lemma named_Cons:
  "named n (ret # rets) v \<longleftrightarrow> (Name ret = n \<and> bigInteger (Value ret) = Some (Parsed v)) \<or> named n rets v"
  by (simp add: named_def)

lemma has_named_Cons:
  "has_named n (ret # rets) \<longleftrightarrow> (Name ret = n \<and> bigInteger (Value ret) \<noteq> None) \<or> has_named n rets"
  by (simp add: has_named_def)

lemma named_Nil: "\<not> named n [] v" "\<not> has_named n []"
  by (simp_all add: named_def has_named_def)

lemma by_name_result_skip:
  "\<not> (Name ret = n \<and> bigInteger (Value ret) \<noteq> None) \<Longrightarrow>
   by_name_result n rets before after \<Longrightarrow> by_name_result n (ret # rets) before after"
  by (auto simp: by_name_result_def has_named_Cons named_Cons split: if_splits)

lemma by_name_result_hit:
  "Name ret = n \<Longrightarrow> bigInteger (Value ret) = Some (Parsed k) \<Longrightarrow>
   by_name_result n rets (Some k) after \<Longrightarrow> by_name_result n (ret # rets) before after"
  by (auto simp: by_name_result_def has_named_Cons named_Cons split: if_splits)

lemma read_mint_returns_result:
  "read_mint_returns rets (nid, a0, a1) = Inr (nid', a0', a1') \<Longrightarrow>
   by_name_result ''tokenId'' rets nid nid' \<and>
   by_name_result ''amount0'' rets a0 a0' \<and>
   by_name_result ''amount1'' rets a1 a1'"
proof (induction rets arbitrary: nid a0 a1)
  case Nil
  then show ?case by (simp add: by_name_result_def named_Nil)
next
  case (Cons ret rets)
  show ?case
  proof (cases "bigInteger (Value ret)")
    case None
    with Cons.prems have "read_mint_returns rets (nid, a0, a1) = Inr (nid', a0', a1')"
      by (simp split: if_splits)
    from Cons.IH [OF this] None show ?thesis
      by (simp add: by_name_result_skip)
  next
    case (Some v)
    consider (tok) "Name ret = ''tokenId''" | (am0) "Name ret = ''amount0''" | (am1) "Name ret = ''amount1''"
      | (other) "Name ret \<noteq> ''tokenId''" "Name ret \<noteq> ''amount0''" "Name ret \<noteq> ''amount1''"
      by blast
    then show ?thesis
    proof cases
      case tok
      with Cons.prems Some obtain k where v: "v = Parsed k"
        and rest: "read_mint_returns rets (Some k, a0, a1) = Inr (nid', a0', a1')"
        by (auto simp: bind_exn_Inr_iff py_int_Inr)
      from Cons.IH [OF rest] tok Some v show ?thesis
        by (simp add: by_name_result_skip by_name_result_hit)
    next
      case am0
      with Cons.prems Some obtain k where v: "v = Parsed k"
        and rest: "read_mint_returns rets (nid, Some k, a1) = Inr (nid', a0', a1')"
        by (auto simp: bind_exn_Inr_iff py_int_Inr)
      from Cons.IH [OF rest] am0 Some v show ?thesis
        by (simp add: by_name_result_skip by_name_result_hit)
    next
      case am1
      with Cons.prems Some obtain k where v: "v = Parsed k"
        and rest: "read_mint_returns rets (nid, a0, Some k) = Inr (nid', a0', a1')"
        by (auto simp: bind_exn_Inr_iff py_int_Inr)
      from Cons.IH [OF rest] am1 Some v show ?thesis
        by (simp add: by_name_result_skip by_name_result_hit)
    next
      case other
      with Cons.prems Some have "read_mint_returns rets (nid, a0, a1) = Inr (nid', a0', a1')"
        by simp
      from Cons.IH [OF this] other show ?thesis
        by (simp add: by_name_result_skip)
    qed
  qed
qed

lemma at_index_Suc:
  "at_index (Suc j) (ret # rets) v = at_index j rets v"
  "has_at_index (Suc j) (ret # rets) = has_at_index j rets"
  by (simp_all add: at_index_def has_at_index_def)

lemma read_amounts_by_index_result:
  "read_amounts_by_index i0 i1 i rets (a0, a1) = Inr (a0', a1') \<Longrightarrow> i0 \<noteq> i1 \<Longrightarrow>
   (i \<le> i0 \<longrightarrow> by_index_result (i0 - i) rets a0 a0') \<and> (i0 < i \<longrightarrow> a0' = a0) \<and>
   (i \<le> i1 \<longrightarrow> by_index_result (i1 - i) rets a1 a1') \<and> (i1 < i \<longrightarrow> a1' = a1)"
proof (induction rets arbitrary: i a0 a1)
  case Nil
  then show ?case by (simp add: by_index_result_def has_at_index_def)
next
  case (Cons ret rets)
  have step: "\<And>j b b'. i \<le> j \<Longrightarrow> i \<noteq> j \<Longrightarrow> by_index_result (j - Suc i) rets b b'
                \<Longrightarrow> by_index_result (j - i) (ret # rets) b b'"
  proof -
    fix j b b' assume "i \<le> j" "i \<noteq> j" and r: "by_index_result (j - Suc i) rets b b'"
    then have "j - i = Suc (j - Suc i)" by simp
    with r show "by_index_result (j - i) (ret # rets) b b'"
      by (simp add: by_index_result_def at_index_Suc)
  qed
  show ?case
  proof (cases "bigInteger (Value ret)")
    case None
    with Cons.prems have rest: "read_amounts_by_index i0 i1 (Suc i) rets (a0, a1) = Inr (a0', a1')"
      by simp
    note IH = Cons.IH [OF rest Cons.prems(2)]
    have here: "\<And>b. by_index_result 0 (ret # rets) b b"
      using None by (simp add: by_index_result_def has_at_index_def)
    show ?thesis
    proof (intro conjI impI)
      assume "i \<le> i0" then show "by_index_result (i0 - i) (ret # rets) a0 a0'"
        using IH here [of a0] step [of i0 a0 a0'] by (cases "i = i0") auto
    next
      assume "i0 < i" then show "a0' = a0" using IH by simp
    next
      assume "i \<le> i1" then show "by_index_result (i1 - i) (ret # rets) a1 a1'"
        using IH here [of a1] step [of i1 a1 a1'] by (cases "i = i1") auto
    next
      assume "i1 < i" then show "a1' = a1" using IH by simp
    qed
  next
    case (Some v)
    consider (at0) "i = i0" | (at1) "i = i1" | (other) "i \<noteq> i0" "i \<noteq> i1" by blast
    then show ?thesis
    proof cases
      case at0
      with Cons.prems Some obtain k where v: "v = Parsed k"
        and rest: "read_amounts_by_index i0 i1 (Suc i) rets (Some k, a1) = Inr (a0', a1')"
        by (auto simp: bind_exn_Inr_iff py_int_Inr)
      note IH = Cons.IH [OF rest Cons.prems(2)]
      from IH at0 have a0': "a0' = Some k" by simp
      show ?thesis
      proof (intro conjI impI)
        show "by_index_result (i0 - i) (ret # rets) a0 a0'"
          using at0 a0' Some v by (simp add: by_index_result_def has_at_index_def at_index_def)
      next
        assume "i0 < i" with at0 show "a0' = a0" by simp
      next
        assume "i \<le> i1" then show "by_index_result (i1 - i) (ret # rets) a1 a1'"
          using IH at0 Cons.prems(2) step [of i1 a1 a1'] by auto
      next
        assume "i1 < i" then show "a1' = a1" using IH by simp
      qed
    next
      case at1
      with Cons.prems Some obtain k where v: "v = Parsed k"
        and rest: "read_amounts_by_index i0 i1 (Suc i) rets (a0, Some k) = Inr (a0', a1')"
        by (auto simp: bind_exn_Inr_iff py_int_Inr)
      note IH = Cons.IH [OF rest Cons.prems(2)]
      from IH at1 have a1': "a1' = Some k" by simp
      show ?thesis
      proof (intro conjI impI)
        show "by_index_result (i1 - i) (ret # rets) a1 a1'"
          using at1 a1' Some v by (simp add: by_index_result_def has_at_index_def at_index_def)
      next
        assume "i1 < i" with at1 show "a1' = a1" by simp
      next
        assume "i \<le> i0" then show "by_index_result (i0 - i) (ret # rets) a0 a0'"
          using IH at1 Cons.prems(2) step [of i0 a0 a0'] by auto
      next
        assume "i0 < i" then show "a0' = a0" using IH by simp
      qed
    next
      case other
      with Cons.prems Some have rest: "read_amounts_by_index i0 i1 (Suc i) rets (a0, a1) = Inr (a0', a1')"
        by simp
      note IH = Cons.IH [OF rest Cons.prems(2)]
      show ?thesis
      proof (intro conjI impI)
        assume "i \<le> i0" then show "by_index_result (i0 - i) (ret # rets) a0 a0'"
          using IH other step [of i0 a0 a0'] by auto
      next
        assume "i0 < i" then show "a0' = a0" using IH by simp
      next
        assume "i \<le> i1" then show "by_index_result (i1 - i) (ret # rets) a1 a1'"
          using IH other step [of i1 a1 a1'] by auto
      next
        assume "i1 < i" then show "a1' = a1" using IH by simp
      qed
    qed
  qed
qed


lemma build_position_fields:
  "mint_nft_id (build_position t0 t1 tlo tup nid a0 a1 ts) = nid"
  "mint_amount0 (build_position t0 t1 tlo tup nid a0 a1 ts) = a0"
  "mint_amount1 (build_position t0 t1 tlo tup nid a0 a1 ts) = a1"
  by (simp_all add: build_position_def Let_def split_def)

lemma extract_position_body_SomeD:
  assumes "extract_position_body c = Inr (Some p)"
  shows "read_mint_return_values (Returns c) = Inr (Some (mint_nft_id p), mint_amount0 p, mint_amount1 p)"
proof -
  from assms obtain ticks r where
    r: "read_mint_return_values (Returns c) = Inr r" and
    k: "(case (fst ticks, snd ticks, fst r, read_timestamp c) of
           (Some tick_lower, Some tick_upper, Some nft_id, Some timestamp) \<Rightarrow>
              Inr (Some (build_position (fst (token_addresses (take 2 (Arguments c)) (None, None)))
                           (snd (token_addresses (take 2 (Arguments c)) (None, None)))
                           tick_lower tick_upper nft_id (fst (snd r)) (snd (snd r)) timestamp))
         | _ \<Rightarrow> Inr None) = (Inr (Some p) :: exn + mint_position option)"
    unfolding extract_position_body_def Let_def split_def
    by (auto simp: bind_exn_Inr_iff split: if_splits)
  from k obtain tlo tup nid ts where "fst r = Some nid"
    and "p = build_position (fst (token_addresses (take 2 (Arguments c)) (None, None)))
               (snd (token_addresses (take 2 (Arguments c)) (None, None)))
               tlo tup nid (fst (snd r)) (snd (snd r)) ts"
    by (auto split: option.splits)
  with r show ?thesis by (cases r) (simp add: build_position_fields)
qed

lemma extract_position_data_SomeD:
  assumes "extract_position_data c = Inr (Some p)"
  shows "read_mint_return_values (Returns c) = Inr (Some (mint_nft_id p), mint_amount0 p, mint_amount1 p)"
  using assms unfolding extract_position_data_def
  by (auto split: sum.splits if_splits intro: extract_position_body_SomeD)

lemma read_mint_return_values_result:
  assumes "read_mint_return_values rets = Inr (nid, b0, b1)"
  shows "by_name_result ''tokenId'' rets None nid"
    and "b0 = None \<longleftrightarrow> \<not> has_named ''amount0'' rets \<and> \<not> has_at_index 2 rets"
    and "b1 = None \<longleftrightarrow> \<not> has_named ''amount1'' rets \<and> \<not> has_at_index 3 rets"
    and "\<And>a. b0 = Some a \<Longrightarrow> named ''amount0'' rets a \<or> at_index 2 rets a"
    and "\<And>a. b1 = Some a \<Longrightarrow> named ''amount1'' rets a \<or> at_index 3 rets a"
    and "has_named ''amount0'' rets \<Longrightarrow> has_named ''amount1'' rets \<Longrightarrow>
           (\<exists>a. b0 = Some a \<and> named ''amount0'' rets a) \<and> (\<exists>a. b1 = Some a \<and> named ''amount1'' rets a)"
proof -
  from assms obtain a0 a1 where
    nm: "read_mint_returns rets (None, None, None) = Inr (nid, a0, a1)" and
    fb: "(if a0 = None \<or> a1 = None then read_amounts_by_index 2 3 0 rets (a0, a1) else Inr (a0, a1))
           = Inr (b0, b1)"
    by (auto simp: read_mint_return_values_def bind_exn_Inr_iff)
  from read_mint_returns_result [OF nm]
  have n: "by_name_result ''tokenId'' rets None nid"
    and n0: "by_name_result ''amount0'' rets None a0"
    and n1: "by_name_result ''amount1'' rets None a1" by simp_all
  have i: "by_index_result 2 rets a0 b0 \<and> by_index_result 3 rets a1 b1" if "a0 = None \<or> a1 = None"
  proof -
    from that fb have "read_amounts_by_index 2 3 0 rets (a0, a1) = Inr (b0, b1)" by simp
    from read_amounts_by_index_result [OF this] show ?thesis by simp
  qed
  have same: "b0 = a0 \<and> b1 = a1" if "\<not> (a0 = None \<or> a1 = None)"
    using that fb by auto
  show "by_name_result ''tokenId'' rets None nid" by (rule n)
  show "b0 = None \<longleftrightarrow> \<not> has_named ''amount0'' rets \<and> \<not> has_at_index 2 rets"
    using n0 n1 i same by (cases "a0 = None \<or> a1 = None")
      (auto simp: by_name_result_def by_index_result_def split: if_splits)
  show "b1 = None \<longleftrightarrow> \<not> has_named ''amount1'' rets \<and> \<not> has_at_index 3 rets"
    using n0 n1 i same by (cases "a0 = None \<or> a1 = None")
      (auto simp: by_name_result_def by_index_result_def split: if_splits)
  show "named ''amount0'' rets a \<or> at_index 2 rets a" if "b0 = Some a" for a
    using that n0 n1 i same by (cases "a0 = None \<or> a1 = None")
      (auto simp: by_name_result_def by_index_result_def split: if_splits)
  show "named ''amount1'' rets a \<or> at_index 3 rets a" if "b1 = Some a" for a
    using that n0 n1 i same by (cases "a0 = None \<or> a1 = None")
      (auto simp: by_name_result_def by_index_result_def split: if_splits)
  show "(\<exists>a. b0 = Some a \<and> named ''amount0'' rets a) \<and> (\<exists>a. b1 = Some a \<and> named ''amount1'' rets a)"
    if "has_named ''amount0'' rets" "has_named ''amount1'' rets"
    using that n0 n1 same by (auto simp: by_name_result_def)
qed


lemma read_mint_returns_exact:
  "read_mint_returns rets (nid, a0, a1) = Inr (nid', a0', a1') \<Longrightarrow>
   nid' = (case last_named ''tokenId'' rets of Some v \<Rightarrow> Some v | None \<Rightarrow> nid) \<and>
   a0' = (case last_named ''amount0'' rets of Some v \<Rightarrow> Some v | None \<Rightarrow> a0) \<and>
   a1' = (case last_named ''amount1'' rets of Some v \<Rightarrow> Some v | None \<Rightarrow> a1)"
proof (induction rets arbitrary: nid a0 a1)
  case Nil
  then show ?case by simp
next
  case (Cons ret rets)
  show ?case
  proof (cases "bigInteger (Value ret)")
    case None
    with Cons.prems have "read_mint_returns rets (nid, a0, a1) = Inr (nid', a0', a1')"
      by (simp split: if_splits)
    from Cons.IH [OF this] None show ?thesis
      by (simp split: option.splits)
  next
    case (Some v)
    consider (tok) "Name ret = ''tokenId''" | (am0) "Name ret = ''amount0''" | (am1) "Name ret = ''amount1''"
      | (other) "Name ret \<noteq> ''tokenId''" "Name ret \<noteq> ''amount0''" "Name ret \<noteq> ''amount1''"
      by blast
    then show ?thesis
    proof cases
      case tok
      with Cons.prems Some obtain k where v: "v = Parsed k"
        and rest: "read_mint_returns rets (Some k, a0, a1) = Inr (nid', a0', a1')"
        by (auto simp: bind_exn_Inr_iff py_int_Inr)
      from Cons.IH [OF rest] tok Some v show ?thesis
        by (simp split: option.splits)
    next
      case am0
      with Cons.prems Some obtain k where v: "v = Parsed k"
        and rest: "read_mint_returns rets (nid, Some k, a1) = Inr (nid', a0', a1')"
        by (auto simp: bind_exn_Inr_iff py_int_Inr)
      from Cons.IH [OF rest] am0 Some v show ?thesis
        by (simp split: option.splits)
    next
      case am1
      with Cons.prems Some obtain k where v: "v = Parsed k"
        and rest: "read_mint_returns rets (nid, a0, Some k) = Inr (nid', a0', a1')"
        by (auto simp: bind_exn_Inr_iff py_int_Inr)
      from Cons.IH [OF rest] am1 Some v show ?thesis
        by (simp split: option.splits)
    next
      case other
      with Cons.prems Some have "read_mint_returns rets (nid, a0, a1) = Inr (nid', a0', a1')"
        by simp
      from Cons.IH [OF this] other show ?thesis
        by (simp split: option.splits)
    qed
  qed
qed

lemma convertible_Cons:
  "convertible (ret # rets) \<Longrightarrow> convertible rets"
  "convertible (ret # rets) \<Longrightarrow> bigInteger (Value ret) = Some v \<Longrightarrow> \<exists>k. v = Parsed k"
  by (auto simp: convertible_def split: option.splits bigint.splits)

lemma read_mint_returns_total:
  "convertible rets \<Longrightarrow> \<exists>r. read_mint_returns rets acc = Inr r"
proof (induction rets arbitrary: acc)
  case Nil
  show ?case by (cases acc) auto
next
  case (Cons ret rets)
  obtain nid a0 a1 where acc: "acc = (nid, a0, a1)" by (cases acc) auto
  note IH = Cons.IH [OF convertible_Cons(1) [OF Cons.prems]]
  show ?case
  proof (cases "bigInteger (Value ret)")
    case None
    with IH show ?thesis unfolding acc by simp
  next
    case (Some v)
    with convertible_Cons(2) [OF Cons.prems] obtain k where "v = Parsed k" by blast
    with Some IH show ?thesis unfolding acc by (simp add: py_int_def)
  qed
qed

lemma read_amounts_by_index_total:
  "convertible rets \<Longrightarrow> \<exists>r. read_amounts_by_index i0 i1 i rets acc = Inr r"
proof (induction rets arbitrary: acc i)
  case Nil
  show ?case by (cases acc) auto
next
  case (Cons ret rets)
  obtain a0 a1 where acc: "acc = (a0, a1)" by (cases acc)
  note IH = Cons.IH [OF convertible_Cons(1) [OF Cons.prems]]
  show ?case
  proof (cases "bigInteger (Value ret)")
    case None
    with IH show ?thesis unfolding acc by simp
  next
    case (Some v)
    with convertible_Cons(2) [OF Cons.prems] obtain k where "v = Parsed k" by blast
    with Some IH show ?thesis unfolding acc by (simp add: py_int_def)
  qed
qed

lemma by_index_result_at_place:
  "by_index_result j rets before after \<Longrightarrow>
   after = (case at_place j rets of Some v \<Rightarrow> Some v | None \<Rightarrow> before)"
  by (auto simp: by_index_result_def at_place_def has_at_index_def at_index_def
           split: if_splits option.splits bigint.splits)

lemma read_mint_return_values_exact:
  assumes "read_mint_return_values rets = Inr (nid, b0, b1)"
  shows "nid = last_named ''tokenId'' rets"
    and "b0 = recovered_amount ''amount0'' 2 rets"
    and "b1 = recovered_amount ''amount1'' 3 rets"
proof -
  from assms obtain a0 a1 where
    nm: "read_mint_returns rets (None, None, None) = Inr (nid, a0, a1)" and
    fb: "(if a0 = None \<or> a1 = None then read_amounts_by_index 2 3 0 rets (a0, a1) else Inr (a0, a1))
           = Inr (b0, b1)"
    by (auto simp: read_mint_return_values_def bind_exn_Inr_iff)
  from read_mint_returns_exact [OF nm]
  have n: "nid = last_named ''tokenId'' rets"
    and n0: "a0 = last_named ''amount0'' rets"
    and n1: "a1 = last_named ''amount1'' rets" by (simp_all split: option.splits)
  have both: "b0 = recovered_amount ''amount0'' 2 rets \<and> b1 = recovered_amount ''amount1'' 3 rets"
  proof (cases "a0 = None \<or> a1 = None")
    case True
    with fb have "read_amounts_by_index 2 3 0 rets (a0, a1) = Inr (b0, b1)" by simp
    from read_amounts_by_index_result [OF this]
    have "by_index_result 2 rets a0 b0" "by_index_result 3 rets a1 b1" by simp_all
    from this [THEN by_index_result_at_place] True show ?thesis
      unfolding n0 n1 recovered_amount_def by auto
  next
    case False
    with fb have "b0 = a0" "b1 = a1" by simp_all
    with False show ?thesis
      unfolding n0 n1 recovered_amount_def by auto
  qed
  show "nid = last_named ''tokenId'' rets" by (rule n)
  from both show "b0 = recovered_amount ''amount0'' 2 rets" ..
  from both show "b1 = recovered_amount ''amount1'' 3 rets" ..
qed

lemma read_mint_return_values_total:
  assumes "convertible rets"
  shows "\<exists>b0 b1. read_mint_return_values rets = Inr (last_named ''tokenId'' rets, b0, b1)"
proof -
  from read_mint_returns_total [OF assms] obtain r where
    nm: "read_mint_returns rets (None, None, None) = Inr r" by blast
  obtain nid a0 a1 where r: "r = (nid, a0, a1)" by (cases r) auto
  from read_amounts_by_index_total [OF assms] obtain q where
    fb: "read_amounts_by_index 2 3 0 rets (a0, a1) = Inr q" by blast
  obtain b0 b1 where q: "q = (b0, b1)" by (cases q)
  have "\<exists>b0 b1. read_mint_return_values rets = Inr (nid, b0, b1)"
    by (cases "a0 = None \<or> a1 = None") (simp_all add: read_mint_return_values_def nm r fb q)
  then obtain c0 c1 where v: "read_mint_return_values rets = Inr (nid, c0, c1)" by blast
  from read_mint_return_values_exact(1) [OF v] v show ?thesis by blast
qed

lemma tracked_addresses_distinct: "WETH_ADDRESS \<noteq> USDT_ADDRESS"
  by (simp add: WETH_ADDRESS_def USDT_ADDRESS_def)

lemma extract_position_body_Some_iff:
  "extract_position_body c = Inr (Some p) \<longleftrightarrow>
     2 \<le> length (Arguments c) \<and> tracked_pair c \<and>
     (\<exists>tlo tup nid a0 a1 ts.
        read_ticks (Arguments c) (None, None) = Inr (Some tlo, Some tup) \<and>
        read_mint_return_values (Returns c) = Inr (Some nid, a0, a1) \<and>
        read_timestamp c = Some ts \<and>
        p = build_position (fst (token_addresses (take 2 (Arguments c)) (None, None)))
              (snd (token_addresses (take 2 (Arguments c)) (None, None)))
              tlo tup nid a0 a1 ts)"
proof (cases "2 \<le> length (Arguments c) \<and> tracked_pair c")
  case False
  then have "extract_position_body c = Inr None"
    unfolding extract_position_body_def tracked_pair_def Let_def split_def normalize_tracked_addresses
    by auto
  with False show ?thesis by auto
next
  case True
  let ?t = "token_addresses (take 2 (Arguments c)) (None, None)"
  from True have body: "extract_position_body c =
     bind_exn (read_ticks (Arguments c) (None, None)) (\<lambda>ticks.
     bind_exn (read_mint_return_values (Returns c)) (\<lambda>r.
       case (fst ticks, snd ticks, fst r, read_timestamp c) of
         (Some tick_lower, Some tick_upper, Some nft_id, Some timestamp) \<Rightarrow>
           Inr (Some (build_position (fst ?t) (snd ?t) tick_lower tick_upper nft_id
                        (fst (snd r)) (snd (snd r)) timestamp))
       | _ \<Rightarrow> Inr None))"
    unfolding extract_position_body_def tracked_pair_def Let_def split_def normalize_tracked_addresses
    by auto
  show ?thesis
  proof (cases "read_ticks (Arguments c) (None, None)")
    case (Inl e)
    with True show ?thesis by (simp add: body)
  next
    case ticks: (Inr ticks)
    obtain tl tu where tt: "ticks = (tl, tu)" by (cases ticks)
    show ?thesis
    proof (cases "read_mint_return_values (Returns c)")
      case (Inl e)
      with True ticks show ?thesis by (simp add: body)
    next
      case r: (Inr r)
      obtain nid a0 a1 where rr: "r = (nid, a0, a1)" by (cases r) auto
      from True show ?thesis
        unfolding body ticks tt r rr
        by (cases tl; cases tu; cases nid; cases "read_timestamp c") auto
    qed
  qed
qed

lemma extract_position_data_Some_iff:
  "extract_position_data c = Inr (Some p) \<longleftrightarrow> extract_position_body c = Inr (Some p)"
  unfolding extract_position_data_def by (auto split: sum.splits)

lemma build_position_amounts:
  assumes "t0 = Some WETH_ADDRESS \<or> t0 = Some USDT_ADDRESS"
  shows "mint_token0 (build_position t0 t1 tlo tup nid a0 a1 ts) = t0"
    and "mint_token1 (build_position t0 t1 tlo tup nid a0 a1 ts) = t1"
    and "mint_amount0_afterdecimals (build_position t0 t1 tlo tup nid a0 a1 ts) =
           map_option (\<lambda>a. real_of_int a / 10 ^ (if t0 = Some WETH_ADDRESS then 18 else 6)) a0"
    and "mint_amount1_afterdecimals (build_position t0 t1 tlo tup nid a0 a1 ts) =
           map_option (\<lambda>a. real_of_int a / 10 ^ (if t0 = Some WETH_ADDRESS then 6 else 18)) a1"
    and "mint_amount_weth (build_position t0 t1 tlo tup nid a0 a1 ts) =
           (if t0 = Some WETH_ADDRESS
            then map_option (\<lambda>a. real_of_int a / 10 ^ 18) a0
            else map_option (\<lambda>a. real_of_int a / 10 ^ 18) a1)"
    and "mint_amount_usdt (build_position t0 t1 tlo tup nid a0 a1 ts) =
           (if t0 = Some WETH_ADDRESS
            then map_option (\<lambda>a. real_of_int a / 10 ^ 6) a1
            else map_option (\<lambda>a. real_of_int a / 10 ^ 6) a0)"
  using assms tracked_addresses_distinct
  by (auto simp: build_position_def Let_def normalize_tracked_addresses
        WETH_DECIMALS_def USDT_DECIMALS_def)

lemma ex_mint_arguments_read:
  "2 \<le> length ex_mint_arguments"
  "token_addresses (take 2 ex_mint_arguments) (None, None) = (Some WETH_ADDRESS, Some USDT_ADDRESS)"
  "read_ticks ex_mint_arguments (None, None) = Inr (Some 0, Some 1)"
  by (simp_all add: ex_mint_arguments_def normalize_tracked_addresses py_int_def)

text \<open>
  Claim C3, amended. (1) Whenever \<^verbatim>\<open>extract_position_data\<close> returns a position, its
  identifier is the integer of the last return value named \<^verbatim>\<open>tokenId\<close> that holds one (there
  is no positional fallback for it) and its tokens are the tracked pair, as read from the first
  two arguments. Its amounts are the recovered ones: when both \<^verbatim>\<open>amount0\<close> and \<^verbatim>\<open>amount1\<close> are
  found by name, the values found by name; when at least one is not found by name, the
  positional lookup runs for both, and the integer at place 2 (for \<^verbatim>\<open>amount0\<close>) or 3 (for
  \<^verbatim>\<open>amount1\<close>), if there is one, is the amount, also over a value found by name. An amount is
  \<^verbatim>\<open>None\<close> exactly when no entry of its name and no entry at its place holds a \<^verbatim>\<open>bigInteger\<close>.
  The decimals-adjusted form of an amount is the amount divided by the power of ten of its
  token's decimals, \<^verbatim>\<open>None\<close> when the amount is \<^verbatim>\<open>None\<close>, and \<^verbatim>\<open>amount_weth\<close> and \<^verbatim>\<open>amount_usdt\<close>
  are these forms in the order of the tokens. (2) The amounts are not required: for a record
  whose return values all convert to integers, a position is returned exactly when the record
  has at least two arguments, the tracked pair, both ticks, an identifier found by name and a
  timestamp, whatever its amounts.
\<close>

theorem extract_position_data_returns:
  "(extract_position_data c = Inr (Some p) \<longrightarrow>
      last_named ''tokenId'' (Returns c) = Some (mint_nft_id p)
    \<and> mint_amount0 p = recovered_amount ''amount0'' 2 (Returns c)
    \<and> mint_amount1 p = recovered_amount ''amount1'' 3 (Returns c)
    \<and> (mint_token0 p, mint_token1 p) = token_addresses (take 2 (Arguments c)) (None, None)
    \<and> (mint_token0 p = Some WETH_ADDRESS \<and> mint_token1 p = Some USDT_ADDRESS \<or>
        mint_token0 p = Some USDT_ADDRESS \<and> mint_token1 p = Some WETH_ADDRESS)
    \<and> mint_amount0_afterdecimals p =
          map_option (\<lambda>a. real_of_int a / 10 ^ (if mint_token0 p = Some WETH_ADDRESS then 18 else 6))
            (mint_amount0 p)
    \<and> mint_amount1_afterdecimals p =
          map_option (\<lambda>a. real_of_int a / 10 ^ (if mint_token0 p = Some WETH_ADDRESS then 6 else 18))
            (mint_amount1 p)
    \<and> mint_amount_weth p =
          (if mint_token0 p = Some WETH_ADDRESS then mint_amount0_afterdecimals p
           else mint_amount1_afterdecimals p)
    \<and> mint_amount_usdt p =
          (if mint_token0 p = Some WETH_ADDRESS then mint_amount1_afterdecimals p
           else mint_amount0_afterdecimals p)
    \<and> named ''tokenId'' (Returns c) (mint_nft_id p)
    \<and> (\<forall>a. mint_amount0 p = Some a \<longrightarrow> named ''amount0'' (Returns c) a \<or> at_index 2 (Returns c) a)
    \<and> (\<forall>a. mint_amount1 p = Some a \<longrightarrow> named ''amount1'' (Returns c) a \<or> at_index 3 (Returns c) a)
    \<and> (has_named ''amount0'' (Returns c) \<and> has_named ''amount1'' (Returns c) \<longrightarrow>
          (\<exists>a. mint_amount0 p = Some a \<and> named ''amount0'' (Returns c) a) \<and>
          (\<exists>a. mint_amount1 p = Some a \<and> named ''amount1'' (Returns c) a))
    \<and> (mint_amount0 p = None \<longleftrightarrow> \<not> has_named ''amount0'' (Returns c) \<and> \<not> has_at_index 2 (Returns c))
    \<and> (mint_amount1 p = None \<longleftrightarrow> \<not> has_named ''amount1'' (Returns c) \<and> \<not> has_at_index 3 (Returns c)))
   \<and> (convertible (Returns c) \<longrightarrow>
        ((\<exists>p. extract_position_data c = Inr (Some p)) \<longleftrightarrow>
           2 \<le> length (Arguments c) \<and> tracked_pair c \<and>
           (\<exists>tick_lower tick_upper.
              read_ticks (Arguments c) (None, None) = Inr (Some tick_lower, Some tick_upper)) \<and>
           last_named ''tokenId'' (Returns c) \<noteq> None \<and>
           read_timestamp c \<noteq> None))"
proof (intro conjI impI)
  let ?t = "token_addresses (take 2 (Arguments c)) (None, None)"
  {
    assume ret: "extract_position_data c = Inr (Some p)"
    then have "extract_position_body c = Inr (Some p)" by (simp only: extract_position_data_Some_iff)
    then obtain tlo tup nid a0 a1 ts where
      tr: "tracked_pair c" and
      rv: "read_mint_return_values (Returns c) = Inr (Some nid, a0, a1)" and
      p: "p = build_position (fst ?t) (snd ?t) tlo tup nid a0 a1 ts"
      unfolding extract_position_body_Some_iff by blast
    from tr tracked_addresses_distinct
    have pair: "fst ?t = Some WETH_ADDRESS \<and> snd ?t = Some USDT_ADDRESS \<or>
                fst ?t = Some USDT_ADDRESS \<and> snd ?t = Some WETH_ADDRESS"
      by (auto simp: tracked_pair_def split_def Let_def)
    then have t0: "fst ?t = Some WETH_ADDRESS \<or> fst ?t = Some USDT_ADDRESS" by blast
    note bp = build_position_amounts [OF t0, of "snd ?t" tlo tup nid a0 a1 ts, folded p]
    note bf = build_position_fields [of "fst ?t" "snd ?t" tlo tup nid a0 a1 ts, folded p]
    note ex = read_mint_return_values_exact [OF rv]
    note old = read_mint_return_values_result [OF extract_position_data_SomeD [OF ret]]
    from ex(1) bf(1) show "last_named ''tokenId'' (Returns c) = Some (mint_nft_id p)" by simp
    from ex(2) bf(2) show "mint_amount0 p = recovered_amount ''amount0'' 2 (Returns c)" by simp
    from ex(3) bf(3) show "mint_amount1 p = recovered_amount ''amount1'' 3 (Returns c)" by simp
    from bp(1,2) show "(mint_token0 p, mint_token1 p) = ?t" by simp
    from bp(1,2) pair
    show "mint_token0 p = Some WETH_ADDRESS \<and> mint_token1 p = Some USDT_ADDRESS \<or>
          mint_token0 p = Some USDT_ADDRESS \<and> mint_token1 p = Some WETH_ADDRESS" by simp
    from bp(1,3) bf(2)
    show "mint_amount0_afterdecimals p =
          map_option (\<lambda>a. real_of_int a / 10 ^ (if mint_token0 p = Some WETH_ADDRESS then 18 else 6))
            (mint_amount0 p)" by simp
    from bp(1,4) bf(3)
    show "mint_amount1_afterdecimals p =
          map_option (\<lambda>a. real_of_int a / 10 ^ (if mint_token0 p = Some WETH_ADDRESS then 6 else 18))
            (mint_amount1 p)" by simp
    from bp(1,3,4,5)
    show "mint_amount_weth p =
          (if mint_token0 p = Some WETH_ADDRESS then mint_amount0_afterdecimals p
           else mint_amount1_afterdecimals p)" by simp
    from bp(1,3,4,6)
    show "mint_amount_usdt p =
          (if mint_token0 p = Some WETH_ADDRESS then mint_amount1_afterdecimals p
           else mint_amount0_afterdecimals p)" by simp
    from old(1) show "named ''tokenId'' (Returns c) (mint_nft_id p)"
      by (auto simp: by_name_result_def split: if_splits)
    from old(4) show "\<forall>a. mint_amount0 p = Some a \<longrightarrow>
        named ''amount0'' (Returns c) a \<or> at_index 2 (Returns c) a" by blast
    from old(5) show "\<forall>a. mint_amount1 p = Some a \<longrightarrow>
        named ''amount1'' (Returns c) a \<or> at_index 3 (Returns c) a" by blast
    from old(2) show "mint_amount0 p = None \<longleftrightarrow>
        \<not> has_named ''amount0'' (Returns c) \<and> \<not> has_at_index 2 (Returns c)" .
    from old(3) show "mint_amount1 p = None \<longleftrightarrow>
        \<not> has_named ''amount1'' (Returns c) \<and> \<not> has_at_index 3 (Returns c)" .
    {
      assume "has_named ''amount0'' (Returns c) \<and> has_named ''amount1'' (Returns c)"
      with old(6) show "\<exists>a. mint_amount0 p = Some a \<and> named ''amount0'' (Returns c) a"
        and "\<exists>a. mint_amount1 p = Some a \<and> named ''amount1'' (Returns c) a" by blast+
    }
  }
  assume conv: "convertible (Returns c)"
  show "(\<exists>p. extract_position_data c = Inr (Some p)) \<longleftrightarrow>
           2 \<le> length (Arguments c) \<and> tracked_pair c \<and>
           (\<exists>tick_lower tick_upper.
              read_ticks (Arguments c) (None, None) = Inr (Some tick_lower, Some tick_upper)) \<and>
           last_named ''tokenId'' (Returns c) \<noteq> None \<and>
           read_timestamp c \<noteq> None"
  proof
    assume "\<exists>p. extract_position_data c = Inr (Some p)"
    then obtain q where "extract_position_body c = Inr (Some q)"
      by (auto simp only: extract_position_data_Some_iff)
    then obtain tlo tup nid a0 a1 ts where
      "2 \<le> length (Arguments c)" "tracked_pair c"
      "read_ticks (Arguments c) (None, None) = Inr (Some tlo, Some tup)"
      "read_mint_return_values (Returns c) = Inr (Some nid, a0, a1)"
      "read_timestamp c = Some ts"
      unfolding extract_position_body_Some_iff by blast
    moreover from this(4) have "last_named ''tokenId'' (Returns c) = Some nid"
      by (rule read_mint_return_values_exact(1) [symmetric])
    ultimately
    show "2 \<le> length (Arguments c) \<and> tracked_pair c \<and>
           (\<exists>tick_lower tick_upper.
              read_ticks (Arguments c) (None, None) = Inr (Some tick_lower, Some tick_upper)) \<and>
           last_named ''tokenId'' (Returns c) \<noteq> None \<and>
           read_timestamp c \<noteq> None" by simp
  next
    assume q: "2 \<le> length (Arguments c) \<and> tracked_pair c \<and>
           (\<exists>tick_lower tick_upper.
              read_ticks (Arguments c) (None, None) = Inr (Some tick_lower, Some tick_upper)) \<and>
           last_named ''tokenId'' (Returns c) \<noteq> None \<and>
           read_timestamp c \<noteq> None"
    then obtain tlo tup nid ts where
      "read_ticks (Arguments c) (None, None) = Inr (Some tlo, Some tup)"
      "last_named ''tokenId'' (Returns c) = Some nid" "read_timestamp c = Some ts" by auto
    moreover from read_mint_return_values_total [OF conv] obtain b0 b1 where
      "read_mint_return_values (Returns c) = Inr (last_named ''tokenId'' (Returns c), b0, b1)" by blast
    ultimately have "extract_position_body c =
        Inr (Some (build_position (fst (token_addresses (take 2 (Arguments c)) (None, None)))
              (snd (token_addresses (take 2 (Arguments c)) (None, None))) tlo tup nid b0 b1 ts))"
      using q unfolding extract_position_body_Some_iff by auto
    then show "\<exists>p. extract_position_data c = Inr (Some p)"
      by (auto simp only: extract_position_data_Some_iff)
  qed
qed

theorem extract_position_data_returns_witness:
  "(\<exists>p. extract_position_data ex_mint_call_override = Inr (Some p)
        \<and> mint_nft_id p = 42 \<and> mint_amount0 p = Some 99 \<and> mint_amount1 p = None
        \<and> mint_amount0_afterdecimals p = Some (99 / 10 ^ 18)
        \<and> mint_amount1_afterdecimals p = None
        \<and> mint_amount_weth p = Some (99 / 10 ^ 18) \<and> mint_amount_usdt p = None)
   \<and> (\<exists>p. extract_position_data ex_mint_call_no_amounts = Inr (Some p)
        \<and> mint_amount0 p = None \<and> mint_amount1 p = None
        \<and> mint_amount0_afterdecimals p = None \<and> mint_amount1_afterdecimals p = None
        \<and> mint_amount_weth p = None \<and> mint_amount_usdt p = None)"
proof
  let ?c = ex_mint_call_override
  have args: "Arguments ?c = ex_mint_arguments" by (simp add: ex_mint_call_override_def)
  have conv: "convertible (Returns ?c)" by (simp add: convertible_def ex_mint_call_override_def)
  have q: "2 \<le> length (Arguments ?c) \<and> tracked_pair ?c \<and>
           (\<exists>tick_lower tick_upper.
              read_ticks (Arguments ?c) (None, None) = Inr (Some tick_lower, Some tick_upper)) \<and>
           last_named ''tokenId'' (Returns ?c) \<noteq> None \<and> read_timestamp ?c \<noteq> None"
    unfolding args tracked_pair_def
    by (simp add: ex_mint_arguments_read ex_mint_call_override_def read_timestamp_def tracked_addresses_distinct)
  from extract_position_data_returns [of ?c] conv q
  obtain p where p: "extract_position_data ?c = Inr (Some p)" by blast
  have vals: "last_named ''tokenId'' (Returns ?c) = Some 42"
    "recovered_amount ''amount0'' 2 (Returns ?c) = Some 99"
    "recovered_amount ''amount1'' 3 (Returns ?c) = None"
    by (simp_all add: recovered_amount_def at_place_def ex_mint_call_override_def)
  from extract_position_data_returns [of ?c p] p
  have "last_named ''tokenId'' (Returns ?c) = Some (mint_nft_id p)"
    and "mint_amount0 p = recovered_amount ''amount0'' 2 (Returns ?c)"
    and "mint_amount1 p = recovered_amount ''amount1'' 3 (Returns ?c)"
    and "(mint_token0 p, mint_token1 p) = token_addresses (take 2 (Arguments ?c)) (None, None)"
    and "mint_amount0_afterdecimals p =
          map_option (\<lambda>a. real_of_int a / 10 ^ (if mint_token0 p = Some WETH_ADDRESS then 18 else 6))
            (mint_amount0 p)"
    and "mint_amount1_afterdecimals p =
          map_option (\<lambda>a. real_of_int a / 10 ^ (if mint_token0 p = Some WETH_ADDRESS then 6 else 18))
            (mint_amount1 p)"
    and "mint_amount_weth p =
          (if mint_token0 p = Some WETH_ADDRESS then mint_amount0_afterdecimals p
           else mint_amount1_afterdecimals p)"
    and "mint_amount_usdt p =
          (if mint_token0 p = Some WETH_ADDRESS then mint_amount1_afterdecimals p
           else mint_amount0_afterdecimals p)"
    by blast+
  then have "mint_nft_id p = 42 \<and> mint_amount0 p = Some 99 \<and> mint_amount1 p = None
        \<and> mint_amount0_afterdecimals p = Some (99 / 10 ^ 18)
        \<and> mint_amount1_afterdecimals p = None
        \<and> mint_amount_weth p = Some (99 / 10 ^ 18) \<and> mint_amount_usdt p = None"
    unfolding vals args ex_mint_arguments_read by simp
  with p show "\<exists>p. extract_position_data ?c = Inr (Some p)
        \<and> mint_nft_id p = 42 \<and> mint_amount0 p = Some 99 \<and> mint_amount1 p = None
        \<and> mint_amount0_afterdecimals p = Some (99 / 10 ^ 18)
        \<and> mint_amount1_afterdecimals p = None
        \<and> mint_amount_weth p = Some (99 / 10 ^ 18) \<and> mint_amount_usdt p = None" by blast
next
  let ?c = ex_mint_call_no_amounts
  have args: "Arguments ?c = ex_mint_arguments" by (simp add: ex_mint_call_no_amounts_def)
  have conv: "convertible (Returns ?c)" by (simp add: convertible_def ex_mint_call_no_amounts_def)
  have q: "2 \<le> length (Arguments ?c) \<and> tracked_pair ?c \<and>
           (\<exists>tick_lower tick_upper.
              read_ticks (Arguments ?c) (None, None) = Inr (Some tick_lower, Some tick_upper)) \<and>
           last_named ''tokenId'' (Returns ?c) \<noteq> None \<and> read_timestamp ?c \<noteq> None"
    unfolding args tracked_pair_def
    by (simp add: ex_mint_arguments_read ex_mint_call_no_amounts_def read_timestamp_def tracked_addresses_distinct)
  from extract_position_data_returns [of ?c] conv q
  obtain p where p: "extract_position_data ?c = Inr (Some p)" by blast
  have vals: "recovered_amount ''amount0'' 2 (Returns ?c) = None"
    "recovered_amount ''amount1'' 3 (Returns ?c) = None"
    by (simp_all add: recovered_amount_def at_place_def ex_mint_call_no_amounts_def)
  from extract_position_data_returns [of ?c p] p
  have "mint_amount0 p = recovered_amount ''amount0'' 2 (Returns ?c)"
    and "mint_amount1 p = recovered_amount ''amount1'' 3 (Returns ?c)"
    and "mint_amount0_afterdecimals p =
          map_option (\<lambda>a. real_of_int a / 10 ^ (if mint_token0 p = Some WETH_ADDRESS then 18 else 6))
            (mint_amount0 p)"
    and "mint_amount1_afterdecimals p =
          map_option (\<lambda>a. real_of_int a / 10 ^ (if mint_token0 p = Some WETH_ADDRESS then 6 else 18))
            (mint_amount1 p)"
    and "mint_amount_weth p =
          (if mint_token0 p = Some WETH_ADDRESS then mint_amount0_afterdecimals p
           else mint_amount1_afterdecimals p)"
    and "mint_amount_usdt p =
          (if mint_token0 p = Some WETH_ADDRESS then mint_amount1_afterdecimals p
           else mint_amount0_afterdecimals p)"
    by blast+
  then have "mint_amount0 p = None \<and> mint_amount1 p = None
        \<and> mint_amount0_afterdecimals p = None \<and> mint_amount1_afterdecimals p = None
        \<and> mint_amount_weth p = None \<and> mint_amount_usdt p = None"
    unfolding vals by simp
  with p show "\<exists>p. extract_position_data ?c = Inr (Some p)
        \<and> mint_amount0 p = None \<and> mint_amount1 p = None
        \<and> mint_amount0_afterdecimals p = None \<and> mint_amount1_afterdecimals p = None
        \<and> mint_amount_weth p = None \<and> mint_amount_usdt p = None" by blast
qed

text \<open>
  Claim C3 as stated fails in its last part: a record from which neither lookup yields the
  amounts is not rejected. The mint call below has the two token addresses, both ticks, a
  block time and the single return value \<^verbatim>\<open>tokenId\<close>; the result is a position whose amounts
  are \<^verbatim>\<open>None\<close>.
\<close>

theorem extract_position_data_amounts_counterexample:
  "extract_position_data ex_mint_call_no_amounts =
     Inr (Some (ex_mint_position\<lparr>mint_amount0 := None, mint_amount1 := None,
                                 mint_amount0_afterdecimals := None, mint_amount1_afterdecimals := None,
                                 mint_amount_weth := None, mint_amount_usdt := None\<rparr>))
   \<and> \<not> has_named ''amount0'' (Returns ex_mint_call_no_amounts)
   \<and> \<not> has_named ''amount1'' (Returns ex_mint_call_no_amounts)
   \<and> \<not> has_at_index 2 (Returns ex_mint_call_no_amounts)
   \<and> \<not> has_at_index 3 (Returns ex_mint_call_no_amounts)"
  by (simp add: extract_position_data_def extract_position_body_def ex_mint_call_no_amounts_def
        ex_mint_arguments_def ex_mint_position_def read_mint_return_values_def py_int_def
        read_timestamp_def normalize_address_def lower_def lower_char_def char_of_def
        WETH_ADDRESS_def USDT_ADDRESS_def WETH_DECIMALS_def USDT_DECIMALS_def
        calculate_price_from_tick_def calculate_price_with_decimals_def build_position_def
        Let_def power_int_minus has_named_def has_at_index_def)

section \<open>C4: when a position is rejected\<close>

lemma validate_position_prices_True_iff:
  "validate_position_prices p mn mx \<longleftrightarrow>
     (\<exists>lower upper. price_lower_afterdecimals p = Some lower \<and> price_upper_afterdecimals p = Some upper \<and>
        mn \<le> lower \<and> upper \<le> mx \<and> lower < upper \<and>
        MIN_PRICE_THRESHOLD \<le> lower \<and> upper \<le> MAX_PRICE_THRESHOLD \<and>
        validate_amounts (pos_amount_weth p) (pos_amount_usdt p))"
  by (auto simp: validate_position_prices_def split: option.splits)

text \<open>
  Claim C4. \<^verbatim>\<open>validate_position_prices\<close> returns \<^verbatim>\<open>False\<close> exactly when a decimals-adjusted
  bound is missing, or \<open>lower \<ge> upper\<close>, or \<open>lower < min_reasonable\<close>, or
  \<open>upper > max_reasonable\<close>, or one of the two bounds lies outside the fixed interval from
  \<open>MIN_PRICE_THRESHOLD\<close> to \<open>MAX_PRICE_THRESHOLD\<close>, or the amounts fail
  \<^verbatim>\<open>validate_amounts\<close>; in every other case it returns \<^verbatim>\<open>True\<close>. The code tests only the
  lower bound against the lower threshold and the upper bound against the upper one; the
  two other comparisons follow from \<open>lower < upper\<close>.
\<close>

theorem validate_position_prices_False_iff:
  "validate_position_prices p min_reasonable max_reasonable = False \<longleftrightarrow>
     price_lower_afterdecimals p = None \<or> price_upper_afterdecimals p = None \<or>
     (\<exists>lower upper.
        price_lower_afterdecimals p = Some lower \<and> price_upper_afterdecimals p = Some upper \<and>
        (lower \<ge> upper \<or> lower < min_reasonable \<or> upper > max_reasonable \<or>
         lower < MIN_PRICE_THRESHOLD \<or> lower > MAX_PRICE_THRESHOLD \<or>
         upper < MIN_PRICE_THRESHOLD \<or> upper > MAX_PRICE_THRESHOLD)) \<or>
     \<not> validate_amounts (pos_amount_weth p) (pos_amount_usdt p)"
proof (cases "price_lower_afterdecimals p")
  case None
  then show ?thesis by (simp add: validate_position_prices_def)
next
  case lo: (Some lower)
  show ?thesis
  proof (cases "price_upper_afterdecimals p")
    case None
    then show ?thesis by (simp add: validate_position_prices_def lo)
  next
    case up: (Some upper)
    have "MIN_PRICE_THRESHOLD \<le> MAX_PRICE_THRESHOLD"
      by (simp add: MIN_PRICE_THRESHOLD_def MAX_PRICE_THRESHOLD_def)
    then show ?thesis
      unfolding validate_position_prices_True_iff lo up by auto
  qed
qed

theorem validate_position_prices_False_iff_witness:
  "validate_position_prices ex_far_position 0 (10 ^ 11) = False
   \<and> validate_position_prices ex_position 100 100000 = True"
  using validate_position_prices_False_iff [of ex_far_position 0 "10 ^ 11"]
        validate_position_prices_False_iff [of ex_position 100 100000]
  by (simp add: ex_far_position_def ex_position_def validate_amounts_def isnan_def isinf_def
        MAX_WETH_def MAX_USDT_def MIN_PRICE_THRESHOLD_def MAX_PRICE_THRESHOLD_def)


section \<open>C5: a filtered request on a warm cache\<close>

lemma attach_volumes_props:
  "attach_volumes f bands = (bands', calls) \<Longrightarrow>
     map bin.truncate bands' = map bin.truncate bands \<and>
     map total_liquidity bands' = map total_liquidity bands \<and>
     length calls \<le> length bands \<and>
     (\<forall>call \<in> set calls. \<exists>lo hi. call = FetchTradingVolume lo hi)"
proof (induction bands arbitrary: bands' calls)
  case Nil
  then show ?case by simp
next
  case (Cons band rest)
  obtain rest' calls' where r: "attach_volumes f rest = (rest', calls')"
    by (cases "attach_volumes f rest")
  from Cons.IH [OF r] Cons.prems r show ?case
    by (auto simp: Let_def bin.truncate_def split: if_splits option.splits)
qed

lemma recommend_top_bands_props:
  "recommend_top_bands bins n (Some f) = (r, calls) \<Longrightarrow>
     metadata r = None \<and>
     map bin.truncate (top_liquidity_bands r) = map bin.truncate (get_top_liquidity_bands bins n) \<and>
     map total_liquidity (top_liquidity_bands r) = map total_liquidity (get_top_liquidity_bands bins n) \<and>
     length calls \<le> n \<and>
     (\<forall>call \<in> set calls. \<exists>lo hi. call = FetchTradingVolume lo hi)"
proof -
  assume a: "recommend_top_bands bins n (Some f) = (r, calls)"
  obtain bands' where b: "attach_volumes f (get_top_liquidity_bands bins n) = (bands', calls)"
    and r: "r = \<lparr>top_liquidity_bands = bands', metadata = None\<rparr>"
    using a by (auto simp: recommend_top_bands_def Let_def split: prod.splits)
  have "length (get_top_liquidity_bands bins n) \<le> n"
    by (simp add: get_top_liquidity_bands_def)
  with attach_volumes_props [OF b] r show ?thesis by auto
qed

text \<open>
  Claim C5, amended. For a request with at least one price filter, when the cache holds
  bins and a timestamp less than 10 minutes old, \<^verbatim>\<open>get_recommendations_data\<close> keeps the
  cached bins that meet the filter (both bounds: \<open>bin_lower \<le> upper\<close> and
  \<open>bin_upper \<ge> lower\<close>; only lower: \<open>bin_upper \<ge> lower\<close>; only upper:
  \<open>bin_lower \<le> upper\<close>), recommends the top 3 of them, attaches fresh metadata (the cached
  position count, the counts of the kept bins, the current date, the cached timestamp and
  the filters) and leaves the cache unchanged. The only upstream queries are the trading
  volume queries of the recommender, at most 3: the mint positions and the liquidity events
  are not fetched.
\<close>

theorem warm_cache_serves_filtered_request:
  assumes filters: "price_lower \<noteq> None \<or> price_upper \<noteq> None"
      and bins: "c_bins c = Some bins"
      and ts: "c_timestamp c = Some ts"
      and fresh: "(now e - ts) / 60 < 10"
  shows "let kept = filter (\<lambda>b. case (price_lower, price_upper) of
                                   (Some lo, Some up) \<Rightarrow> priceLower b \<le> up \<and> priceUpper b \<ge> lo
                                 | (Some lo, None) \<Rightarrow> priceUpper b \<ge> lo
                                 | (None, Some up) \<Rightarrow> priceLower b \<le> up
                                 | (None, None) \<Rightarrow> True) bins;
             (r, calls) = recommend_top_bands kept 3 (Some (fetch_trading_volume e))
         in get_recommendations_data e c use_cache price_lower price_upper =
              (Data (r\<lparr>metadata := Some
                        \<lparr>total_positions = (case c_total_positions c of None \<Rightarrow> 0 | Some n \<Rightarrow> n),
                         total_bins = length kept,
                         bins_with_positions = length (filter (\<lambda>b. count_nfts b > 0) kept),
                         analysis_date = utcnow e,
                         time_range_hours = 240,
                         cache_timestamp = ts,
                         price_filter_lower = price_lower,
                         price_filter_upper = price_upper\<rparr>\<rparr>),
               c, calls)
            \<and> map bin.truncate (top_liquidity_bands r) = map bin.truncate (get_top_liquidity_bands kept 3)
            \<and> length calls \<le> 3
            \<and> (\<forall>call \<in> set calls. \<exists>lo hi. call = FetchTradingVolume lo hi)"
proof -
  define kept where "kept = filter (\<lambda>b. case (price_lower, price_upper) of
                                   (Some lo, Some up) \<Rightarrow> priceLower b \<le> up \<and> priceUpper b \<ge> lo
                                 | (Some lo, None) \<Rightarrow> priceUpper b \<ge> lo
                                 | (None, Some up) \<Rightarrow> priceLower b \<le> up
                                 | (None, None) \<Rightarrow> True) bins"
  have kept: "filter_bins_by_price_range bins price_lower price_upper = kept"
    using filters unfolding kept_def
    by (auto simp: filter_bins_by_price_range_def bin_overlaps_range_def Let_def
             intro!: filter_cong split: option.splits)
  obtain r calls where rc: "recommend_top_bands kept 3 (Some (fetch_trading_volume e)) = (r, calls)"
    by (cases "recommend_top_bands kept 3 (Some (fetch_trading_volume e))")
  have "get_recommendations_data e c use_cache price_lower price_upper =
          (Data (r\<lparr>metadata := Some
                        \<lparr>total_positions = (case c_total_positions c of None \<Rightarrow> 0 | Some n \<Rightarrow> n),
                         total_bins = length kept,
                         bins_with_positions = length (filter (\<lambda>b. count_nfts b > 0) kept),
                         analysis_date = utcnow e,
                         time_range_hours = 240,
                         cache_timestamp = ts,
                         price_filter_lower = price_lower,
                         price_filter_upper = price_upper\<rparr>\<rparr>),
               c, calls)"
    using filters fresh
    by (simp add: get_recommendations_data_def bins ts cache_age_def CACHE_EXPIRATION_MINUTES_def
          serve_from_cached_bins_def kept rc count_bins_with_positions_def Let_def)
  with recommend_top_bands_props [OF rc] show ?thesis
    unfolding Let_def kept_def [symmetric] rc by simp
qed

theorem warm_cache_serves_filtered_request_witness:
  "fst (snd (get_recommendations_data ex_volume_env ex_warm_cache True (Some 1500) None)) = ex_warm_cache
   \<and> FetchMintPositions \<notin> set (snd (snd (get_recommendations_data ex_volume_env ex_warm_cache True (Some 1500) None)))"
proof -
  obtain r calls where
    rc: "recommend_top_bands (filter (\<lambda>b. 1500 \<le> priceUpper b) ex_tied_bins) 3
           (Some (fetch_trading_volume ex_volume_env)) = (r, calls)"
    by (cases "recommend_top_bands (filter (\<lambda>b. 1500 \<le> priceUpper b) ex_tied_bins) 3
                 (Some (fetch_trading_volume ex_volume_env))")
  have "(Some 1500 :: real option) \<noteq> None \<or> (None :: real option) \<noteq> None" by simp
  moreover have "c_bins ex_warm_cache = Some ex_tied_bins" by (simp add: ex_warm_cache_def)
  moreover have "c_timestamp ex_warm_cache = Some 0" by (simp add: ex_warm_cache_def)
  moreover have "(now ex_volume_env - 0) / 60 < 10" by (simp add: ex_volume_env_def)
  ultimately show ?thesis
    using rc warm_cache_serves_filtered_request
            [of "Some 1500" None ex_warm_cache ex_tied_bins 0 ex_volume_env True]
    by (auto simp: Let_def)
qed

text \<open>
  Claim C5 as stated fails in ``no upstream fetch'': the recommender is called with the
  volume fetch function, so a request served from the warm cache sends one trading volume
  query upstream for each selected band with positive bounds. Here three are sent.
\<close>

theorem warm_cache_volume_queries_counterexample:
  "snd (snd (get_recommendations_data ex_volume_env ex_warm_cache True (Some 1500) None)) =
     [FetchTradingVolume 2000 3000, FetchTradingVolume 1000 2000, FetchTradingVolume 3000 4000]"
  by (simp add: get_recommendations_data_def ex_warm_cache_def ex_volume_env_def ex_tied_bins_def
        cache_age_def CACHE_EXPIRATION_MINUTES_def serve_from_cached_bins_def
        filter_bins_by_price_range_def bin_overlaps_range_def recommend_top_bands_def
        get_top_liquidity_bands_def sorted_reverse_def bin_copy_with_liquidity_def
        calculate_total_liquidity_def bin.extend_def band.fields_def fetch_trading_volume_def
        Let_def)

section \<open>C6: what a refresh for a filtered request leaves in the cache\<close>

lemma attach_volumes_calls:
  "attach_volumes f bands = (bands', calls) \<Longrightarrow> FetchMintPositions \<notin> set calls"
proof (induction bands arbitrary: bands' calls)
  case Nil
  then show ?case by simp
next
  case (Cons band rest)
  obtain rest' calls' where r: "attach_volumes f rest = (rest', calls')"
    by (cases "attach_volumes f rest")
  from Cons.IH [OF r] Cons.prems r show ?case
    by (auto simp: Let_def split: if_splits option.splits)
qed

lemma recommend_top_bands_calls:
  "recommend_top_bands bins n f = (r, calls) \<Longrightarrow> FetchMintPositions \<notin> set calls"
  by (auto simp: recommend_top_bands_def Let_def split: prod.splits option.splits
           dest: attach_volumes_calls)

lemma serve_from_cached_bins_calls:
  "serve_from_cached_bins e c bins ts pl pu = (r, calls) \<Longrightarrow> FetchMintPositions \<notin> set calls"
  by (auto simp: serve_from_cached_bins_def Let_def split: prod.splits
           dest: recommend_top_bands_calls)

lemma refresh_cases:
  assumes "refresh e c pl pu = (r, c', calls)"
  shows "(c' = c \<and> (\<exists>m. r = Error m)) \<or>
         (\<exists>mints bins log d vcalls.
            fetch_and_bin e = (Inr (mints, bins), log) \<and>
            build_recommendations e (length mints) bins pl pu = (d, vcalls) \<and>
            r = Data d \<and> calls = log @ vcalls \<and>
            c_bins c' = Some bins \<and> c_total_positions c' = Some (length mints) \<and>
            c_timestamp c' = Some (now e) \<and>
            c_data c' = (if pl = None \<and> pu = None then Some d else c_data c))"
proof (cases "fetch_and_bin e")
  case (Pair res log)
  show ?thesis
  proof (cases res)
    case (Inl m)
    with Pair assms show ?thesis by (auto simp: refresh_def)
  next
    case (Inr mb)
    obtain mints bins where mb: "mb = (mints, bins)" by (cases mb)
    obtain d vcalls where b: "build_recommendations e (length mints) bins pl pu = (d, vcalls)"
      by (cases "build_recommendations e (length mints) bins pl pu")
    from Pair Inr mb b assms show ?thesis
      by (auto simp: refresh_def Let_def)
  qed
qed

lemma get_recommendations_data_cases:
  assumes "get_recommendations_data e c use_cache pl pu = (r, c', calls)"
  shows "(c' = c \<and> FetchMintPositions \<notin> set calls) \<or> refresh e c pl pu = (r, c', calls)"
  using assms unfolding get_recommendations_data_def Let_def
  by (auto split: if_splits option.splits prod.splits dest: serve_from_cached_bins_calls)

text \<open>
  Claim C6. In every cache that the server can reach: (1) a stored recommendation, when
  there is one, is the recommendation built without price filters from the bins of some
  refresh; (2) when a request with a price filter triggers a full refresh (the mint
  positions are fetched) that succeeds, the cache afterwards holds the unfiltered bin list
  of that refresh, the number of mint positions and the new timestamp, its recommendation
  slot is what it was before, and the returned result is the one built from the filtered
  bins.
\<close>

theorem cached_recommendation_is_unfiltered:
  assumes "reachable c"
  shows "(\<forall>d. c_data c = Some d \<longrightarrow>
            (\<exists>e mints bins log.
               fetch_and_bin e = (Inr (mints, bins), log) \<and>
               d = fst (build_recommendations e (length mints) bins None None)))
       \<and> (\<forall>e use_cache price_lower price_upper d c' calls.
            (price_lower \<noteq> None \<or> price_upper \<noteq> None) \<longrightarrow>
            get_recommendations_data e c use_cache price_lower price_upper = (Data d, c', calls) \<longrightarrow>
            FetchMintPositions \<in> set calls \<longrightarrow>
            (\<exists>mints bins log.
               fetch_and_bin e = (Inr (mints, bins), log) \<and>
               c_bins c' = Some bins \<and>
               c_total_positions c' = Some (length mints) \<and>
               c_timestamp c' = Some (now e) \<and>
               c_data c' = c_data c \<and>
               d = fst (build_recommendations e (length mints) bins price_lower price_upper)))"
proof
  from assms show "\<forall>d. c_data c = Some d \<longrightarrow>
            (\<exists>e mints bins log.
               fetch_and_bin e = (Inr (mints, bins), log) \<and>
               d = fst (build_recommendations e (length mints) bins None None))"
  proof (induction rule: reachable.induct)
    case start
    show ?case by (simp add: empty_cache_def)
  next
    case (step c e use_cache pl pu r c' calls)
    from get_recommendations_data_cases [OF step.hyps(2)] show ?case
    proof
      assume "c' = c \<and> FetchMintPositions \<notin> set calls"
      with step.IH show ?thesis by simp
    next
      assume "refresh e c pl pu = (r, c', calls)"
      from refresh_cases [OF this] step.IH show ?thesis
        by (elim disjE exE conjE) (simp, cases "pl = None \<and> pu = None", force, simp)
    qed
  qed
next
  show "\<forall>e use_cache price_lower price_upper d c' calls.
            (price_lower \<noteq> None \<or> price_upper \<noteq> None) \<longrightarrow>
            get_recommendations_data e c use_cache price_lower price_upper = (Data d, c', calls) \<longrightarrow>
            FetchMintPositions \<in> set calls \<longrightarrow>
            (\<exists>mints bins log.
               fetch_and_bin e = (Inr (mints, bins), log) \<and>
               c_bins c' = Some bins \<and>
               c_total_positions c' = Some (length mints) \<and>
               c_timestamp c' = Some (now e) \<and>
               c_data c' = c_data c \<and>
               d = fst (build_recommendations e (length mints) bins price_lower price_upper))"
  proof (intro allI impI)
    fix e use_cache price_lower price_upper d c' calls
    assume f: "price_lower \<noteq> None \<or> price_upper \<noteq> None"
      and g: "get_recommendations_data e c use_cache price_lower price_upper = (Data d, c', calls)"
      and m: "FetchMintPositions \<in> set calls"
    from get_recommendations_data_cases [OF g] m
    have "refresh e c price_lower price_upper = (Data d, c', calls)" by blast
    from refresh_cases [OF this] f
    show "\<exists>mints bins log.
               fetch_and_bin e = (Inr (mints, bins), log) \<and>
               c_bins c' = Some bins \<and>
               c_total_positions c' = Some (length mints) \<and>
               c_timestamp c' = Some (now e) \<and>
               c_data c' = c_data c \<and>
               d = fst (build_recommendations e (length mints) bins price_lower price_upper)"
      by (elim disjE exE conjE) auto
  qed
qed

theorem cached_recommendation_is_unfiltered_witness:
  "c_data (fst (snd (get_recommendations_data ex_live_env empty_cache True (Some 3000) None))) = None
   \<and> c_total_positions (fst (snd (get_recommendations_data ex_live_env empty_cache True (Some 3000) None)))
       = Some 1
   \<and> c_timestamp (fst (snd (get_recommendations_data ex_live_env empty_cache True (Some 3000) None)))
       = Some 60
   \<and> c_bins (fst (snd (get_recommendations_data ex_live_env empty_cache True (Some 3000) None))) \<noteq> None"
proof -
  let ?calls = "[FetchMintPositions, FetchLiquidityEvents [42]]"
  from fetch_and_bin_ex_live_env obtain bins where
    fb: "fetch_and_bin ex_live_env = (Inr ([ex_live_position], bins), ?calls)" ..
  obtain d vcalls where
    b: "build_recommendations ex_live_env (length [ex_live_position]) bins (Some 3000) None = (d, vcalls)"
    by (cases "build_recommendations ex_live_env (length [ex_live_position]) bins (Some 3000) None")
  define c' where "c' = fst (snd (get_recommendations_data ex_live_env empty_cache True (Some 3000) None))"
  have g: "get_recommendations_data ex_live_env empty_cache True (Some 3000) None
             = (Data d, c', ?calls @ vcalls)"
    using b unfolding c'_def
    by (simp add: get_recommendations_data_def empty_cache_def refresh_def fb Let_def)
  have "(Some 3000 :: real option) \<noteq> None \<or> (None :: real option) \<noteq> None" by simp
  moreover have "FetchMintPositions \<in> set (?calls @ vcalls)" by simp
  ultimately obtain mints bins' log where
    "fetch_and_bin ex_live_env = (Inr (mints, bins'), log)"
    "c_bins c' = Some bins'" "c_total_positions c' = Some (length mints)"
    "c_timestamp c' = Some (now ex_live_env)" "c_data c' = c_data empty_cache"
    using cached_recommendation_is_unfiltered [OF reachable.start] g by blast
  with fb show ?thesis
    unfolding c'_def [symmetric] by (auto simp: ex_live_env_def empty_cache_def)
qed

section \<open>C7: the status of a failed mint fetch\<close>

lemma fetch_and_bin_not_200:
  "status_code (mint_http e) \<noteq> 200 \<Longrightarrow>
   fetch_and_bin e = (Inl ''Failed to fetch mint positions'', [FetchMintPositions])"
  by (simp add: fetch_and_bin_def fetch_mint_positions_def Let_def)

text \<open>
  Claim C7 at a failing input: the mint query is answered with status 503, the cache is
  empty, the request has no filter. \<^verbatim>\<open>fetch_mint_positions\<close> returns no data for every status
  other than 200, so the error text is \<^verbatim>\<open>Failed to fetch mint positions\<close>, which does not
  contain \<^verbatim>\<open>fetching\<close>: the request boundary answers 404, not 500.
\<close>

theorem api_recommendations_fetch_failure_status:
  "api_recommendations ex_volume_env empty_cache None None False =
     ((Error ''Failed to fetch mint positions'', 404), empty_cache, [FetchMintPositions])"
proof -
  have "status_code (mint_http ex_volume_env) \<noteq> 200" by (simp add: ex_volume_env_def)
  then have "fetch_and_bin ex_volume_env = (Inl ''Failed to fetch mint positions'', [FetchMintPositions])"
    by (rule fetch_and_bin_not_200)
  then have "get_recommendations_data ex_volume_env empty_cache True None None =
           (Error ''Failed to fetch mint positions'', empty_cache, [FetchMintPositions])"
    by (simp add: get_recommendations_data_def refresh_def empty_cache_def)
  then show ?thesis
    by (simp add: api_recommendations_def lower_def lower_char_def char_of_def)
qed

section \<open>C8: the top bands are sorted, stably\<close>

lemma sorted_reverse_desc:
  "sorted_wrt (\<lambda>a b. f a \<ge> f b) (sorted_reverse f xs)"
proof -
  have "sorted (map f (sort_key f (rev xs)))" by (rule sorted_sort_key)
  then have "sorted_wrt (\<lambda>a b. f a \<le> f b) (sort_key f (rev xs))"
    by (simp add: sorted_map)
  then have "sorted_wrt (\<lambda>b a. f a \<le> f b) (rev (sort_key f (rev xs)))"
    by (simp add: sorted_wrt_rev)
  then show ?thesis by (simp add: sorted_reverse_def)
qed

lemma sorted_reverse_stable:
  "filter (\<lambda>y. f y = v) (sorted_reverse f xs) = filter (\<lambda>y. f y = v) xs"
proof -
  have "filter (\<lambda>y. f y = v) (sorted_reverse f xs)
          = rev (filter (\<lambda>y. f y = v) (sort_key f (rev xs)))"
    by (simp add: sorted_reverse_def rev_filter)
  also have "\<dots> = rev (filter (\<lambda>y. f y = v) (rev xs))"
    by (simp only: sort_key_stable)
  also have "\<dots> = filter (\<lambda>y. f y = v) xs"
    by (simp add: rev_filter)
  finally show ?thesis .
qed

lemma mset_sorted_reverse: "mset (sorted_reverse f xs) = mset xs"
  by (simp add: sorted_reverse_def)

lemma length_sorted_reverse: "length (sorted_reverse f xs) = length xs"
  by (simp add: sorted_reverse_def)

lemma filter_take_prefix: "prefix (filter P (take k xs)) (filter P xs)"
proof -
  have "filter P xs = filter P (take k xs) @ filter P (drop k xs)"
    by (simp only: filter_append [symmetric] append_take_drop_id)
  then show ?thesis by (simp add: prefix_def)
qed

lemma total_liquidity_copy:
  "total_liquidity (bin_copy_with_liquidity b) = calculate_total_liquidity b"
  by (simp add: bin_copy_with_liquidity_def bin.extend_def band.fields_def)

lemma copy_fields:
  "priceLower (bin_copy_with_liquidity b) = priceLower b"
  "priceUpper (bin_copy_with_liquidity b) = priceUpper b"
  "amount_weth (bin_copy_with_liquidity b) = amount_weth b"
  "amount_usdt (bin_copy_with_liquidity b) = amount_usdt b"
  "count_nfts (bin_copy_with_liquidity b) = count_nfts b"
  "bin_index (bin_copy_with_liquidity b) = bin_index b"
  "bin.truncate (bin_copy_with_liquidity b) = b"
  by (simp_all add: bin_copy_with_liquidity_def bin.extend_def band.fields_def bin.truncate_def)

lemma sorted_reverse_eq_sort_key:
  "sorted_reverse f xs = sort_key (\<lambda>x. - f x) xs"
proof (rule properties_for_sort_key [symmetric])
  show "mset (sorted_reverse f xs) = mset xs" by (rule mset_sorted_reverse)
next
  fix k assume "k \<in> set (sorted_reverse f xs)"
  have "filter (\<lambda>x. f x = f k) (sorted_reverse f xs) = filter (\<lambda>x. f x = f k) xs"
    by (rule sorted_reverse_stable)
  moreover have "(\<lambda>x. - f k = - f x) = (\<lambda>x. f x = f k)" by (rule ext) auto
  ultimately show "filter (\<lambda>x. - f k = - f x) (sorted_reverse f xs) = filter (\<lambda>x. - f k = - f x) xs"
    by (simp only:)
next
  have "sorted_wrt (\<lambda>a b. f a \<ge> f b) (sorted_reverse f xs)" by (rule sorted_reverse_desc)
  then show "sorted (map (\<lambda>x. - f x) (sorted_reverse f xs))"
    by (simp add: sorted_map)
qed

lemma sorted_copies_truncate:
  "map bin.truncate (sorted_reverse total_liquidity (map bin_copy_with_liquidity bins))
     = sort_key (\<lambda>b. - calculate_total_liquidity b) bins"
proof -
  let ?Q = "\<lambda>a b. a = bin_copy_with_liquidity b"
  have "list_all2 ?Q (map bin_copy_with_liquidity bins) bins"
    by (simp add: list_all2_conv_all_nth)
  then have "list_all2 ?Q (sort_key (\<lambda>a. - total_liquidity a) (map bin_copy_with_liquidity bins))
               (sort_key (\<lambda>b. - calculate_total_liquidity b) bins)"
    by (rule sort_key_rel) (simp add: total_liquidity_copy)
  then have "map bin.truncate (sort_key (\<lambda>a. - total_liquidity a) (map bin_copy_with_liquidity bins))
               = sort_key (\<lambda>b. - calculate_total_liquidity b) bins"
    by (auto simp: list_all2_conv_all_nth copy_fields intro: nth_equalityI)
  then show ?thesis by (simp only: sorted_reverse_eq_sort_key)
qed

text \<open>
  Claim C8. For every bin list and every count \<open>k\<close>, \<^verbatim>\<open>get_top_liquidity_bands\<close> returns
  \<open>min k (length bins)\<close> bands, in descending order of \<open>total_liquidity\<close>; every band is the
  copy of an input bin with \<open>total_liquidity = amount_usdt + amount_weth * mid_price\<close>, where
  \<open>mid_price\<close> is the midpoint of the bounds when both are positive and 0 otherwise; and the
  order is stable: for every value \<open>v\<close>, the returned bands of liquidity \<open>v\<close> are, in the
  same order, the first of the input bins of liquidity \<open>v\<close>. The bands are the first \<open>k\<close> of
  the whole sorted list: the selected bins are the first \<open>k\<close> of the input bins sorted stably
  by descending liquidity (ascending in the negated liquidity), so the bins left out are the
  remaining bins and none of them has more liquidity than a selected band.
\<close>

theorem get_top_liquidity_bands_sorted_stable:
  "length (get_top_liquidity_bands bins k) = min k (length bins)
   \<and> sorted_wrt (\<lambda>a b. total_liquidity a \<ge> total_liquidity b) (get_top_liquidity_bands bins k)
   \<and> (\<forall>b \<in> set (get_top_liquidity_bands bins k).
         bin.truncate b \<in> set bins \<and>
         total_liquidity b =
           amount_usdt b + amount_weth b *
             (if priceLower b > 0 \<and> priceUpper b > 0 then (priceLower b + priceUpper b) / 2 else 0))
   \<and> (\<forall>v. prefix (map bin.truncate (filter (\<lambda>b. total_liquidity b = v) (get_top_liquidity_bands bins k)))
                  (filter (\<lambda>b. calculate_total_liquidity b = v) bins))
   \<and> map bin.truncate (get_top_liquidity_bands bins k)
        = take k (sort_key (\<lambda>b. - calculate_total_liquidity b) bins)
   \<and> (\<exists>rest. mset (map bin.truncate (get_top_liquidity_bands bins k) @ rest) = mset bins \<and>
               (\<forall>b \<in> set (get_top_liquidity_bands bins k). \<forall>b' \<in> set rest.
                   calculate_total_liquidity b' \<le> total_liquidity b))"
proof (intro conjI ballI allI)
  let ?copies = "map bin_copy_with_liquidity bins"
  let ?s = "sorted_reverse total_liquidity ?copies"
  have top: "get_top_liquidity_bands bins k = take k ?s"
    by (simp add: get_top_liquidity_bands_def)
  show "length (get_top_liquidity_bands bins k) = min k (length bins)"
    by (simp add: top length_sorted_reverse min.commute)
  show "sorted_wrt (\<lambda>a b. total_liquidity a \<ge> total_liquidity b) (get_top_liquidity_bands bins k)"
    unfolding top by (rule sorted_wrt_take) (rule sorted_reverse_desc)
  have copies: "b \<in> set ?copies" if "b \<in> set ?s" for b
  proof -
    from that have "b \<in># mset ?s" by simp
    then show ?thesis by (simp only: mset_sorted_reverse set_mset_mset)
  qed
  {
    fix b assume "b \<in> set (get_top_liquidity_bands bins k)"
    then have "b \<in> set ?s" unfolding top by (rule in_set_takeD)
    then have "b \<in> set ?copies" by (rule copies)
    then obtain b0 where b0: "b0 \<in> set bins" and b: "b = bin_copy_with_liquidity b0" by auto
    show "bin.truncate b \<in> set bins" using b0 by (simp add: b copy_fields)
    show "total_liquidity b =
           amount_usdt b + amount_weth b *
             (if priceLower b > 0 \<and> priceUpper b > 0 then (priceLower b + priceUpper b) / 2 else 0)"
      by (simp add: b total_liquidity_copy copy_fields calculate_total_liquidity_def Let_def)
  }
  {
    fix v
    have "prefix (filter (\<lambda>b. total_liquidity b = v) (take k ?s)) (filter (\<lambda>b. total_liquidity b = v) ?s)"
      by (rule filter_take_prefix)
    then have "prefix (filter (\<lambda>b. total_liquidity b = v) (take k ?s)) (filter (\<lambda>b. total_liquidity b = v) ?copies)"
      by (simp only: sorted_reverse_stable)
    then have "prefix (map bin.truncate (filter (\<lambda>b. total_liquidity b = v) (take k ?s)))
                      (map bin.truncate (filter (\<lambda>b. total_liquidity b = v) ?copies))"
      by (rule map_mono_prefix)
    moreover have "map bin.truncate (filter (\<lambda>b. total_liquidity b = v) ?copies)
                     = filter (\<lambda>b. calculate_total_liquidity b = v) bins"
      by (induction bins) (simp_all add: total_liquidity_copy copy_fields)
    ultimately show "prefix (map bin.truncate (filter (\<lambda>b. total_liquidity b = v) (get_top_liquidity_bands bins k)))
                    (filter (\<lambda>b. calculate_total_liquidity b = v) bins)"
      by (simp only: top)
  }
  have all: "map bin.truncate ?s = sort_key (\<lambda>b. - calculate_total_liquidity b) bins"
    by (rule sorted_copies_truncate)
  show "map bin.truncate (get_top_liquidity_bands bins k)
        = take k (sort_key (\<lambda>b. - calculate_total_liquidity b) bins)"
    unfolding top by (simp only: take_map [symmetric] all)
  show "\<exists>rest. mset (map bin.truncate (get_top_liquidity_bands bins k) @ rest) = mset bins \<and>
               (\<forall>b \<in> set (get_top_liquidity_bands bins k). \<forall>b' \<in> set rest.
                   calculate_total_liquidity b' \<le> total_liquidity b)"
  proof (intro exI conjI ballI)
    let ?rest = "map bin.truncate (drop k ?s)"
    have "map bin.truncate (take k ?s) @ ?rest = map bin.truncate ?s"
      by (simp only: map_append [symmetric] append_take_drop_id)
    then have "mset (map bin.truncate (take k ?s) @ ?rest) = mset (map bin.truncate ?s)"
      by (simp only:)
    also have "\<dots> = mset bins" by (simp only: all mset_sort)
    finally show "mset (map bin.truncate (get_top_liquidity_bands bins k) @ ?rest) = mset bins"
      by (simp only: top)
  next
    fix b b' assume b: "b \<in> set (get_top_liquidity_bands bins k)"
      and b': "b' \<in> set (map bin.truncate (drop k ?s))"
    from b' obtain c where c: "c \<in> set (drop k ?s)" and b'c: "b' = bin.truncate c" by auto
    from c have "c \<in> set ?s" by (rule in_set_dropD)
    then have "c \<in> set ?copies" by (rule copies)
    then have liq: "calculate_total_liquidity b' = total_liquidity c"
      by (auto simp: b'c copy_fields total_liquidity_copy)
    have "sorted_wrt (\<lambda>a b. total_liquidity a \<ge> total_liquidity b) (take k ?s @ drop k ?s)"
      by (simp only: append_take_drop_id sorted_reverse_desc)
    then have "\<forall>x \<in> set (take k ?s). \<forall>y \<in> set (drop k ?s). total_liquidity y \<le> total_liquidity x"
      unfolding sorted_wrt_append by blast
    with b c have "total_liquidity c \<le> total_liquidity b"
      unfolding top by blast
    with liq show "calculate_total_liquidity b' \<le> total_liquidity b" by simp
  qed
qed

theorem get_top_liquidity_bands_sorted_stable_witness:
  "get_top_liquidity_bands ex_tied_bins 2 =
     [bin_copy_with_liquidity (ex_tied_bins ! 1), bin_copy_with_liquidity (ex_tied_bins ! 0)]
   \<and> length (get_top_liquidity_bands ex_tied_bins 2) = 2
   \<and> sorted_wrt (\<lambda>a b. total_liquidity a \<ge> total_liquidity b) (get_top_liquidity_bands ex_tied_bins 2)
   \<and> prefix (map bin.truncate (filter (\<lambda>b. total_liquidity b = 3000)
                                   (get_top_liquidity_bands ex_tied_bins 2)))
            [ex_tied_bins ! 0, ex_tied_bins ! 2]
   \<and> map bin.truncate (get_top_liquidity_bands ex_tied_bins 1) = [ex_tied_bins ! 1]
   \<and> map calculate_total_liquidity (map bin.truncate (get_top_liquidity_bands ex_tied_bins 1)) = [5000]"
proof -
  have ev: "get_top_liquidity_bands ex_tied_bins 2 =
     [bin_copy_with_liquidity (ex_tied_bins ! 1), bin_copy_with_liquidity (ex_tied_bins ! 0)]"
    by (simp add: get_top_liquidity_bands_def sorted_reverse_def ex_tied_bins_def
          bin_copy_with_liquidity_def calculate_total_liquidity_def bin.extend_def band.fields_def)
  have fl: "filter (\<lambda>b. calculate_total_liquidity b = 3000) ex_tied_bins = [ex_tied_bins ! 0, ex_tied_bins ! 2]"
    by (simp add: ex_tied_bins_def calculate_total_liquidity_def)
  have srt: "take 1 (sort_key (\<lambda>b. - calculate_total_liquidity b) ex_tied_bins) = [ex_tied_bins ! 1]"
    by (simp add: ex_tied_bins_def calculate_total_liquidity_def)
  have liq: "calculate_total_liquidity (ex_tied_bins ! 1) = 5000"
    by (simp add: ex_tied_bins_def calculate_total_liquidity_def)
  from get_top_liquidity_bands_sorted_stable [of ex_tied_bins 2]
  have "length (get_top_liquidity_bands ex_tied_bins 2) = min 2 (length ex_tied_bins)"
    and "sorted_wrt (\<lambda>a b. total_liquidity a \<ge> total_liquidity b) (get_top_liquidity_bands ex_tied_bins 2)"
    and "prefix (map bin.truncate (filter (\<lambda>b. total_liquidity b = 3000)
                                   (get_top_liquidity_bands ex_tied_bins 2)))
            (filter (\<lambda>b. calculate_total_liquidity b = 3000) ex_tied_bins)"
    by blast+
  moreover from get_top_liquidity_bands_sorted_stable [of ex_tied_bins 1]
  have "map bin.truncate (get_top_liquidity_bands ex_tied_bins 1)
          = take 1 (sort_key (\<lambda>b. - calculate_total_liquidity b) ex_tied_bins)"
    by blast
  then have "map bin.truncate (get_top_liquidity_bands ex_tied_bins 1) = [ex_tied_bins ! 1]"
    by (simp only: srt)
  ultimately show ?thesis using ev fl liq by (simp add: ex_tied_bins_def)
qed

section \<open>C9: the order of the liquidity calls does not matter\<close>

lemma process_call_as_merge:
  "process_call c m =
     (case process_call c Map.empty of Inl e \<Rightarrow> Inl e | Inr m0 \<Rightarrow> Inr (merge_deltas m0 m))"
proof -
  have empty: "merge_deltas Map.empty m = m"
    by (rule ext) (simp add: merge_deltas_def)
  have upd: "\<And>k K.
     m(k \<mapsto> plus_delta K (case m k of None \<Rightarrow> zero_delta | Some d \<Rightarrow> d))
     = merge_deltas (Map.empty(k \<mapsto> plus_delta K zero_delta)) m"
    by (rule ext) (simp add: merge_deltas_def plus_delta_def zero_delta_def)
  have dec: "\<And>d a0 a1. d\<lparr>total_amount0 := total_amount0 d - a0, total_amount1 := total_amount1 d - a1,
                   event_count := event_count d + 1\<rparr>
              = plus_delta \<lparr>event_count = 1, total_amount0 = - a0, total_amount1 = - a1\<rparr> d"
    by (simp add: plus_delta_def)
  have inc: "\<And>d a0 a1. d\<lparr>event_count := event_count d + 1, total_amount0 := total_amount0 d + a0,
                   total_amount1 := total_amount1 d + a1\<rparr>
              = plus_delta \<lparr>event_count = 1, total_amount0 = a0, total_amount1 = a1\<rparr> d"
    by (simp add: plus_delta_def)
  note defs = process_call_def Let_def dec inc
  show ?thesis
  proof (cases "Signature_Name c \<in> set [''increaseLiquidity'', ''decreaseLiquidity'']")
    case False
    then show ?thesis by (simp add: defs empty)
  next
    case sig: True
    show ?thesis
    proof (cases "call_nft_id (Arguments c)")
      case (Inl e)
      with sig show ?thesis unfolding defs by simp
    next
      case found: (Inr found)
      show ?thesis
      proof (cases found)
        case None
        with sig found show ?thesis unfolding defs by (simp add: empty)
      next
        case (Some k)
        show ?thesis
        proof (cases "read_liquidity_returns (Returns c) (None, None)")
          case (Inl e)
          with sig found Some show ?thesis unfolding defs by simp
        next
          case (Inr ab)
          obtain a0 a1 where ab: "ab = (a0, a1)" by (cases ab)
          show ?thesis
          proof (cases "if a0 = None \<or> a1 = None
                        then read_amounts_by_index 1 2 0 (Returns c) (a0, a1) else Inr (a0, a1)")
            case (Inl e)
            with sig found Some Inr ab show ?thesis unfolding defs by simp
          next
            case fb: (Inr cd)
            obtain b0 b1 where cd: "cd = (b0, b1)" by (cases cd)
            from sig found Some Inr ab fb cd show ?thesis
              unfolding defs by (simp add: upd)
          qed
        qed
      qed
    qed
  qed
qed

lemma merge_deltas_commute:
  "merge_deltas a (merge_deltas b m) = merge_deltas b (merge_deltas a m)"
  by (rule ext) (simp add: merge_deltas_def plus_delta_def zero_delta_def split: option.splits)

lemma fold_exn_process_call:
  "fold_exn process_call xs m = Inr m' \<longleftrightarrow>
     (\<forall>x \<in> set xs. \<exists>m0. process_call x Map.empty = Inr m0) \<and>
     m' = fold (\<lambda>x. merge_deltas (projr (process_call x Map.empty))) xs m"
proof (induction xs arbitrary: m)
  case Nil
  show ?case by auto
next
  case (Cons x xs)
  show ?case
  proof (cases "process_call x Map.empty")
    case (Inl e)
    then have "process_call x m = Inl e" by (subst process_call_as_merge) simp
    with Inl show ?thesis by simp
  next
    case (Inr m0)
    then have "process_call x m = Inr (merge_deltas m0 m)" by (subst process_call_as_merge) simp
    with Inr Cons.IH [of "merge_deltas m0 m"] show ?thesis by simp
  qed
qed

text \<open>
  Claim C9. For every list of call records and every permutation of it (and any fixed list
  of events processed before), \<^verbatim>\<open>parse_liquidity_events\<close> returns the mapping \<open>nft_data\<close> on
  the one exactly when it returns \<open>nft_data\<close> on the other: the per-identifier count and net
  totals do not depend on the order of the calls. (If a conversion raises in one order, one
  raises in the other order too.)
\<close>

theorem parse_liquidity_events_order_independent:
  assumes "mset calls = mset calls'"
  shows "parse_liquidity_events (Some \<lparr>Events = events, Calls = calls\<rparr>) = Inr nft_data
         \<longleftrightarrow> parse_liquidity_events (Some \<lparr>Events = events, Calls = calls'\<rparr>) = Inr nft_data"
proof -
  let ?u = "\<lambda>x. merge_deltas (projr (process_call x Map.empty))"
  have comm: "\<And>x y. ?u x \<circ> ?u y = ?u y \<circ> ?u x"
    by (rule ext) (simp add: merge_deltas_commute)
  have fold_eq: "fold ?u calls = fold ?u calls'"
    by (rule fold_multiset_equiv) (use assms comm in auto)
  have set_eq: "set calls = set calls'"
    using assms by (rule mset_eq_setD)
  have "fold_exn process_call calls m = Inr nft_data \<longleftrightarrow> fold_exn process_call calls' m = Inr nft_data" for m
    unfolding fold_exn_process_call fold_eq set_eq ..
  then show ?thesis
    by (cases "fold_exn process_event events Map.empty") (simp_all add: parse_liquidity_events_def)
qed

theorem parse_liquidity_events_order_independent_witness:
  "parse_liquidity_events (Some \<lparr>Events = [], Calls = [ex_increase_call, ex_decrease_call]\<rparr>)
     = Inr (Map.empty(5 \<mapsto> \<lparr>event_count = 2, total_amount0 = 7, total_amount1 = 16\<rparr>))
   \<and> parse_liquidity_events (Some \<lparr>Events = [], Calls = [ex_decrease_call, ex_increase_call]\<rparr>)
     = Inr (Map.empty(5 \<mapsto> \<lparr>event_count = 2, total_amount0 = 7, total_amount1 = 16\<rparr>))"
proof -
  have ev: "parse_liquidity_events (Some \<lparr>Events = [], Calls = [ex_increase_call, ex_decrease_call]\<rparr>)
     = Inr (Map.empty(5 \<mapsto> \<lparr>event_count = 2, total_amount0 = 7, total_amount1 = 16\<rparr>))"
    by (simp add: parse_liquidity_events_def process_call_def ex_increase_call_def ex_decrease_call_def
          ex_liquidity_call_def py_int_def zero_delta_def present_or_0_def Let_def numeral_2_eq_2)
  have "mset [ex_increase_call, ex_decrease_call] = mset [ex_decrease_call, ex_increase_call]"
    by simp
  from parse_liquidity_events_order_independent [OF this] ev show ?thesis by simp
qed

section \<open>C10: the cached bins are not written to\<close>

lemma dict_set_frame:
  "length (dict_set s a k v) = length s" "b \<noteq> a \<Longrightarrow> dict_set s a k v ! b = s ! b"
  by (simp_all add: dict_set_def)

lemma copy_bins_with_liquidity_frame:
  "copy_bins_with_liquidity bins s = (copies, s') \<Longrightarrow>
     length s' = length s + length bins \<and>
     (\<forall>a < length s. s' ! a = s ! a) \<and>
     copies = [length s ..< length s + length bins] \<and>
     (\<forall>c \<in> set copies. ''total_liquidity'' \<in> dom (s' ! c))"
proof (induction bins arbitrary: s copies s')
  case Nil
  then show ?case by simp
next
  case (Cons b rest)
  let ?s1 = "dict_set (s @ [s ! b]) (length s) ''total_liquidity'' (calculate_total_liquidity_dict (s ! b))"
  obtain copies1 s1 where rec: "copy_bins_with_liquidity rest ?s1 = (copies1, s1)"
    by (cases "copy_bins_with_liquidity rest ?s1")
  with Cons.prems have c: "copies = length s # copies1" and s': "s' = s1"
    by (simp_all add: Let_def dict_copy_def)
  have len1: "length ?s1 = Suc (length s)" by (simp add: dict_set_frame)
  have old1: "\<forall>a < length s. ?s1 ! a = s ! a"
    by (simp add: dict_set_frame nth_append)
  have new1: "''total_liquidity'' \<in> dom (?s1 ! length s)"
    by (simp add: dict_set_def)
  note IH = Cons.IH [OF rec]
  from IH len1 have len: "length s1 = length s + length (b # rest)" by simp
  from IH old1 len1 have old: "\<forall>a < length s. s1 ! a = s ! a" by simp
  from IH have "copies1 = [length ?s1 ..< length ?s1 + length rest]" by blast
  then have cs: "copies1 = [Suc (length s) ..< length s + length (b # rest)]"
    by (simp only: len1 add_Suc add_Suc_right length_Cons)
  have "[length s ..< length s + length (b # rest)]
          = length s # [Suc (length s) ..< length s + length (b # rest)]"
    by (rule upt_conv_Cons) simp
  with cs have copies: "length s # copies1 = [length s ..< length s + length (b # rest)]"
    by (simp only:)
  from IH len1 new1 have "''total_liquidity'' \<in> dom (s1 ! length s)" by simp
  with IH have keys: "\<forall>c \<in> set (length s # copies1). ''total_liquidity'' \<in> dom (s1 ! c)" by simp
  from len old copies keys show ?case unfolding c s' by blast
qed

lemma sort_keys_total:
  "\<forall>x \<in> set xs. ''total_liquidity'' \<in> dom (s ! x) \<Longrightarrow>
   \<exists>keyed. sort_keys s xs = Inr keyed \<and> map fst keyed = xs"
  by (induction xs) (auto simp: dict_item_def)

lemma attach_volumes_refs_frame:
  "attach_volumes_refs f bands s = (s', calls) \<Longrightarrow>
     length s' = length s \<and> (\<forall>a. a \<notin> set bands \<longrightarrow> s' ! a = s ! a)"
proof (induction bands arbitrary: s s' calls)
  case Nil
  then show ?case by simp
next
  case (Cons band rest)
  from Cons.prems have "\<exists>v c2.
      attach_volumes_refs f rest (dict_set s band ''trading_volume_24h'' v) = (s', c2)"
    by (auto simp: Let_def split: if_splits option.splits prod.splits)
  then obtain v c2 where
    rec: "attach_volumes_refs f rest (dict_set s band ''trading_volume_24h'' v) = (s', c2)"
    by blast
  have s1: "length (dict_set s band ''trading_volume_24h'' v) = length s"
    "\<forall>a. a \<noteq> band \<longrightarrow> dict_set s band ''trading_volume_24h'' v ! a = s ! a"
    by (simp_all add: dict_set_frame)
  from Cons.IH [OF rec] s1 show ?case by simp
qed


lemma dict_set_other_key:
  "key' \<noteq> key \<Longrightarrow> (dict_set s a key v ! b) key' = (s ! b) key'"
  by (cases "a < length s"; cases "b = a") (simp_all add: dict_set_def list_update_beyond)

lemma copy_bins_with_liquidity_copies:
  "copy_bins_with_liquidity bins s = (copies, s') \<Longrightarrow> \<forall>b \<in> set bins. b < length s \<Longrightarrow>
     \<forall>i < length bins.
       s' ! (length s + i) =
         (s ! (bins ! i))(''total_liquidity'' \<mapsto> calculate_total_liquidity_dict (s ! (bins ! i)))"
proof (induction bins arbitrary: s copies s')
  case Nil
  then show ?case by simp
next
  case (Cons b rest)
  let ?s1 = "dict_set (s @ [s ! b]) (length s) ''total_liquidity'' (calculate_total_liquidity_dict (s ! b))"
  obtain copies1 s1 where rec: "copy_bins_with_liquidity rest ?s1 = (copies1, s1)"
    by (cases "copy_bins_with_liquidity rest ?s1")
  with Cons.prems(1) have s': "s' = s1"
    by (simp add: Let_def dict_copy_def)
  have len1: "length ?s1 = Suc (length s)" by (simp add: dict_set_frame)
  have old1: "\<forall>a < length s. ?s1 ! a = s ! a"
    by (simp add: dict_set_frame nth_append)
  have new1: "?s1 ! length s = (s ! b)(''total_liquidity'' \<mapsto> calculate_total_liquidity_dict (s ! b))"
    by (simp add: dict_set_def)
  from Cons.prems(2) len1 have alloc: "\<forall>b \<in> set rest. b < length ?s1" by auto
  note frame = copy_bins_with_liquidity_frame [OF rec]
  note IH = Cons.IH [OF rec alloc]
  show ?case
  proof (intro allI impI)
    fix i assume i: "i < length (b # rest)"
    show "s' ! (length s + i) =
            (s ! ((b # rest) ! i))(''total_liquidity'' \<mapsto> calculate_total_liquidity_dict (s ! ((b # rest) ! i)))"
    proof (cases i)
      case 0
      from frame len1 have "s1 ! length s = ?s1 ! length s" by simp
      with new1 0 show ?thesis by (simp add: s')
    next
      case (Suc j)
      with i have j: "j < length rest" by simp
      then have "rest ! j \<in> set rest" by simp
      with Cons.prems(2) have "rest ! j < length s" by simp
      with old1 have same: "?s1 ! (rest ! j) = s ! (rest ! j)" by simp
      from IH j have "s1 ! (length ?s1 + j) =
          (?s1 ! (rest ! j))(''total_liquidity'' \<mapsto> calculate_total_liquidity_dict (?s1 ! (rest ! j)))"
        by blast
      then show ?thesis unfolding same len1 s' Suc by simp
    qed
  qed
qed

lemma attach_volumes_refs_keys:
  "attach_volumes_refs f bands s = (s', calls) \<Longrightarrow>
     key \<noteq> ''trading_volume_24h'' \<Longrightarrow> (s' ! a) key = (s ! a) key"
proof (induction bands arbitrary: s s' calls)
  case Nil
  then show ?case by simp
next
  case (Cons band rest)
  from Cons.prems(1) have "\<exists>v c2.
      attach_volumes_refs f rest (dict_set s band ''trading_volume_24h'' v) = (s', c2)"
    by (auto simp: Let_def split: if_splits option.splits prod.splits)
  then obtain v c2 where
    rec: "attach_volumes_refs f rest (dict_set s band ''trading_volume_24h'' v) = (s', c2)"
    by blast
  from Cons.IH [OF rec Cons.prems(2)] dict_set_other_key [OF Cons.prems(2)] show ?case by simp
qed

lemma attach_volumes_refs_written:
  "attach_volumes_refs f bands s = (s', calls) \<Longrightarrow>
     (\<forall>a < length s. dom (s ! a) \<subseteq> dom (s' ! a)) \<and>
     (\<forall>band \<in> set bands. band < length s \<longrightarrow> ''trading_volume_24h'' \<in> dom (s' ! band))"
proof (induction bands arbitrary: s s' calls)
  case Nil
  then show ?case by simp
next
  case (Cons band rest)
  from Cons.prems(1) have "\<exists>v c2.
      attach_volumes_refs f rest (dict_set s band ''trading_volume_24h'' v) = (s', c2)"
    by (auto simp: Let_def split: if_splits option.splits prod.splits)
  then obtain v c2 where
    rec: "attach_volumes_refs f rest (dict_set s band ''trading_volume_24h'' v) = (s', c2)"
    by blast
  let ?s1 = "dict_set s band ''trading_volume_24h'' v"
  have len: "length ?s1 = length s" by (simp add: dict_set_frame)
  have grow: "\<forall>a < length s. dom (s ! a) \<subseteq> dom (?s1 ! a)"
  proof (intro allI impI)
    fix a assume "a < length s"
    then show "dom (s ! a) \<subseteq> dom (?s1 ! a)"
      by (cases "a = band") (auto simp: dict_set_def)
  qed
  have here: "band < length s \<longrightarrow> ''trading_volume_24h'' \<in> dom (?s1 ! band)"
    by (simp add: dict_set_def)
  note IH = Cons.IH [OF rec]
  have a: "\<forall>a < length s. dom (s ! a) \<subseteq> dom (s' ! a)"
  proof (intro allI impI)
    fix a assume a: "a < length s"
    with grow have "dom (s ! a) \<subseteq> dom (?s1 ! a)" by blast
    also from IH len a have "\<dots> \<subseteq> dom (s' ! a)" by simp
    finally show "dom (s ! a) \<subseteq> dom (s' ! a)" .
  qed
  from IH len here have b: "band < length s \<longrightarrow> ''trading_volume_24h'' \<in> dom (s' ! band)"
    by auto
  from IH len have c: "\<forall>x \<in> set rest. x < length s \<longrightarrow> ''trading_volume_24h'' \<in> dom (s' ! x)"
    by simp
  from a b c show ?case by simp
qed

text \<open>
  The run on the example store: both cached bins meet the filter, their copies are the
  objects 2 and 3, and the copy of the second bin has the larger liquidity.
\<close>

lemma filter_ex_store:
  "filter_bins_by_price_range_refs ex_store [0, 1] (Some 1500) None = [0, 1]"
  by (simp add: filter_bins_by_price_range_refs_def dict_get_def ex_store_def ex_bin_dict_def)

lemma copy_ex_store:
  "copy_bins_with_liquidity [0, 1] ex_store =
     ([2, 3], ex_store @ [(ex_store ! 0)(''total_liquidity'' \<mapsto> 3000),
                          (ex_store ! 1)(''total_liquidity'' \<mapsto> 5000)])"
  by (simp add: dict_copy_def dict_set_def dict_get_def calculate_total_liquidity_dict_def
        ex_store_def ex_bin_dict_def)

lemma top_ex_store:
  "get_top_liquidity_bands_refs ex_store [0, 1] 3 =
     Inr ([3, 2], ex_store @ [(ex_store ! 0)(''total_liquidity'' \<mapsto> 3000),
                              (ex_store ! 1)(''total_liquidity'' \<mapsto> 5000)])"
  unfolding get_top_liquidity_bands_refs_def copy_ex_store
  by (simp add: dict_item_def sorted_reverse_def ex_store_def ex_bin_dict_def)

lemma volumes_ex_store:
  "attach_volumes_refs (fetch_trading_volume ex_volume_env) [3, 2]
     (ex_store @ [(ex_store ! 0)(''total_liquidity'' \<mapsto> 3000),
                  (ex_store ! 1)(''total_liquidity'' \<mapsto> 5000)]) =
     (ex_store @ [(ex_store ! 0)(''total_liquidity'' \<mapsto> 3000, ''trading_volume_24h'' \<mapsto> 12345),
                  (ex_store ! 1)(''total_liquidity'' \<mapsto> 5000, ''trading_volume_24h'' \<mapsto> 12345)],
      [FetchTradingVolume 2000 3000, FetchTradingVolume 1000 2000])"
  by (simp add: dict_get_def dict_set_def fetch_trading_volume_def parse_trading_volume_def
        ex_volume_env_def ex_store_def ex_bin_dict_def)

lemma serve_ex_store:
  "serve_from_cached_bins_refs ex_volume_env ex_store [0, 1] (Some 1500) None =
     Inr ([3, 2],
          ex_store @ [(ex_store ! 0)(''total_liquidity'' \<mapsto> 3000, ''trading_volume_24h'' \<mapsto> 12345),
                      (ex_store ! 1)(''total_liquidity'' \<mapsto> 5000, ''trading_volume_24h'' \<mapsto> 12345)],
          [FetchTradingVolume 2000 3000, FetchTradingVolume 1000 2000])"
  unfolding serve_from_cached_bins_refs_def Let_def filter_ex_store recommend_top_bands_refs_def top_ex_store
  by (simp only: bind_exn_simps prod.case option.case volumes_ex_store)

text \<open>
  Claim C10. Let every reference in the cached bin list be a place of the store. The cached
  branch of \<^verbatim>\<open>get_recommendations_data\<close>, up to and including the call of
  \<^verbatim>\<open>recommend_top_bands\<close> (what follows only reads the bins to build the metadata), returns, and
  it writes into no object that existed before the request: every such object, so every
  cached bin dictionary, has exactly the keys and values it had. Every selected band is an
  object created during the request, the copy of a cached bin: it agrees with that bin on
  every key other than \<^verbatim>\<open>total_liquidity\<close>, which holds the liquidity of the bin, and
  \<^verbatim>\<open>trading_volume_24h\<close>, which is set.
\<close>

theorem cached_bins_not_mutated:
  assumes alloc: "\<forall>b \<in> set cached_bins. b < length s"
  shows "\<exists>bands s' calls.
     serve_from_cached_bins_refs e s cached_bins price_lower price_upper = Inr (bands, s', calls)
     \<and> length s \<le> length s'
     \<and> (\<forall>a < length s. s' ! a = s ! a)
     \<and> (\<forall>band \<in> set bands.
          length s \<le> band \<and> band < length s' \<and>
          ''trading_volume_24h'' \<in> dom (s' ! band) \<and>
          (\<exists>b \<in> set cached_bins.
             (s' ! band) ''total_liquidity'' = Some (calculate_total_liquidity_dict (s ! b)) \<and>
             (\<forall>key. key \<noteq> ''total_liquidity'' \<and> key \<noteq> ''trading_volume_24h'' \<longrightarrow>
                    (s' ! band) key = (s ! b) key)))"
proof -
  let ?bins = "filter_bins_by_price_range_refs s cached_bins price_lower price_upper"
  have sub: "set ?bins \<subseteq> set cached_bins"
    by (auto simp: filter_bins_by_price_range_refs_def)
  with alloc have alloc': "\<forall>b \<in> set ?bins. b < length s" by blast
  obtain copies s1 where cp: "copy_bins_with_liquidity ?bins s = (copies, s1)"
    by (cases "copy_bins_with_liquidity ?bins s")
  note f1 = copy_bins_with_liquidity_frame [OF cp]
  note c1 = copy_bins_with_liquidity_copies [OF cp alloc']
  from f1 sort_keys_total [of copies s1] obtain keyed where
    keyed: "sort_keys s1 copies = Inr keyed" and fst_keyed: "map fst keyed = copies" by blast
  let ?top = "take 3 (map fst (sorted_reverse snd keyed))"
  have top_sub: "set ?top \<subseteq> set copies"
  proof -
    have "set ?top \<subseteq> set (map fst (sorted_reverse snd keyed))" by (rule set_take_subset)
    also have "\<dots> = fst ` set_mset (mset (sorted_reverse snd keyed))" by simp
    also have "\<dots> = set (map fst keyed)" by (simp add: sorted_reverse_def)
    finally show ?thesis by (simp only: fst_keyed)
  qed
  obtain s2 calls where av: "attach_volumes_refs (fetch_trading_volume e) ?top s1 = (s2, calls)"
    by (cases "attach_volumes_refs (fetch_trading_volume e) ?top s1")
  note f2 = attach_volumes_refs_frame [OF av]
  note w2 = attach_volumes_refs_written [OF av]
  have res: "serve_from_cached_bins_refs e s cached_bins price_lower price_upper = Inr (?top, s2, calls)"
    by (simp add: serve_from_cached_bins_refs_def recommend_top_bands_refs_def
          get_top_liquidity_bands_refs_def cp keyed av Let_def)
  have range: "\<forall>band \<in> set ?top. length s \<le> band \<and> band < length s2"
    using top_sub f1 f2 by auto
  have old: "\<forall>a < length s. s2 ! a = s ! a"
  proof (intro allI impI)
    fix a assume a: "a < length s"
    with range have "a \<notin> set ?top" by auto
    with f2 have "s2 ! a = s1 ! a" by blast
    with f1 a show "s2 ! a = s ! a" by simp
  qed
  have new: "\<forall>band \<in> set ?top.
          length s \<le> band \<and> band < length s2 \<and>
          ''trading_volume_24h'' \<in> dom (s2 ! band) \<and>
          (\<exists>b \<in> set cached_bins.
             (s2 ! band) ''total_liquidity'' = Some (calculate_total_liquidity_dict (s ! b)) \<and>
             (\<forall>key. key \<noteq> ''total_liquidity'' \<and> key \<noteq> ''trading_volume_24h'' \<longrightarrow>
                    (s2 ! band) key = (s ! b) key))"
  proof
    fix band assume band: "band \<in> set ?top"
    with range have r: "length s \<le> band" "band < length s2" by auto
    from r f2 have "band < length s1" by simp
    with w2 band have tv: "''trading_volume_24h'' \<in> dom (s2 ! band)" by blast
    from band top_sub f1 have "band \<in> set [length s ..< length s + length ?bins]" by auto
    then obtain i where i: "i < length ?bins" and bi: "band = length s + i"
      by (auto simp: le_iff_add)
    let ?b = "?bins ! i"
    from i sub have mem: "?b \<in> set cached_bins" by (meson nth_mem subsetD)
    from c1 i bi have s1b: "s1 ! band =
        (s ! ?b)(''total_liquidity'' \<mapsto> calculate_total_liquidity_dict (s ! ?b))" by blast
    have k: "(s2 ! band) key = (s1 ! band) key" if "key \<noteq> ''trading_volume_24h''" for key
      using attach_volumes_refs_keys [OF av that] .
    have "(s2 ! band) ''total_liquidity'' = Some (calculate_total_liquidity_dict (s ! ?b))"
      using k [of "''total_liquidity''"] s1b by simp
    moreover have "\<forall>key. key \<noteq> ''total_liquidity'' \<and> key \<noteq> ''trading_volume_24h'' \<longrightarrow>
                    (s2 ! band) key = (s ! ?b) key"
      using k s1b by simp
    ultimately show "length s \<le> band \<and> band < length s2 \<and>
          ''trading_volume_24h'' \<in> dom (s2 ! band) \<and>
          (\<exists>b \<in> set cached_bins.
             (s2 ! band) ''total_liquidity'' = Some (calculate_total_liquidity_dict (s ! b)) \<and>
             (\<forall>key. key \<noteq> ''total_liquidity'' \<and> key \<noteq> ''trading_volume_24h'' \<longrightarrow>
                    (s2 ! band) key = (s ! b) key))"
      using r tv mem by blast
  qed
  from f1 f2 have "length s \<le> length s2" by simp
  with res old new show ?thesis by blast
qed

theorem cached_bins_not_mutated_witness:
  "\<exists>s'. serve_from_cached_bins_refs ex_volume_env ex_store [0, 1] (Some 1500) None =
           Inr ([3, 2], s', [FetchTradingVolume 2000 3000, FetchTradingVolume 1000 2000])
        \<and> s' ! 0 = ex_store ! 0 \<and> s' ! 1 = ex_store ! 1
        \<and> (s' ! 0) ''total_liquidity'' = None \<and> (s' ! 1) ''trading_volume_24h'' = None
        \<and> (s' ! 3) ''total_liquidity'' = Some 5000 \<and> (s' ! 3) ''priceLower'' = Some 2000"
proof -
  have alloc: "\<forall>b \<in> set [0, 1]. b < length ex_store" by (simp add: ex_store_def)
  from cached_bins_not_mutated [OF alloc, of ex_volume_env "Some 1500" None]
  obtain bands s' calls where
    r: "serve_from_cached_bins_refs ex_volume_env ex_store [0, 1] (Some 1500) None = Inr (bands, s', calls)"
    and old: "\<forall>a < length ex_store. s' ! a = ex_store ! a"
    by blast
  from old have o: "s' ! 0 = ex_store ! 0" "s' ! 1 = ex_store ! 1" by (simp_all add: ex_store_def)
  from r have s': "s' = fst (snd (projr (serve_from_cached_bins_refs ex_volume_env ex_store [0, 1] (Some 1500) None)))"
    by simp
  have new: "(s' ! 3) ''total_liquidity'' = Some 5000" "(s' ! 3) ''priceLower'' = Some 2000"
    unfolding s' serve_ex_store by (simp_all add: ex_store_def ex_bin_dict_def)
  have none: "(ex_store ! 0) ''total_liquidity'' = None" "(ex_store ! 1) ''trading_volume_24h'' = None"
    by (simp_all add: ex_store_def ex_bin_dict_def)
  from r have "serve_from_cached_bins_refs ex_volume_env ex_store [0, 1] (Some 1500) None =
           Inr ([3, 2], s', [FetchTradingVolume 2000 3000, FetchTradingVolume 1000 2000])"
    unfolding serve_ex_store by simp
  with o new none show ?thesis by simp
qed

subsection \<open>The two models of the cached branch agree\<close>

text \<open>
  When the objects at the cached references hold the cached bins of the first model, the
  cached branch on the store sends the upstream queries of the first model and returns
  references to objects that hold the bands of the first model, in the same order.
\<close>

lemma dict_of_bin_get:
  "dict_get (dict_of_bin b) ''priceLower'' 0 = priceLower b"
  "dict_get (dict_of_bin b) ''priceUpper'' 0 = priceUpper b"
  "dict_get (dict_of_bin b) ''amount_weth'' 0 = amount_weth b"
  "dict_get (dict_of_bin b) ''amount_usdt'' 0 = amount_usdt b"
  by (simp_all add: dict_get_def dict_of_bin_def)

lemma dict_of_band_get:
  "dict_get (dict_of_band b) ''priceLower'' 0 = priceLower b"
  "dict_get (dict_of_band b) ''priceUpper'' 0 = priceUpper b"
  "dict_of_band b ''total_liquidity'' = Some (total_liquidity b)"
  by (simp_all add: dict_get_def dict_of_band_def dict_of_bin_def Let_def split: option.split)

lemma calculate_total_liquidity_dict_of_bin:
  "calculate_total_liquidity_dict (dict_of_bin b) = calculate_total_liquidity b"
  by (simp add: calculate_total_liquidity_dict_def calculate_total_liquidity_def dict_of_bin_get)

lemma dict_of_band_copy:
  "dict_of_band (bin_copy_with_liquidity b) =
     (dict_of_bin b)(''total_liquidity'' \<mapsto> calculate_total_liquidity b)"
  by (simp add: dict_of_band_def dict_of_bin_def bin_copy_with_liquidity_def bin.extend_def
        band.fields_def)

lemma dict_of_band_volume:
  "dict_of_band (b\<lparr>trading_volume_24h := Some v\<rparr>) = (dict_of_band b)(''trading_volume_24h'' \<mapsto> v)"
  by (simp add: dict_of_band_def dict_of_bin_def Let_def split: option.split)

lemma filter_refs_refines:
  assumes "list_all2 (holds_bin s) refs bins"
  shows "list_all2 (holds_bin s) (filter_bins_by_price_range_refs s refs lo up)
           (filter_bins_by_price_range bins lo up)"
proof (cases "lo = None \<and> up = None")
  case True
  with assms show ?thesis
    by (simp add: filter_bins_by_price_range_refs_def filter_bins_by_price_range_def)
next
  case False
  from assms have "list_all2 (holds_bin s)
      (filter (\<lambda>b. let bin_lower = dict_get (s ! b) ''priceLower'' 0;
                        bin_upper = dict_get (s ! b) ''priceUpper'' 0
                    in case (lo, up) of
                         (Some lo, Some up) \<Rightarrow> bin_lower \<le> up \<and> bin_upper \<ge> lo
                       | (Some lo, None) \<Rightarrow> bin_upper \<ge> lo
                       | (None, Some up) \<Rightarrow> bin_lower \<le> up
                       | (None, None) \<Rightarrow> False) refs)
      (filter (bin_overlaps_range lo up) bins)"
    by (induction rule: list_all2_induct)
       (auto simp: holds_bin_def bin_overlaps_range_def dict_of_bin_get Let_def split: option.splits)
  with False show ?thesis
    by (auto simp: filter_bins_by_price_range_refs_def filter_bins_by_price_range_def)
qed

lemma copy_refines:
  assumes rel: "list_all2 (holds_bin s) refs bins"
      and cp: "copy_bins_with_liquidity refs s = (copies, s')"
  shows "list_all2 (holds_band s') copies (map bin_copy_with_liquidity bins)"
proof -
  from rel have alloc: "\<forall>b \<in> set refs. b < length s"
    by (auto simp: list_all2_conv_all_nth holds_bin_def in_set_conv_nth)
  note f = copy_bins_with_liquidity_frame [OF cp]
  note c = copy_bins_with_liquidity_copies [OF cp alloc]
  from rel have len: "length refs = length bins" by (rule list_all2_lengthD)
  show ?thesis
  proof (rule list_all2_all_nthI)
    from f len show "length copies = length (map bin_copy_with_liquidity bins)" by simp
  next
    fix i assume "i < length copies"
    with f have i: "i < length refs" by simp
    with f have ci: "copies ! i = length s + i" by simp
    from rel i have h: "s ! (refs ! i) = dict_of_bin (bins ! i)"
      by (simp add: list_all2_conv_all_nth holds_bin_def)
    from c i have "s' ! (length s + i) =
        (dict_of_bin (bins ! i))(''total_liquidity'' \<mapsto> calculate_total_liquidity (bins ! i))"
      by (simp add: h calculate_total_liquidity_dict_of_bin)
    with f i len show "holds_band s' (copies ! i) (map bin_copy_with_liquidity bins ! i)"
      by (simp add: holds_band_def ci dict_of_band_copy)
  qed
qed

lemma sort_keys_eq:
  "\<forall>x \<in> set xs. ''total_liquidity'' \<in> dom (s ! x) \<Longrightarrow>
   sort_keys s xs = Inr (map (\<lambda>x. (x, the ((s ! x) ''total_liquidity''))) xs)"
  by (induction xs) (auto simp: dict_item_def)

lemma top_refines:
  assumes rel: "list_all2 (holds_bin s) refs bins"
  shows "\<exists>top s'. get_top_liquidity_bands_refs s refs n = Inr (top, s')
           \<and> list_all2 (holds_band s') top (get_top_liquidity_bands bins n)
           \<and> distinct top"
proof -
  obtain copies s' where cp: "copy_bins_with_liquidity refs s = (copies, s')"
    by (cases "copy_bins_with_liquidity refs s")
  note f = copy_bins_with_liquidity_frame [OF cp]
  let ?k = "\<lambda>x. the ((s' ! x) ''total_liquidity'')"
  let ?keyed = "map (\<lambda>x. (x, ?k x)) copies"
  from f have keyed: "sort_keys s' copies = Inr ?keyed" by (intro sort_keys_eq) blast
  have "list_all2 (\<lambda>p x. p = (x, ?k x)) ?keyed copies"
    by (simp add: list_all2_conv_all_nth)
  then have "list_all2 (\<lambda>p x. p = (x, ?k x)) (sorted_reverse snd ?keyed) (sorted_reverse ?k copies)"
    by (rule sorted_reverse_rel) simp
  then have fst: "map fst (sorted_reverse snd ?keyed) = sorted_reverse ?k copies"
    by (auto simp: list_all2_conv_all_nth intro: nth_equalityI)
  have res: "get_top_liquidity_bands_refs s refs n = Inr (take n (sorted_reverse ?k copies), s')"
    by (simp add: get_top_liquidity_bands_refs_def cp keyed fst)
  from copy_refines [OF rel cp]
  have "list_all2 (holds_band s') (sorted_reverse ?k copies)
          (sorted_reverse total_liquidity (map bin_copy_with_liquidity bins))"
    by (rule sorted_reverse_rel) (simp add: holds_band_def dict_of_band_get)
  then have a: "list_all2 (holds_band s') (take n (sorted_reverse ?k copies))
                  (get_top_liquidity_bands bins n)"
    by (simp add: get_top_liquidity_bands_def list_all2_takeI)
  from f have "distinct copies" by simp
  then have "distinct (sorted_reverse ?k copies)" by (simp add: sorted_reverse_def)
  then have "distinct (take n (sorted_reverse ?k copies))" by (rule distinct_take)
  with res a show ?thesis by blast
qed

lemma attach_volumes_refs_Cons:
  "attach_volumes_refs f (a # rest) s =
     (let price_low = dict_get (s ! a) ''priceLower'' 0;
          price_high = dict_get (s ! a) ''priceUpper'' 0
      in case attach_volumes_refs f rest
                (dict_set s a ''trading_volume_24h'' (band_volume f price_low price_high)) of
           (s', calls) \<Rightarrow> (s', band_volume_calls price_low price_high @ calls))"
  by (simp add: Let_def band_volume_def band_volume_calls_def split: option.split prod.split)

lemma attach_volumes_Cons:
  "attach_volumes f (b # rest) =
     (case attach_volumes f rest of
        (rest', calls) \<Rightarrow>
          (b\<lparr>trading_volume_24h := Some (band_volume f (priceLower b) (priceUpper b))\<rparr> # rest',
           band_volume_calls (priceLower b) (priceUpper b) @ calls))"
  by (simp add: Let_def band_volume_def band_volume_calls_def split: option.split prod.split)

lemma attach_volumes_refines:
  "list_all2 (holds_band s) refs bands \<Longrightarrow> distinct refs \<Longrightarrow>
   attach_volumes_refs f refs s = (s', calls) \<Longrightarrow>
   list_all2 (holds_band s') refs (fst (attach_volumes f bands)) \<and> calls = snd (attach_volumes f bands)"
proof (induction refs arbitrary: bands s s' calls)
  case Nil
  then show ?case by simp
next
  case (Cons a rest)
  from Cons.prems(1) obtain b brest where bands: "bands = b # brest"
    and hb: "holds_band s a b" and rel: "list_all2 (holds_band s) rest brest"
    by (auto simp: list_all2_Cons1)
  from Cons.prems(2) have na: "a \<notin> set rest" and dist: "distinct rest" by simp_all
  from hb have a: "a < length s" and sa: "s ! a = dict_of_band b" by (simp_all add: holds_band_def)
  let ?v = "band_volume f (priceLower b) (priceUpper b)"
  let ?s1 = "dict_set s a ''trading_volume_24h'' ?v"
  obtain s2 c2 where rec: "attach_volumes_refs f rest ?s1 = (s2, c2)"
    by (cases "attach_volumes_refs f rest ?s1")
  from Cons.prems(3) have "(case attach_volumes_refs f rest ?s1 of
           (s', calls) \<Rightarrow> (s', band_volume_calls (priceLower b) (priceUpper b) @ calls)) = (s', calls)"
    unfolding attach_volumes_refs_Cons Let_def sa dict_of_band_get .
  with rec have s': "s' = s2"
    and calls: "calls = band_volume_calls (priceLower b) (priceUpper b) @ c2"
    by simp_all
  have rel1: "list_all2 (holds_band ?s1) rest brest"
  proof (rule list_all2_all_nthI)
    from rel show "length rest = length brest" by (rule list_all2_lengthD)
  next
    fix i assume i: "i < length rest"
    with rel have h: "holds_band s (rest ! i) (brest ! i)" by (simp add: list_all2_conv_all_nth)
    from i na have "rest ! i \<noteq> a" by (metis nth_mem)
    with h show "holds_band ?s1 (rest ! i) (brest ! i)"
      by (simp add: holds_band_def dict_set_frame)
  qed
  note IH = Cons.IH [OF rel1 dist rec]
  from attach_volumes_refs_frame [OF rec] na a
  have "length s2 = length s" and "s2 ! a = ?s1 ! a" by (simp_all add: dict_set_frame)
  with a sa have "holds_band s2 a (b\<lparr>trading_volume_24h := Some ?v\<rparr>)"
    by (simp add: holds_band_def dict_set_def dict_of_band_volume)
  with IH show ?case
    unfolding bands s' calls attach_volumes_Cons by (simp add: split_def)
qed

lemma serve_from_cached_bins_refs_refines:
  assumes rel: "list_all2 (holds_bin s) cached_refs cached_bins"
  shows "\<exists>top s'.
           serve_from_cached_bins_refs e s cached_refs price_lower price_upper =
             Inr (top, s', snd (serve_from_cached_bins e c cached_bins ts price_lower price_upper))
           \<and> list_all2 (holds_band s') top
                 (top_liquidity_bands (fst (serve_from_cached_bins e c cached_bins ts price_lower price_upper)))"
proof -
  let ?refs = "filter_bins_by_price_range_refs s cached_refs price_lower price_upper"
  let ?bins = "filter_bins_by_price_range cached_bins price_lower price_upper"
  from top_refines [OF filter_refs_refines [OF rel], of price_lower price_upper 3]
  obtain top s1 where top: "get_top_liquidity_bands_refs s ?refs 3 = Inr (top, s1)"
    and rel1: "list_all2 (holds_band s1) top (get_top_liquidity_bands ?bins 3)"
    and dist: "distinct top" by blast
  obtain s2 calls where av: "attach_volumes_refs (fetch_trading_volume e) top s1 = (s2, calls)"
    by (cases "attach_volumes_refs (fetch_trading_volume e) top s1")
  note r = attach_volumes_refines [OF rel1 dist av]
  have "serve_from_cached_bins_refs e s cached_refs price_lower price_upper = Inr (top, s2, calls)"
    by (simp add: serve_from_cached_bins_refs_def recommend_top_bands_refs_def top av)
  moreover have "serve_from_cached_bins e c cached_bins ts price_lower price_upper =
     (\<lparr>top_liquidity_bands = fst (attach_volumes (fetch_trading_volume e) (get_top_liquidity_bands ?bins 3)),
       metadata = Some
            \<lparr>total_positions = (case c_total_positions c of None \<Rightarrow> 0 | Some n \<Rightarrow> n),
             total_bins = length ?bins,
             bins_with_positions = count_bins_with_positions ?bins,
             analysis_date = utcnow e,
             time_range_hours = 240,
             cache_timestamp = ts,
             price_filter_lower = price_lower,
             price_filter_upper = price_upper\<rparr>\<rparr>,
      snd (attach_volumes (fetch_trading_volume e) (get_top_liquidity_bands ?bins 3)))"
    by (simp add: serve_from_cached_bins_def recommend_top_bands_def Let_def split_def)
  ultimately show ?thesis using r by simp
qed

end
